(* ===== verification/Prelude.thy ===== *)
theory Prelude
  imports Main "HOL-Library.Word"
begin

text \<open>
  Prelude of the coreminer development: the machine types of the sources, the errors its
  functions raise, the way a partial computation is threaded through a state, and the generic
  facts on lists, words and reachable states that the component theories share.

  Conventions used by every theory:
  \<^item> \<open>std::uint8_t\<close> .. \<open>std::uint64_t\<close> are words of that width, \<open>size_t\<close> counters that are
    bounded by a container's size are \<open>nat\<close>;
  \<^item> a C++ exception is a value of \<open>exn\<close>; a function that may throw returns \<open>exn + 'a\<close>, and a
    state-changing function returns the state it leaves behind together with \<open>exn option\<close>,
    because the assignments made before the throw stay visible to the catcher;
  \<^item> behaviour that the C++ standard leaves undefined is the error \<open>UndefinedBehaviour\<close>, so a
    theorem that a call returns also says that it does not run into it.
\<close>

section \<open>Machine types\<close>

type_synonym byte = "8 word"
type_synonym u16 = "16 word"
type_synonym u32 = "32 word"
type_synonym u64 = "64 word"
type_synonym bytes = "byte list"

section \<open>Errors\<close>

datatype exn =
    BadHexCharacter
  | OutOfRange
  | InvalidArgument
  | LogicError
  | RuntimeError string
  | PointerThrown
  | UndefinedBehaviour

text \<open>
  \<open>withv r s k\<close> continues with the value of \<open>r\<close>; when \<open>r\<close> throws, the state \<open>s\<close> reached so
  far is what the catcher sees.
\<close>

definition withv :: "exn + 'a \<Rightarrow> 's \<Rightarrow> ('a \<Rightarrow> exn option \<times> 's) \<Rightarrow> exn option \<times> 's" where
  "withv r s k = (case r of Inl e \<Rightarrow> (Some e, s) | Inr v \<Rightarrow> k v)"

lemma withv_simps [simp]:
  "withv (Inl e) s k = (Some e, s)"
  "withv (Inr v) s k = k v"
  by (simp_all add: withv_def)

lemma withv_split:
  "P (withv r s k) \<longleftrightarrow> (\<forall>e. r = Inl e \<longrightarrow> P (Some e, s)) \<and> (\<forall>v. r = Inr v \<longrightarrow> P (k v))"
  by (cases r) simp_all

text \<open>Bounds-checked access, as \<open>std::vector::at\<close>.\<close>

definition vec_at :: "'a list \<Rightarrow> nat \<Rightarrow> exn + 'a" where
  "vec_at xs i = (if i < length xs then Inr (xs ! i) else Inl OutOfRange)"

lemma vec_at_Inr [simp]: "vec_at xs i = Inr x \<longleftrightarrow> i < length xs \<and> xs ! i = x"
  by (auto simp: vec_at_def)

lemma vec_at_Inl [simp]: "vec_at xs i = Inl e \<longleftrightarrow> length xs \<le> i \<and> e = OutOfRange"
  by (auto simp: vec_at_def)

section \<open>Collections of facts\<close>

named_theorems codec \<open>equations of the encoders and decoders\<close>
named_theorems frame \<open>fields that an operation leaves unchanged\<close>
named_theorems inv_rules \<open>operations that keep the invariant of their component\<close>

section \<open>Lists\<close>

lemma drop_take_split: "xs = take n xs @ drop n xs"
  by simp

definition erase_at :: "nat \<Rightarrow> 'a list \<Rightarrow> 'a list" where
  "erase_at i xs = take i xs @ drop (Suc i) xs"

lemma length_erase_at [simp]: "i < length xs \<Longrightarrow> length (erase_at i xs) = length xs - 1"
  by (simp add: erase_at_def)

lemma nth_erase_at:
  "i < length xs \<Longrightarrow> j < length xs - 1 \<Longrightarrow>
   erase_at i xs ! j = (if j < i then xs ! j else xs ! Suc j)"
  by (simp add: erase_at_def nth_append)

lemma set_erase_at_subset: "set (erase_at i xs) \<subseteq> set xs"
  by (auto simp: erase_at_def dest: in_set_takeD in_set_dropD)

section \<open>Big-endian values of byte lists\<close>

definition be_val :: "bytes \<Rightarrow> nat" where
  "be_val bs = foldl (\<lambda>a b. 256 * a + unat b) 0 bs"

lemma unat_byte_less [simp]: "unat (b :: byte) < 256"
proof -
  have "unat b < 2 ^ LENGTH(8)" by (rule unsigned_less)
  then show ?thesis by simp
qed

lemma unat_byte_le [simp]: "unat (b :: byte) \<le> 255"
  using unat_byte_less [of b] by linarith

lemma foldl_be: "foldl (\<lambda>a b. 256 * a + unat b) a bs = a * 256 ^ length bs + be_val (bs :: bytes)"
proof (induction bs arbitrary: a)
  case Nil
  show ?case by (simp add: be_val_def)
next
  case (Cons b bs)
  have "be_val (b # bs) = unat b * 256 ^ length bs + be_val bs"
    using Cons.IH [of "unat b"] by (simp add: be_val_def)
  then show ?case
    using Cons.IH [of "256 * a + unat b"] by (simp add: algebra_simps)
qed

lemma be_val_Nil [simp]: "be_val [] = 0"
  by (simp add: be_val_def)

lemma be_val_Cons [simp]: "be_val (b # bs) = unat b * 256 ^ length bs + be_val bs"
  using foldl_be [of "unat b" bs] by (simp add: be_val_def)

lemma be_val_append: "be_val (xs @ ys) = be_val xs * 256 ^ length ys + be_val ys"
  by (induction xs) (simp_all add: algebra_simps power_add)

lemma be_val_snoc: "be_val (xs @ [b]) = 256 * be_val xs + unat b"
  by (simp add: be_val_append)

lemma be_val_less: "be_val bs < 256 ^ length bs"
proof (induction bs)
  case Nil
  show ?case by simp
next
  case (Cons b bs)
  have "unat b * 256 ^ length bs + be_val bs < (unat b + 1) * 256 ^ length bs"
    using Cons.IH by simp
  also have "\<dots> \<le> 256 * 256 ^ length bs"
    using unat_byte_less [of b] by (intro mult_right_mono) simp_all
  finally show ?case by simp
qed

lemma be_val_replicate_0 [simp]: "be_val (replicate n 0) = 0"
  by (induction n) simp_all

lemma be_val_inj:
  "length xs = length ys \<Longrightarrow> be_val xs = be_val ys \<Longrightarrow> xs = ys"
proof (induction xs ys rule: list_induct2)
  case Nil
  show ?case by simp
next
  case (Cons x xs y ys)
  have lt: "be_val xs < 256 ^ length ys" "be_val ys < 256 ^ length ys"
    using be_val_less [of xs] be_val_less [of ys] Cons.hyps by simp_all
  from Cons.prems have eq:
    "unat x * 256 ^ length ys + be_val xs = unat y * 256 ^ length ys + be_val ys"
    using Cons.hyps by simp
  have "unat x = (unat x * 256 ^ length ys + be_val xs) div 256 ^ length ys"
    using lt by simp
  also have "\<dots> = unat y"
    using lt unfolding eq by simp
  finally have xy: "unat x = unat y" .
  then have "x = y" by (rule unsigned_word_eqI)
  moreover from eq xy have "xs = ys" by (intro Cons.IH) simp
  ultimately show ?case by simp
qed

section \<open>Small numbers as words\<close>

lemma unat_of_nat_u64: "n < 2 ^ 64 \<Longrightarrow> unat (of_nat n :: u64) = n"
  by (simp add: unat_of_nat)

lemma unat_of_nat_u32: "n < 2 ^ 32 \<Longrightarrow> unat (of_nat n :: u32) = n"
  by (simp add: unat_of_nat)

lemma unat_of_nat_u16: "n < 2 ^ 16 \<Longrightarrow> unat (of_nat n :: u16) = n"
  by (simp add: unat_of_nat)

lemmas unat_of_nat_words = unat_of_nat_u64 unat_of_nat_u32 unat_of_nat_u16

section \<open>Reachable states\<close>

text \<open>
  A component whose operations may come in any order is a predicate on initial states and a
  step relation. The interface \<open>machine\<close> is what an invariant has to satisfy; its lemma is the
  only induction over runs of the development.
\<close>

inductive reach :: "('s \<Rightarrow> bool) \<Rightarrow> ('s \<Rightarrow> 's \<Rightarrow> bool) \<Rightarrow> 's \<Rightarrow> bool"
  for init :: "'s \<Rightarrow> bool" and step :: "'s \<Rightarrow> 's \<Rightarrow> bool" where
  reach_init: "init s \<Longrightarrow> reach init step s"
| reach_step: "reach init step s \<Longrightarrow> step s t \<Longrightarrow> reach init step t"

locale machine =
  fixes init :: "'s \<Rightarrow> bool"
    and step :: "'s \<Rightarrow> 's \<Rightarrow> bool"
    and inv :: "'s \<Rightarrow> bool"
  assumes init_inv: "init s \<Longrightarrow> inv s"
    and step_inv: "inv s \<Longrightarrow> step s t \<Longrightarrow> inv t"
begin

lemma reach_inv: "reach init step s \<Longrightarrow> inv s"
  by (induction rule: reach.induct) (blast intro: init_inv step_inv)+

lemma run_inv:
  assumes "step\<^sup>*\<^sup>* s t" and "inv s"
  shows "inv t"
  using assms by (induction rule: rtranclp_induct) (blast intro: step_inv)+

end

end
