(* ===== verification/Cxx.thy ===== *)
theory Cxx
  imports Prelude
begin

text \<open>
  The parts of the C++ standard library that coreminer's own functions are written in: stream
  output of integers (\<open>std::hex\<close>, \<open>std::setw\<close>, \<open>std::setfill\<close>, \<open>std::to_string\<close>),
  \<open>std::string::find\<close>/\<open>substr\<close>, and the \<open>std::stoul\<close> family. Characters are bytes.
\<close>

section \<open>Digits\<close>

definition hexdig :: "nat \<Rightarrow> char" where
  "hexdig n = (if n < 10 then char_of (48 + n) else char_of (87 + n))"

text \<open>The value of a digit in a base up to 36, as \<open>strtoul\<close> reads it.\<close>

definition digit_val :: "char \<Rightarrow> nat option" where
  "digit_val c =
     (let n = of_char c :: nat in
      if 48 \<le> n \<and> n \<le> 57 then Some (n - 48)
      else if 97 \<le> n \<and> n \<le> 122 then Some (n - 87)
      else if 65 \<le> n \<and> n \<le> 90 then Some (n - 55)
      else None)"

lemma of_char_hexdig: "n < 16 \<Longrightarrow> (of_char (hexdig n) :: nat) = (if n < 10 then 48 + n else 87 + n)"
  by (simp add: hexdig_def)

lemma digit_val_hexdig [simp]: "n < 16 \<Longrightarrow> digit_val (hexdig n) = Some n"
  by (simp add: digit_val_def of_char_hexdig)

lemma hexdig_inj: "m < 16 \<Longrightarrow> n < 16 \<Longrightarrow> hexdig m = hexdig n \<longleftrightarrow> m = n"
  by (metis digit_val_hexdig option.inject)

section \<open>Output of unsigned integers\<close>

fun hexstr :: "nat \<Rightarrow> string" where
  "hexstr n = (if n < 16 then [hexdig n] else hexstr (n div 16) @ [hexdig (n mod 16)])"

declare hexstr.simps [simp del]

fun decstr :: "nat \<Rightarrow> string" where
  "decstr n = (if n < 10 then [hexdig n] else decstr (n div 10) @ [hexdig (n mod 10)])"

declare decstr.simps [simp del]

text \<open>\<open>os << std::setw(w) << std::setfill(c) << s\<close>.\<close>

definition setw :: "nat \<Rightarrow> char \<Rightarrow> string \<Rightarrow> string" where
  "setw w c s = replicate (w - length s) c @ s"

lemma length_setw [simp]: "length (setw w c s) = max w (length s)"
  by (simp add: setw_def)

section \<open>Hexadecimal numerals as lists of digits\<close>

text \<open>\<open>hexfix k n\<close> is the \<open>k\<close>-digit numeral of \<open>n mod 16 ^ k\<close>.\<close>

fun hexfix :: "nat \<Rightarrow> nat \<Rightarrow> string" where
  "hexfix 0 n = []"
| "hexfix (Suc k) n = hexfix k (n div 16) @ [hexdig (n mod 16)]"

lemma length_hexfix [simp]: "length (hexfix k n) = k"
  by (induction k arbitrary: n) simp_all

lemma hexfix_0 [simp]: "hexfix k 0 = replicate k (CHR ''0'')"
proof (induction k)
  case 0
  show ?case by simp
next
  case (Suc k)
  have "hexdig 0 = CHR ''0''" by code_simp
  with Suc show ?case by (simp add: replicate_append_same)
qed

lemma hexstr_small: "n < 16 ^ k \<Longrightarrow> 0 < k \<Longrightarrow> length (hexstr n) \<le> k"
proof (induction n arbitrary: k rule: hexstr.induct)
  case (1 n)
  show ?case
  proof (cases "n < 16")
    case True
    with 1 show ?thesis by (simp add: hexstr.simps [of n])
  next
    case False
    then obtain j where k: "k = Suc j" "0 < j"
      using "1.prems" by (cases k; cases "k - 1") auto
    with "1.prems" have "n div 16 < 16 ^ j" by (simp add: div_less_iff_less_mult mult.commute)
    with "1.IH" False k have "length (hexstr (n div 16)) \<le> j" by simp
    with False k show ?thesis by (simp add: hexstr.simps [of n])
  qed
qed

text \<open>Zero-padded stream output is the fixed-width numeral.\<close>

lemma setw_hexstr:
  assumes "n < 16 ^ k" and "0 < k"
  shows "setw k (CHR ''0'') (hexstr n) = hexfix k n"
  using assms
proof (induction n arbitrary: k rule: hexstr.induct)
  case (1 n)
  obtain j where k: "k = Suc j" using "1.prems" by (cases k) auto
  show ?case
  proof (cases "n < 16")
    case True
    with k show ?thesis by (simp add: hexstr.simps [of n] setw_def)
  next
    case False
    then have "0 < j" using "1.prems" k by (cases j) auto
    moreover have div: "n div 16 < 16 ^ j"
      using "1.prems" k by (simp add: div_less_iff_less_mult mult.commute)
    ultimately have "setw j (CHR ''0'') (hexstr (n div 16)) = hexfix j (n div 16)"
      using "1.IH" False by simp
    with False k show ?thesis by (simp add: hexstr.simps [of n] setw_def)
  qed
qed

section \<open>Reading numerals\<close>

definition hexnum :: "string \<Rightarrow> nat" where
  "hexnum s = foldl (\<lambda>a c. 16 * a + the (digit_val c)) 0 s"

definition is_hexdigit :: "char \<Rightarrow> bool" where
  "is_hexdigit c = (case digit_val c of None \<Rightarrow> False | Some d \<Rightarrow> d < 16)"

lemma is_hexdigit_hexdig [simp]: "n < 16 \<Longrightarrow> is_hexdigit (hexdig n)"
  by (simp add: is_hexdigit_def)

lemma hexnum_Nil [simp]: "hexnum [] = 0"
  by (simp add: hexnum_def)

lemma hexnum_snoc [simp]: "hexnum (s @ [c]) = 16 * hexnum s + the (digit_val c)"
  by (simp add: hexnum_def)

lemma hexnum_append: "hexnum (s @ t) = hexnum s * 16 ^ length t + hexnum t"
proof (induction t rule: rev_induct)
  case Nil
  show ?case by simp
next
  case (snoc c t)
  have "hexnum ((s @ t) @ [c]) = 16 * hexnum (s @ t) + the (digit_val c)"
    by (rule hexnum_snoc)
  with snoc show ?case by (simp add: algebra_simps)
qed

lemma hexnum_zeros [simp]: "hexnum (replicate k (CHR ''0'')) = 0"
proof (induction k)
  case 0
  show ?case by simp
next
  case (Suc k)
  have "digit_val (CHR ''0'') = Some 0" by (simp add: digit_val_def)
  with Suc show ?case by (simp add: replicate_append_same [symmetric])
qed

lemma hexnum_hexfix [simp]: "hexnum (hexfix k n) = n mod 16 ^ k"
proof (induction k arbitrary: n)
  case 0
  show ?case by simp
next
  case (Suc k)
  have "n mod 16 ^ Suc k = 16 * (n div 16 mod 16 ^ k) + n mod 16"
    by (simp add: mod_mult2_eq)
  with Suc show ?case by simp
qed

lemma hexnum_less: "\<forall>c \<in> set s. is_hexdigit c \<Longrightarrow> hexnum s < 16 ^ length s"
proof (induction s rule: rev_induct)
  case Nil
  show ?case by simp
next
  case (snoc c s)
  then have "the (digit_val c) < 16" and "hexnum s < 16 ^ length s"
    by (auto simp: is_hexdigit_def split: option.splits)
  then show ?case by (simp add: algebra_simps)
qed

text \<open>
  \<open>std::stoul(s, nullptr, 16)\<close> and its relatives: leading white space, an optional sign and an
  optional \<open>0x\<close> are skipped, then the longest run of digits is the numeral; no digit is
  \<open>std::invalid_argument\<close>, a value above the target's maximum is \<open>std::out_of_range\<close>. A minus
  sign negates modulo \<open>2 ^ 64\<close>, as \<open>strtoul\<close> does.
\<close>

definition is_space :: "char \<Rightarrow> bool" where
  "is_space c = ((of_char c :: nat) = 32 \<or> (9 \<le> (of_char c :: nat) \<and> (of_char c :: nat) \<le> 13))"

definition strip_0x :: "string \<Rightarrow> string" where
  "strip_0x s =
     (case s of z # x # d # r \<Rightarrow>
        (if z = CHR ''0'' \<and> (x = CHR ''x'' \<or> x = CHR ''X'') \<and> is_hexdigit d then d # r else s)
      | _ \<Rightarrow> s)"

definition stoul16 :: "string \<Rightarrow> exn + nat" where
  "stoul16 s =
     (let t = dropWhile is_space s;
          neg = (t \<noteq> [] \<and> hd t = CHR ''-'');
          u = (if t \<noteq> [] \<and> (hd t = CHR ''-'' \<or> hd t = CHR ''+'') then tl t else t);
          ds = takeWhile is_hexdigit (strip_0x u);
          v = hexnum ds
      in if ds = [] then Inl InvalidArgument
         else if 2 ^ 64 \<le> v then Inl OutOfRange
         else Inr (if neg then (2 ^ 64 - v) mod 2 ^ 64 else v))"

text \<open>\<open>std::stoi(s, nullptr, 16)\<close>: the same numerals, read as a signed 32-bit \<open>int\<close>.\<close>

definition stoi16 :: "string \<Rightarrow> exn + int" where
  "stoi16 s =
     (let t = dropWhile is_space s;
          neg = (t \<noteq> [] \<and> hd t = CHR ''-'');
          u = (if t \<noteq> [] \<and> (hd t = CHR ''-'' \<or> hd t = CHR ''+'') then tl t else t);
          ds = takeWhile is_hexdigit (strip_0x u);
          v = (if neg then - int (hexnum ds) else int (hexnum ds))
      in if ds = [] then Inl InvalidArgument
         else if v < - (2 ^ 31) \<or> 2 ^ 31 \<le> v then Inl OutOfRange
         else Inr v)"

section \<open>Searching in strings\<close>

text \<open>\<open>s.find(c)\<close>: the offset of the first occurrence, \<open>None\<close> for \<open>npos\<close>.\<close>

fun find_char :: "char \<Rightarrow> string \<Rightarrow> nat option" where
  "find_char c [] = None"
| "find_char c (x # xs) = (if x = c then Some 0 else map_option Suc (find_char c xs))"

lemma find_char_None [simp]: "find_char c s = None \<longleftrightarrow> c \<notin> set s"
  by (induction s) auto

lemma find_char_append: "c \<notin> set s \<Longrightarrow> find_char c (s @ c # t) = Some (length s)"
  by (induction s) auto

lemma find_char_Some:
  "find_char c s = Some n \<Longrightarrow> n < length s \<and> s ! n = c \<and> c \<notin> set (take n s)"
  by (induction s arbitrary: n) (auto split: if_splits)

section \<open>Ordered maps\<close>

text \<open>The order of \<open>std::string\<close> keys and an insertion that keeps a list of entries in that order.\<close>

fun str_less :: "string \<Rightarrow> string \<Rightarrow> bool" where
  "str_less [] [] = False"
| "str_less [] (_ # _) = True"
| "str_less (_ # _) [] = False"
| "str_less (c # cs) (d # ds) =
     (if (of_char c :: nat) < of_char d then True
      else if (of_char d :: nat) < of_char c then False else str_less cs ds)"

fun map_set :: "string \<Rightarrow> 'v \<Rightarrow> (string \<times> 'v) list \<Rightarrow> (string \<times> 'v) list" where
  "map_set k v [] = [(k, v)]"
| "map_set k v ((k', v') # kvs) =
     (if k = k' then (k, v) # kvs
      else if str_less k k' then (k, v) # (k', v') # kvs
      else (k', v') # map_set k v kvs)"

lemma map_of_map_set: "map_of (map_set k v ds) k' = (if k' = k then Some v else map_of ds k')"
  by (induction k v ds rule: map_set.induct) auto

lemma decstr_inj: "decstr m = decstr n \<longleftrightarrow> m = n"
proof
  show "decstr m = decstr n \<Longrightarrow> m = n"
  proof (induction m arbitrary: n rule: decstr.induct)
    case (1 m)
    have nonempty: "decstr k \<noteq> []" "[] \<noteq> decstr k" for k by (subst decstr.simps, simp)+
    show ?case
    proof (cases "m < 10")
      case True
      with 1(2) have "n < 10 \<and> hexdig m = hexdig n"
        using nonempty by (subst (asm) (1 2) decstr.simps) (auto split: if_splits)
      then show ?thesis using True hexdig_inj [of m n] by simp
    next
      case False
      with 1(2) have n: "\<not> n < 10" "decstr (m div 10) = decstr (n div 10)" "hexdig (m mod 10) = hexdig (n mod 10)"
        using nonempty by (subst (asm) (1 2) decstr.simps, auto split: if_splits)+
      have "m mod 10 < 16" "n mod 10 < 16" by (simp_all add: less_trans [of _ 10])
      then have "m mod 10 = n mod 10" using hexdig_inj n(3) by blast
      moreover have "m div 10 = n div 10" using 1(1) False n(2) by blast
      ultimately show ?thesis by (metis div_mult_mod_eq)
    qed
  qed
qed simp

end
