(* ===== verification/CommonData.thy ===== *)
theory CommonData
  imports Cxx
begin

unbundle bit_operations_syntax

text \<open>
  Conversions of \<open>src/libdevcore/CommonData.h\<close> and \<open>src/libdevcore/CommonData.cpp\<close>: bytes and
  integers to hexadecimal text and back, big-endian byte strings, padding, and the scaling of
  displayed quantities. The interface \<open>byte_codec\<close> states what a fixed-width encoding promises;
  it is interpreted on the big-endian encoding of 64-bit nonces.
\<close>

section \<open>Flags\<close>

datatype WhenError = DontThrow | Throw
datatype HexPrefix = DontAdd | Add

section \<open>Hexadecimal text to bytes\<close>

definition fromHex_char :: "char \<Rightarrow> WhenError \<Rightarrow> exn + int" where
  "fromHex_char i thr =
     (let n = (of_char i :: nat) in
      if 48 \<le> n \<and> n \<le> 57 then Inr (int n - 48)
      else if 97 \<le> n \<and> n \<le> 102 then Inr (int n - 97 + 10)
      else if 65 \<le> n \<and> n \<le> 70 then Inr (int n - 65 + 10)
      else case thr of Throw \<Rightarrow> Inl BadHexCharacter | DontThrow \<Rightarrow> Inr (- 1))"

text \<open>The digit value used inside \<open>fromHex(std::string)\<close>, which always passes \<open>DontThrow\<close>.\<close>

definition hexdigit :: "char \<Rightarrow> int" where
  "hexdigit c = (case fromHex_char c DontThrow of Inr v \<Rightarrow> v | Inl _ \<Rightarrow> - 1)"

text \<open>The \<open>for\<close> loop over character pairs; \<open>None\<close> is the error exit.\<close>

fun hex_pairs :: "string \<Rightarrow> bytes option" where
  "hex_pairs [] = Some []"
| "hex_pairs [c] = None"
| "hex_pairs (h # l # cs) =
     (if hexdigit h \<noteq> - 1 \<and> hexdigit l \<noteq> - 1
      then map_option (Cons (word_of_int (hexdigit h * 16 + hexdigit l))) (hex_pairs cs)
      else None)"

definition fromHex :: "string \<Rightarrow> WhenError \<Rightarrow> exn + bytes" where
  "fromHex s thr =
     (let t = (if take 2 s = ''0x'' then drop 2 s else s);
          err = (case thr of Throw \<Rightarrow> Inl BadHexCharacter | DontThrow \<Rightarrow> Inr [])
      in if odd (length s)
         then (case t of
                 [] \<Rightarrow> err
               | c # cs \<Rightarrow>
                   (if hexdigit c \<noteq> - 1
                    then (case hex_pairs cs of
                            None \<Rightarrow> err
                          | Some bs \<Rightarrow> Inr (word_of_int (hexdigit c) # bs))
                    else err))
         else (case hex_pairs t of None \<Rightarrow> err | Some bs \<Rightarrow> Inr bs))"

section \<open>Bytes and integers to hexadecimal text\<close>

definition add_prefix :: "HexPrefix \<Rightarrow> string \<Rightarrow> string" where
  "add_prefix p s = (case p of Add \<Rightarrow> ''0x'' @ s | DontAdd \<Rightarrow> s)"

definition toHex_bytes :: "bytes \<Rightarrow> nat \<Rightarrow> HexPrefix \<Rightarrow> string" where
  "toHex_bytes bs w p =
     add_prefix p
       (case bs of
          [] \<Rightarrow> []
        | b # r \<Rightarrow> setw w (CHR ''0'') (hexstr (unat b)) @
                    concat (map (\<lambda>x. setw 2 (CHR ''0'') (hexstr (unat x))) r))"

definition toHex_u64 :: "u64 \<Rightarrow> HexPrefix \<Rightarrow> nat \<Rightarrow> string" where
  "toHex_u64 n p w = add_prefix p (setw w (CHR ''0'') (hexstr (unat n)))"

definition toHex_u32 :: "u32 \<Rightarrow> HexPrefix \<Rightarrow> nat \<Rightarrow> string" where
  "toHex_u32 n p w = add_prefix p (setw w (CHR ''0'') (hexstr (unat n)))"

definition toCompactHex_u64 :: "u64 \<Rightarrow> HexPrefix \<Rightarrow> string" where
  "toCompactHex_u64 n p = add_prefix p (hexstr (unat n))"

definition toCompactHex_u32 :: "u32 \<Rightarrow> HexPrefix \<Rightarrow> string" where
  "toCompactHex_u32 n p = add_prefix p (hexstr (unat n))"

section \<open>Big-endian byte strings\<close>

text \<open>\<open>toBigEndian(_val, o_out)\<close> with \<open>o_out.size() = n\<close>, filled from the last byte.\<close>

fun toBigEndian :: "nat \<Rightarrow> nat \<Rightarrow> bytes" where
  "toBigEndian 0 v = []"
| "toBigEndian (Suc n) v = toBigEndian n (v div 256) @ [of_nat (v mod 256)]"

definition fromBigEndian :: "bytes \<Rightarrow> 'a::len word" where
  "fromBigEndian bs = foldl (\<lambda>r b. push_bit 8 r OR ucast b) 0 bs"

definition asBytes :: "string \<Rightarrow> bytes" where
  "asBytes s = map of_char s"

definition asString :: "bytes \<Rightarrow> string" where
  "asString bs = map (\<lambda>b. char_of (unat b)) bs"

fun bytesRequired :: "nat \<Rightarrow> nat" where
  "bytesRequired i = (if i = 0 then 0 else Suc (bytesRequired (i div 256)))"

declare bytesRequired.simps [simp del]

definition toCompactBigEndian :: "nat \<Rightarrow> nat \<Rightarrow> bytes" where
  "toCompactBigEndian v mn = toBigEndian (max mn (bytesRequired v)) v"

definition toHex_u256 :: "256 word \<Rightarrow> HexPrefix \<Rightarrow> string" where
  "toHex_u256 v p = add_prefix p (toHex_bytes (toBigEndian 32 (unat v)) 2 DontAdd)"

section \<open>Padding and scaling\<close>

definition padLeft :: "string \<Rightarrow> nat \<Rightarrow> char \<Rightarrow> string" where
  "padLeft v n c = (if length v < n then replicate (n - length v) c @ v else v)"

definition padRight :: "string \<Rightarrow> nat \<Rightarrow> char \<Rightarrow> string" where
  "padRight v n c = (if length v < n then v @ replicate (n - length v) c else v)"

section \<open>Digits agree\<close>

lemma hexdigit_digit_val:
  "hexdigit c = (if is_hexdigit c then int (the (digit_val c)) else - 1)"
  by (auto simp: hexdigit_def fromHex_char_def is_hexdigit_def digit_val_def Let_def)

lemma hexdigit_hexdig [simp]: "n < 16 \<Longrightarrow> hexdigit (hexdig n) = int n"
  by (simp add: hexdigit_digit_val)

lemma hexdigit_valid [simp]: "hexdigit c \<noteq> - 1 \<longleftrightarrow> is_hexdigit c"
  by (simp add: hexdigit_digit_val)

lemma hexdigit_bounds: "is_hexdigit c \<Longrightarrow> 0 \<le> hexdigit c \<and> hexdigit c < 16"
  by (auto simp: hexdigit_digit_val is_hexdigit_def split: option.splits)

lemma x_not_hexdigit [simp]: "\<not> is_hexdigit (CHR ''x'')"
  by code_simp

section \<open>Reading back what was written\<close>

definition hexbytes :: "bytes \<Rightarrow> string" where
  "hexbytes bs = concat (map (\<lambda>b. hexfix 2 (unat b)) bs)"

lemma hexbytes_simps [simp]:
  "hexbytes [] = []"
  "hexbytes (b # bs) = hexfix 2 (unat b) @ hexbytes bs"
  by (simp_all add: hexbytes_def)

lemma hexfix_2: "hexfix 2 n = [hexdig (n div 16 mod 16), hexdig (n mod 16)]"
  by (simp add: numeral_2_eq_2)

lemma length_hexbytes [simp]: "length (hexbytes bs) = 2 * length bs"
  by (induction bs) simp_all

lemma toHex_bytes_2 [codec]: "toHex_bytes bs 2 p = add_prefix p (hexbytes bs)"
proof -
  have "setw 2 (CHR ''0'') (hexstr (unat b)) = hexfix 2 (unat b)" for b :: byte
    by (rule setw_hexstr) simp_all
  then show ?thesis
    by (cases bs) (simp_all add: toHex_bytes_def hexbytes_def)
qed

lemma set_hexbytes: "c \<in> set (hexbytes bs) \<Longrightarrow> is_hexdigit c"
  by (induction bs) (auto simp: hexfix_2)

lemma hex_pairs_hexbytes [codec]: "hex_pairs (hexbytes bs) = Some bs"
proof (induction bs)
  case Nil
  show ?case by simp
next
  case (Cons b bs)
  let ?n = "unat b"
  have "?n div 16 < 16" by (rule div_less_iff_less_mult [THEN iffD2]) simp_all
  moreover have "int (?n div 16) * 16 + int (?n mod 16) = int ?n"
    by (metis div_mult_mod_eq of_nat_add of_nat_mult of_nat_numeral)
  ultimately show ?case
    using Cons by (simp add: hexfix_2)
qed

text \<open>
  The value read is the value of the numeral: the loop over pairs consumes exactly the hex
  digits and fails on the first other character.
\<close>

lemma hex_pairs_spec:
  assumes "even (length s)"
  shows "if \<forall>c \<in> set s. is_hexdigit c
         then \<exists>bs. hex_pairs s = Some bs \<and> be_val bs = hexnum s \<and> 2 * length bs = length s
         else hex_pairs s = None"
  using assms
proof (induction s rule: hex_pairs.induct)
  case 1
  show ?case by simp
next
  case (2 c)
  then show ?case by simp
next
  case (3 h l cs)
  show ?case
  proof (cases "is_hexdigit h \<and> is_hexdigit l")
    case False
    then show ?thesis by auto
  next
    case True
    then have hl: "hexdigit h * 16 + hexdigit l = int (hexnum [h, l])" and "hexnum [h, l] < 256"
      using hexdigit_bounds [of h] hexdigit_bounds [of l]
      by (auto simp: hexdigit_digit_val hexnum_def)
    moreover have "hexnum (h # l # cs) = hexnum [h, l] * 16 ^ length cs + hexnum cs"
      using hexnum_append [of "[h, l]" cs] by simp
    moreover have "(16 :: nat) ^ (2 * n) = 256 ^ n" for n
      by (simp add: power_mult)
    ultimately show ?thesis
      using 3 True by (auto simp: unat_of_nat hl split: if_splits)
  qed
qed

definition hexbody :: "string \<Rightarrow> string" where
  "hexbody s = (if take 2 s = ''0x'' then drop 2 s else s)"

lemma odd_hexbody: "odd (length s) \<longleftrightarrow> odd (length (hexbody s))"
proof (cases "take 2 s = ''0x''")
  case True
  then have "2 \<le> length s" by (metis length_take length_Cons list.size(3) min.cobounded1 numeral_2_eq_2)
  with True show ?thesis by (auto simp: hexbody_def)
next
  case False
  then show ?thesis by (simp add: hexbody_def)
qed

lemma fromHex_odd:
  assumes "hexbody s = c # cs" and "odd (length s)"
  shows "fromHex s thr =
    (if hexdigit c \<noteq> - 1
     then (case hex_pairs cs of
             None \<Rightarrow> (case thr of Throw \<Rightarrow> Inl BadHexCharacter | DontThrow \<Rightarrow> Inr [])
           | Some bs \<Rightarrow> Inr (word_of_int (hexdigit c) # bs))
     else (case thr of Throw \<Rightarrow> Inl BadHexCharacter | DontThrow \<Rightarrow> Inr []))"
  using assms unfolding fromHex_def hexbody_def by (simp add: Let_def)

lemma fromHex_even:
  assumes "even (length s)"
  shows "fromHex s thr =
    (case hex_pairs (hexbody s) of
       None \<Rightarrow> (case thr of Throw \<Rightarrow> Inl BadHexCharacter | DontThrow \<Rightarrow> Inr [])
     | Some bs \<Rightarrow> Inr bs)"
  using assms unfolding fromHex_def hexbody_def by (simp add: Let_def)

lemma fromHex_spec:
  "if \<forall>c \<in> set (hexbody s). is_hexdigit c
   then \<exists>bs. fromHex s thr = Inr bs \<and> be_val bs = hexnum (hexbody s) \<and>
          length bs = (length (hexbody s) + 1) div 2
   else fromHex s thr = (case thr of Throw \<Rightarrow> Inl BadHexCharacter | DontThrow \<Rightarrow> Inr [])"
proof (cases "odd (length s)")
  case False
  then have "even (length (hexbody s))" using odd_hexbody by blast
  from hex_pairs_spec [OF this] False show ?thesis
    by (auto simp: fromHex_even split: if_splits option.splits WhenError.splits)
next
  case True
  then obtain c cs where t: "hexbody s = c # cs"
    using odd_hexbody [of s] by (cases "hexbody s") auto
  then have "even (length cs)" using True odd_hexbody [of s] by simp
  note pairs = hex_pairs_spec [OF this]
  have v: "hexnum (c # cs) = the (digit_val c) * 16 ^ length cs + hexnum cs"
    using hexnum_append [of "[c]" cs] by (simp add: hexnum_def)
  show ?thesis
  proof (cases "is_hexdigit c")
    case False
    then show ?thesis
      using fromHex_odd [OF t True] t by (auto split: WhenError.splits)
  next
    case c: True
    then have "unat (word_of_int (hexdigit c) :: byte) = the (digit_val c)"
      by (auto simp: hexdigit_digit_val unat_of_nat is_hexdigit_def split: option.splits)
    moreover have "(256 :: nat) ^ n = 16 ^ length cs" if "2 * n = length cs" for n
      using that by (simp add: power_mult flip: that)
    ultimately show ?thesis
      using fromHex_odd [OF t True] t c pairs v
      by (auto split: if_splits option.splits WhenError.splits)
  qed
qed

lemma take2_hexbytes: "take 2 (hexbytes bs) \<noteq> ''0x''"
proof
  assume "take 2 (hexbytes bs) = ''0x''"
  then have "CHR ''x'' \<in> set (hexbytes bs)"
    by (metis in_set_takeD list.set_intros(1) list.set_intros(2))
  then show False using set_hexbytes by force
qed

lemma hexbody_add_prefix [codec]: "hexbody (add_prefix p (hexbytes bs)) = hexbytes bs"
  using take2_hexbytes [of bs] by (cases p) (simp_all add: add_prefix_def hexbody_def)

lemma fromHex_toHex_bytes [codec]: "fromHex (toHex_bytes bs 2 p) thr = Inr bs"
proof -
  have "even (length (add_prefix p (hexbytes bs)))"
    by (cases p) (simp_all add: add_prefix_def)
  from fromHex_even [OF this] show ?thesis by (simp add: codec)
qed

section \<open>Big-endian encodings\<close>

lemma length_toBigEndian [simp]: "length (toBigEndian n v) = n"
  by (induction n arbitrary: v) simp_all

lemma be_val_toBigEndian [codec]: "be_val (toBigEndian n v) = v mod 256 ^ n"
proof (induction n arbitrary: v)
  case 0
  show ?case by simp
next
  case (Suc n)
  have "v mod 256 ^ Suc n = 256 * (v div 256 mod 256 ^ n) + v mod 256"
    by (simp add: mod_mult2_eq)
  with Suc show ?case by (simp add: be_val_snoc unat_of_nat)
qed

lemma toBigEndian_be_val [codec]: "toBigEndian (length bs) (be_val bs) = bs"
  by (rule be_val_inj) (simp_all add: codec be_val_less)

lemma push_byte: "push_bit 8 w OR ucast b = 256 * w + (ucast b :: 'a word)"
  for w :: "'a::len word" and b :: byte
proof -
  have "push_bit 8 w + (ucast b :: 'a word) = push_bit 8 w OR ucast b"
    by (rule disjunctive_add) (auto simp: bit_simps dest: bit_imp_le_length)
  then show ?thesis by (simp add: push_bit_eq_mult mult.commute)
qed

lemma fromBigEndian_of_nat [codec]: "(fromBigEndian bs :: 'a::len word) = of_nat (be_val bs)"
  by (induction bs rule: rev_induct)
     (simp_all add: fromBigEndian_def push_byte be_val_snoc flip: unsigned_ucast_eq)

lemma bytesRequired_le: "bytesRequired i \<le> k \<longleftrightarrow> i < 256 ^ k"
proof (induction i arbitrary: k rule: bytesRequired.induct)
  case (1 i)
  show ?case
  proof (cases "i = 0")
    case True
    then show ?thesis by (simp add: bytesRequired.simps)
  next
    case False
    show ?thesis
    proof (cases k)
      case 0
      with False show ?thesis by (simp add: bytesRequired.simps [of i])
    next
      case (Suc j)
      with False "1.IH" [of j] show ?thesis
        by (simp add: bytesRequired.simps [of i] div_less_iff_less_mult mult.commute)
    qed
  qed
qed

text \<open>The shortest encoding: no leading zero byte unless the caller's minimum asks for one.\<close>

lemma be_val_toCompactBigEndian [codec]: "be_val (toCompactBigEndian v mn) = v"
proof -
  have "v < 256 ^ max mn (bytesRequired v)"
    by (simp flip: bytesRequired_le)
  then show ?thesis by (simp add: toCompactBigEndian_def codec)
qed

section \<open>The interface of a fixed-width encoding\<close>

locale byte_codec =
  fixes enc :: "'v \<Rightarrow> bytes"
    and dec :: "bytes \<Rightarrow> 'v"
    and width :: nat
  assumes length_enc: "length (enc v) = width"
    and dec_enc: "dec (enc v) = v"
    and enc_dec: "length bs = width \<Longrightarrow> enc (dec bs) = bs"
begin

lemma enc_inj: "enc v = enc w \<longleftrightarrow> v = w"
  by (metis dec_enc)

lemma dec_inj: "length bs = width \<Longrightarrow> length cs = width \<Longrightarrow> dec bs = dec cs \<longleftrightarrow> bs = cs"
  by (metis enc_dec)

text \<open>A value followed by other data is read back from the front, and the rest is untouched.\<close>

lemma dec_prefix: "dec (take width (enc v @ rest)) = v" and drop_prefix: "drop width (enc v @ rest) = rest"
  by (simp_all add: length_enc dec_enc)

text \<open>The hexadecimal text of an encoding reads back as the value, with or without prefix.\<close>

lemma hex_roundtrip: "map_sum id dec (fromHex (toHex_bytes (enc v) 2 p) thr) = Inr v"
  by (simp add: fromHex_toHex_bytes dec_enc)

end

lemma word_codec:
  assumes "LENGTH('a::len) = 8 * n"
  shows "byte_codec (\<lambda>x :: 'a word. toBigEndian n (unat x)) fromBigEndian n"
proof
  fix x :: "'a word" and bs :: bytes
  have pow: "2 ^ LENGTH('a) = (256 :: nat) ^ n" by (simp add: assms power_mult)
  show "length (toBigEndian n (unat x)) = n" by simp
  have "unat x < 256 ^ n"
    using unsigned_less [of x] by (metis pow)
  then show "fromBigEndian (toBigEndian n (unat x)) = x"
    by (simp add: codec)
  assume "length bs = n"
  then have "be_val bs < 2 ^ LENGTH('a)"
    using be_val_less [of bs] pow by simp
  then have "unat (fromBigEndian bs :: 'a word) = be_val bs"
    by (simp add: codec unat_of_nat)
  with \<open>length bs = n\<close> show "toBigEndian n (unat (fromBigEndian bs :: 'a word)) = bs"
    using toBigEndian_be_val [of bs] by simp
qed

interpretation be64: byte_codec "\<lambda>x :: u64. toBigEndian 8 (unat x)" fromBigEndian 8
  by (rule word_codec) simp

interpretation be256: byte_codec "\<lambda>x :: 256 word. toBigEndian 32 (unat x)" fromBigEndian 32
  by (rule word_codec) simp

section \<open>Hexadecimal text of integers\<close>

lemma toHex_u64_16 [codec]: "toHex_u64 n p 16 = add_prefix p (hexfix 16 (unat n))"
proof -
  have "unat n < 2 ^ LENGTH(64)" by (rule unsigned_less)
  then have "unat n < 16 ^ 16" by simp
  from setw_hexstr [OF this] show ?thesis by (simp add: toHex_u64_def)
qed

lemma hexfix_append: "hexfix (j + k) n = hexfix j (n div 16 ^ k) @ hexfix k n"
proof (induction k arbitrary: n)
  case 0
  show ?case by simp
next
  case (Suc k)
  have "n div 16 div 16 ^ k = n div 16 ^ Suc k"
    by (simp add: div_mult2_eq)
  with Suc show ?case by simp
qed

lemma hexfix_add: "hexfix k (n * 16 ^ k + m) = hexfix k m"
proof (induction k arbitrary: n m)
  case 0
  show ?case by simp
next
  case (Suc k)
  have "n * 16 ^ Suc k + m = 16 * (n * 16 ^ k) + m" by simp
  then have "(n * 16 ^ Suc k + m) div 16 = n * 16 ^ k + m div 16"
    and "(n * 16 ^ Suc k + m) mod 16 = m mod 16"
    by (simp_all only: div_mult_self4 mod_mult_self4)
  with Suc show ?case by simp
qed

lemma hexbytes_hexfix: "hexbytes bs = hexfix (2 * length bs) (be_val bs)"
proof (induction bs)
  case Nil
  show ?case by simp
next
  case (Cons b bs)
  have pow: "(16 :: nat) ^ (2 * length bs) = 256 ^ length bs" by (simp add: power_mult)
  have "hexfix (2 + 2 * length bs) (be_val (b # bs)) =
        hexfix 2 (be_val (b # bs) div 256 ^ length bs) @ hexfix (2 * length bs) (be_val (b # bs))"
    by (simp only: hexfix_append pow)
  moreover have "be_val (b # bs) div 256 ^ length bs = unat b"
    using be_val_less [of bs] by simp
  moreover note hexfix_add [of "2 * length bs" "unat b" "be_val bs"]
  ultimately show ?case using Cons by (simp flip: pow)
qed

lemma length_padLeft: "length (padLeft v n c) = max n (length v)"
  and length_padRight: "length (padRight v n c) = max n (length v)"
  by (simp_all add: padLeft_def padRight_def)

lemma hexnum_padLeft [codec]: "hexnum (padLeft s n (CHR ''0'')) = hexnum s"
  by (simp add: padLeft_def hexnum_append)

lemma toHex_u256_bytes: "toHex_u256 v p = toHex_bytes (toBigEndian 32 (unat v)) 2 p"
  by (cases p) (simp_all add: toHex_u256_def toHex_bytes_def add_prefix_def)

section \<open>Properties\<close>

text \<open>
  C23: \<open>fromHex\<close> on every string. When all characters after an optional \<open>0x\<close> are hex digits, it
  returns the big-endian bytes of the numeral, half as many as digits, rounded up; otherwise it
  throws \<open>BadHexCharacter\<close>, or, without \<open>Throw\<close>, returns the empty byte string (no zeroes are
  substituted for the bad characters).
\<close>

theorem fromHex_correct:
  "if list_all is_hexdigit (hexbody s)
   then \<exists>bs. fromHex s thr = Inr bs \<and> be_val bs = hexnum (hexbody s) \<and>
          length bs = (length (hexbody s) + 1) div 2
   else fromHex s thr = (case thr of Throw \<Rightarrow> Inl BadHexCharacter | DontThrow \<Rightarrow> Inr [])"
  using fromHex_spec [of s thr] unfolding list_all_iff .

text \<open>The stream output of an integer, padded to any width, reads back as the integer.\<close>

lemma hexstr_nonempty: "0 < length (hexstr n)"
  by (simp add: hexstr.simps [of n])

lemma hexstr_bound: "n < 16 ^ length (hexstr n)"
proof (induction n rule: hexstr.induct)
  case (1 n)
  show ?case
  proof (cases "n < 16")
    case True
    then show ?thesis by (simp add: hexstr.simps [of n])
  next
    case False
    with "1.IH" have "n div 16 < 16 ^ length (hexstr (n div 16))" by simp
    with False show ?thesis by (simp add: hexstr.simps [of n] div_less_iff_less_mult mult.commute)
  qed
qed

lemma setw_any: "\<exists>k. setw w (CHR ''0'') (hexstr n) = hexfix k n \<and> n < 16 ^ k"
proof -
  let ?l = "length (hexstr n)" and ?k = "max w (length (hexstr n))"
  have "(16 :: nat) ^ ?l \<le> 16 ^ ?k" by (rule power_increasing) simp_all
  then have "n < 16 ^ ?k" using hexstr_bound [of n] by linarith
  moreover have "setw w (CHR ''0'') (hexstr n) = setw ?k (CHR ''0'') (hexstr n)"
    by (cases "w \<le> ?l") (simp_all add: setw_def max_def)
  ultimately show ?thesis using setw_hexstr [of n ?k] hexstr_nonempty [of n] by (metis less_max_iff_disj)
qed

lemma set_hexfix: "c \<in> set (hexfix k n) \<Longrightarrow> is_hexdigit c"
  by (induction k arbitrary: n) auto

lemma fromHex_setw:
  "\<exists>bs. fromHex (add_prefix p (setw w (CHR ''0'') (hexstr n))) thr = Inr bs \<and> be_val bs = n"
proof -
  obtain k where k: "setw w (CHR ''0'') (hexstr n) = hexfix k n" "n < 16 ^ k" using setw_any by blast
  have "\<not> is_hexdigit (CHR ''x'')" by code_simp
  then have "take 2 (hexfix k n) \<noteq> ''0x''"
    using set_hexfix [of "CHR ''x''" k n] by (metis in_set_takeD list.set_intros(1) list.set_intros(2))
  then have "hexbody (add_prefix p (hexfix k n)) = hexfix k n"
    by (cases p) (simp_all add: add_prefix_def hexbody_def)
  then show ?thesis using fromHex_spec [of "add_prefix p (hexfix k n)" thr] set_hexfix k by auto
qed

text \<open>
  C24: Printing and reading hexadecimal text. Bytes printed with \<open>toHex\<close> and read with \<open>fromHex\<close>
  give the same bytes; a 64-bit or 32-bit integer printed with its \<open>toHex\<close>, padded to any width,
  reads back as the integer, and so does a 256-bit integer; all of it with or without prefix. Printed
  at the default width of 16 digits, a 64-bit integer reads back as exactly its eight big-endian bytes.
\<close>

theorem hex_text_roundtrip:
  "fromHex (toHex_bytes bs 2 p) thr = Inr bs \<and>
   map_sum id fromBigEndian (fromHex (toHex_u64 v p n) thr) = Inr v \<and>
   fromHex (toHex_u64 v p 16) thr = Inr (toBigEndian 8 (unat v)) \<and>
   map_sum id fromBigEndian (fromHex (toHex_u32 x p n) thr) = Inr x \<and>
   map_sum id fromBigEndian (fromHex (toHex_u256 w p) thr) = Inr w"
proof -
  have "unat v < 2 ^ LENGTH(64)" by (rule unsigned_less)
  then have "fromHex (toHex_u64 v p 16) thr = fromHex (toHex_bytes (toBigEndian 8 (unat v)) 2 p) thr"
    by (simp add: toHex_u64_16 toHex_bytes_2 hexbytes_hexfix codec)
  then show ?thesis
    using fromHex_setw [of p n "unat v" thr] fromHex_setw [of p n "unat x" thr] be256.hex_roundtrip [of w p thr]
    by (auto simp: fromHex_toHex_bytes toHex_u256_bytes toHex_u64_def toHex_u32_def fromBigEndian_of_nat)
qed

end
