(* ===== verification/FixedHash.thy ===== *)
theory FixedHash
  imports CommonData
begin

unbundle bit_operations_syntax

text \<open>
  The fixed-size byte arrays of \<open>src/libdevcore/FixedHash.h\<close>. \<open>FixedHash<N>\<close> is a list of \<open>N\<close>
  bytes, most significant first; every operation takes its width from the list or, where the
  class only has the template parameter, as an argument. The lemmas relate the loops over bytes
  to the numbers the arrays stand for.
\<close>

type_synonym h256 = bytes

section \<open>Construction\<close>

datatype ConstructFromHashType = AlignLeft | AlignRight | FailIfDifferent

definition FixedHash_empty :: "nat \<Rightarrow> bytes" where
  "FixedHash_empty N = replicate N 0"

abbreviation h256_zero :: h256 where
  "h256_zero \<equiv> FixedHash_empty 32"

text \<open>The copying loop, for \<open>c = min(size of source, N)\<close> bytes from the left or from the right.\<close>

definition copy_aligned :: "nat \<Rightarrow> bytes \<Rightarrow> ConstructFromHashType \<Rightarrow> bytes" where
  "copy_aligned N b t =
     (let c = min (length b) N in
      case t of
        AlignRight \<Rightarrow> replicate (N - c) 0 @ drop (length b - c) b
      | _ \<Rightarrow> take c b @ replicate (N - c) 0)"

definition FixedHash_from_hash :: "nat \<Rightarrow> bytes \<Rightarrow> ConstructFromHashType \<Rightarrow> bytes" where
  "FixedHash_from_hash N h t = copy_aligned N h t"

definition FixedHash_bytes :: "nat \<Rightarrow> bytes \<Rightarrow> ConstructFromHashType \<Rightarrow> bytes" where
  "FixedHash_bytes N b t =
     (if length b = N then b
      else if t \<noteq> FailIfDifferent then copy_aligned N b t
      else FixedHash_empty N)"

definition FixedHash_string :: "nat \<Rightarrow> string \<Rightarrow> exn + bytes" where
  "FixedHash_string N s =
     (case fromHex s Throw of Inl e \<Rightarrow> Inl e | Inr b \<Rightarrow> Inr (FixedHash_bytes N b FailIfDifferent))"

abbreviation h256_of :: "string \<Rightarrow> exn + h256" where
  "h256_of s \<equiv> FixedHash_string 32 s"

definition FixedHash_arith :: "nat \<Rightarrow> nat \<Rightarrow> bytes" where
  "FixedHash_arith N v = toBigEndian N v"

section \<open>Tests and comparisons\<close>

definition h_bool :: "bytes \<Rightarrow> bool" where
  "h_bool h = list_ex (\<lambda>b. b \<noteq> 0) h"

definition h_eq :: "bytes \<Rightarrow> bytes \<Rightarrow> bool" where
  "h_eq a c = (a = c)"

fun h_less :: "bytes \<Rightarrow> bytes \<Rightarrow> bool" where
  "h_less (x # xs) (y # ys) = (if x < y then True else if y < x then False else h_less xs ys)"
| "h_less _ _ = False"

definition h_ge :: "bytes \<Rightarrow> bytes \<Rightarrow> bool" where
  "h_ge a c = (\<not> h_less a c)"

definition h_le :: "bytes \<Rightarrow> bytes \<Rightarrow> bool" where
  "h_le a c = (h_eq a c \<or> h_less a c)"

definition h_gt :: "bytes \<Rightarrow> bytes \<Rightarrow> bool" where
  "h_gt a c = (\<not> h_le a c)"

text \<open>
  The specialised \<open>operator==\<close> of \<open>h256\<close> compares four 64-bit loads; on the little-endian
  hosts the program is built for, load \<open>k\<close> is the little-endian value of bytes \<open>8 k .. 8 k + 7\<close>.
\<close>

definition le_word64 :: "bytes \<Rightarrow> nat \<Rightarrow> u64" where
  "le_word64 bs k = fromBigEndian (rev (take 8 (drop (8 * k) bs)))"

definition h256_fast_eq :: "h256 \<Rightarrow> h256 \<Rightarrow> bool" where
  "h256_fast_eq a c =
     (le_word64 a 0 = le_word64 c 0 \<and> le_word64 a 1 = le_word64 c 1 \<and>
      le_word64 a 2 = le_word64 c 2 \<and> le_word64 a 3 = le_word64 c 3)"

section \<open>Bitwise operators and increment\<close>

definition h_xor :: "bytes \<Rightarrow> bytes \<Rightarrow> bytes" where
  "h_xor a c = map2 (XOR) a c"

definition h_or :: "bytes \<Rightarrow> bytes \<Rightarrow> bytes" where
  "h_or a c = map2 (OR) a c"

definition h_and :: "bytes \<Rightarrow> bytes \<Rightarrow> bytes" where
  "h_and a c = map2 (AND) a c"

definition h_not :: "bytes \<Rightarrow> bytes" where
  "h_not a = map NOT a"

text \<open>\<open>operator++\<close> walks from the last byte while the incremented byte is zero.\<close>

fun inc_rev :: "bytes \<Rightarrow> bytes" where
  "inc_rev [] = []"
| "inc_rev (b # bs) = (if b + 1 = 0 then 0 # inc_rev bs else (b + 1) # bs)"

definition h_inc :: "bytes \<Rightarrow> bytes" where
  "h_inc h = rev (inc_rev (rev h))"

section \<open>Text\<close>

definition h_hex :: "bytes \<Rightarrow> HexPrefix \<Rightarrow> string" where
  "h_hex h p = toHex_bytes h 2 p"

text \<open>\<open>abridged()\<close>: the first four bytes and the UTF-8 encoding of an ellipsis.\<close>

definition k_ellipsis :: string where
  "k_ellipsis = map char_of [0xE2, 0x80, 0xA6 :: nat]"

definition h_abridged :: "bytes \<Rightarrow> string" where
  "h_abridged h = toHex_bytes (if 4 \<le> length h then take 4 h else []) 2 DontAdd @ k_ellipsis"

section \<open>Facts\<close>

lemma length_copy_aligned [simp]: "length (copy_aligned N b t) = N"
  by (cases t) (auto simp: copy_aligned_def Let_def)

lemma length_FixedHash_empty [simp]: "length (FixedHash_empty N) = N"
  by (simp add: FixedHash_empty_def)

lemma length_FixedHash_bytes [simp]: "length (FixedHash_bytes N b t) = N"
  by (simp add: FixedHash_bytes_def)

lemma FixedHash_string_length: "FixedHash_string N s = Inr h \<Longrightarrow> length h = N"
  by (auto simp: FixedHash_string_def split: sum.splits)

lemma h_bool_iff: "h_bool h \<longleftrightarrow> h \<noteq> FixedHash_empty (length h)"
  by (induction h) (auto simp: h_bool_def FixedHash_empty_def)

lemma be_val_copy_aligned_right:
  "be_val (copy_aligned N b AlignRight) = be_val b mod 256 ^ N"
proof -
  let ?k = "length b - min (length b) N"
  have "be_val b = be_val (take ?k b) * 256 ^ (length b - ?k) + be_val (drop ?k b)"
    using be_val_append [of "take ?k b" "drop ?k b"] by simp
  moreover have "be_val (drop ?k b) < 256 ^ (length b - ?k)"
    using be_val_less [of "drop ?k b"] by simp
  ultimately show ?thesis
    by (cases "length b \<le> N")
       (auto simp: copy_aligned_def Let_def be_val_append min_def
             intro!: mod_less [symmetric] order.strict_trans2 [OF be_val_less] power_increasing)
qed

lemma h_less_iff: "length a = length c \<Longrightarrow> h_less a c \<longleftrightarrow> be_val a < be_val c"
proof (induction a c rule: list_induct2)
  case Nil
  show ?case by simp
next
  case (Cons x xs y ys)
  have lt: "be_val xs < 256 ^ length ys" "be_val ys < 256 ^ length ys"
    using be_val_less [of xs] be_val_less [of ys] Cons.hyps by simp_all
  have step: "a * P + r < b * P + q" if "a < b" "r < P" for a b P r q :: nat
  proof -
    have "a * P + r < (a + 1) * P" using that by simp
    also have "\<dots> \<le> b * P" using that by (intro mult_right_mono) simp_all
    finally show ?thesis by simp
  qed
  consider "x < y" | "y < x" | "x = y" by force
  then show ?case
  proof cases
    case 1
    then have "unat x < unat y" by (simp add: word_less_nat_alt)
    with 1 lt Cons.hyps show ?thesis by (simp add: step)
  next
    case 2
    then have "unat y < unat x" by (simp add: word_less_nat_alt)
    from step [OF this lt(2), of "be_val xs"] 2 Cons.hyps show ?thesis by auto
  next
    case 3
    with Cons show ?thesis by simp
  qed
qed

lemma h_eq_iff: "length a = length c \<Longrightarrow> h_eq a c \<longleftrightarrow> be_val a = be_val c"
  by (auto simp: h_eq_def dest: be_val_inj)

lemma h_le_iff: "length a = length c \<Longrightarrow> h_le a c \<longleftrightarrow> be_val a \<le> be_val c"
  by (auto simp: h_le_def h_eq_iff h_less_iff)

lemma h_gt_iff: "length a = length c \<Longrightarrow> h_gt a c \<longleftrightarrow> be_val c < be_val a"
  by (auto simp: h_gt_def h_le_iff)

lemma h_ge_iff: "length a = length c \<Longrightarrow> h_ge a c \<longleftrightarrow> be_val c \<le> be_val a"
  by (auto simp: h_ge_def h_less_iff)

lemma h_hex_roundtrip: "FixedHash_string (length h) (h_hex h p) = Inr h"
  by (simp add: FixedHash_string_def h_hex_def fromHex_toHex_bytes FixedHash_bytes_def)

text \<open>The empty hash is read from every well-formed numeral of the wrong size.\<close>

lemma FixedHash_string_wrong_size:
  assumes "\<forall>c \<in> set (hexbody s). is_hexdigit c" and "(length (hexbody s) + 1) div 2 \<noteq> N"
  shows "FixedHash_string N s = Inr (FixedHash_empty N)"
  using assms fromHex_spec [of s Throw] by (auto simp: FixedHash_string_def FixedHash_bytes_def)

lemma FixedHash_string_value:
  assumes "\<forall>c \<in> set (hexbody s). is_hexdigit c" and "(length (hexbody s) + 1) div 2 = N"
  shows "\<exists>h. FixedHash_string N s = Inr h \<and> length h = N \<and> be_val h = hexnum (hexbody s)"
  using assms fromHex_spec [of s Throw] by (auto simp: FixedHash_string_def FixedHash_bytes_def)

lemma FixedHash_string_error:
  assumes "\<not> (\<forall>c \<in> set (hexbody s). is_hexdigit c)"
  shows "FixedHash_string N s = Inl BadHexCharacter"
  using assms fromHex_spec [of s Throw] by (auto simp: FixedHash_string_def)

lemma le_word64_inj:
  assumes "length a = 32" and "length c = 32" and "k < 4"
  shows "le_word64 a k = le_word64 c k \<longleftrightarrow> take 8 (drop (8 * k) a) = take 8 (drop (8 * k) c)"
  using assms by (simp add: le_word64_def be64.dec_inj)

lemma take_drop_next: "drop n a = take 8 (drop n a) @ drop (8 + n) a"
  by (metis append_take_drop_id drop_drop)

lemma list32_eqI:
  assumes "length a = 32" and "length c = 32"
    and "take 8 (drop 0 a) = take 8 (drop 0 c)" and "take 8 (drop 8 a) = take 8 (drop 8 c)"
    and "take 8 (drop 16 a) = take 8 (drop 16 c)" and "take 8 (drop 24 a) = take 8 (drop 24 c)"
  shows "a = c"
proof -
  have "drop 24 a = drop 24 c" using assms(1,2,6) by simp
  then have "drop 16 a = drop 16 c"
    using take_drop_next [of 16 a] take_drop_next [of 16 c] assms(5) by simp
  then have "drop 8 a = drop 8 c"
    using take_drop_next [of 8 a] take_drop_next [of 8 c] assms(4) by simp
  then have "drop 0 a = drop 0 c"
    using take_drop_next [of 0 a] take_drop_next [of 0 c] assms(3) by (simp only: add_0_right)
  then show ?thesis by simp
qed

lemma h256_fast_eq_iff:
  assumes "length a = 32" and "length c = 32"
  shows "h256_fast_eq a c \<longleftrightarrow> h_eq a c"
proof
  note inj = le_word64_inj [OF assms]
  assume "h256_fast_eq a c"
  then have "take 8 (drop 0 a) = take 8 (drop 0 c)" "take 8 (drop 8 a) = take 8 (drop 8 c)"
    "take 8 (drop 16 a) = take 8 (drop 16 c)" "take 8 (drop 24 a) = take 8 (drop 24 c)"
    using inj [of 0] inj [of 1] inj [of 2] inj [of 3] by (simp_all add: h256_fast_eq_def)
  then have "a = c" by (rule list32_eqI [OF assms])
  then show "h_eq a c" by (simp add: h_eq_def)
qed (simp add: h256_fast_eq_def h_eq_def)

lemma unat_minus_1_byte: "unat (- 1 :: byte) = 255"
  by code_simp

lemma length_inc_rev [simp]: "length (inc_rev bs) = length bs"
  by (induction bs) simp_all

lemma be_val_inc_rev: "be_val (rev (inc_rev bs)) = (be_val (rev bs) + 1) mod 256 ^ length bs"
proof (induction bs)
  case Nil
  show ?case by simp
next
  case (Cons b bs)
  let ?P = "(256 :: nat) ^ length bs"
  have lt: "be_val (rev bs) < ?P" using be_val_less [of "rev bs"] by simp
  show ?case
  proof (cases "b + 1 = 0")
    case True
    then have "b = - 1" by (simp add: eq_neg_iff_add_eq_0)
    then have "256 * be_val (rev bs) + unat b + 1 = 256 * (be_val (rev bs) + 1)"
      by (simp add: unat_minus_1_byte)
    then have "(256 * be_val (rev bs) + unat b + 1) mod (256 * ?P) = 256 * ((be_val (rev bs) + 1) mod ?P)"
      by (simp only: mult_mod_right)
    with Cons True show ?thesis by (simp add: be_val_snoc)
  next
    case False
    then have "unat (b + 1) = unat b + 1"
      by (metis add.commute unat_1 unat_add_lem unat_eq_zero unatSuc Suc_eq_plus1)
    moreover have "256 * be_val (rev bs) + unat (b + 1) < 256 * ?P"
      using lt unat_byte_less [of "b + 1"] by linarith
    ultimately show ?thesis using False by (simp add: be_val_snoc)
  qed
qed

lemma be_val_h_inc: "be_val (h_inc h) = (be_val h + 1) mod 256 ^ length h"
  using be_val_inc_rev [of "rev h"] by (simp add: h_inc_def)

lemma be_val_h_not: "be_val (h_not h) + be_val h = 256 ^ length h - 1"
proof (induction h)
  case Nil
  show ?case by (simp add: h_not_def)
next
  case (Cons b bs)
  have "NOT b = - 1 - b" by (simp add: not_eq_complement)
  moreover have "unat (- 1 - b) = unat (- 1 :: byte) - unat b" by (rule unat_sub) simp
  ultimately have "unat (NOT b) + unat b = 255"
    by (simp add: unat_minus_1_byte)
  then have "unat (NOT b) * P + unat b * P = 255 * P" for P
    by (simp flip: add_mult_distrib)
  from this [of "256 ^ length bs"] Cons show ?case
    by (simp add: h_not_def)
qed

section \<open>Properties\<close>

text \<open>
  A \<open>FixedHash<N>\<close> built from text. A character that is no hex digit throws; a well-formed
  numeral of exactly \<open>N\<close> bytes gives the hash of that value; any other size silently gives the
  zero hash. Printing a hash with \<open>hex\<close> and reading it gives it back.
\<close>

theorem FixedHash_text:
  "(if list_all is_hexdigit (hexbody s)
    then if (length (hexbody s) + 1) div 2 = N
         then \<exists>h. FixedHash_string N s = Inr h \<and> length h = N \<and> be_val h = hexnum (hexbody s)
         else FixedHash_string N s = Inr (FixedHash_empty N)
    else FixedHash_string N s = Inl BadHexCharacter) \<and>
   FixedHash_string (length g) (h_hex g p) = Inr g"
  using FixedHash_string_value [of s N] FixedHash_string_wrong_size [of s N]
    FixedHash_string_error [of s N] h_hex_roundtrip
  unfolding list_all_iff by auto

text \<open>
  C25: hashes are compared and incremented as the numbers they stand for: the byte loops of the
  comparison operators decide the numeric order, the four-load equality of \<open>h256\<close> is equality,
  the increment is addition of one modulo \<open>256 ^ N\<close>.
\<close>

theorem h256_order:
  assumes "length a = 32" and "length c = 32"
  shows "(h_less a c \<longleftrightarrow> be_val a < be_val c) \<and> (h_le a c \<longleftrightarrow> be_val a \<le> be_val c) \<and>
         (h_gt a c \<longleftrightarrow> be_val a > be_val c) \<and> (h_ge a c \<longleftrightarrow> be_val a \<ge> be_val c) \<and>
         (h256_fast_eq a c \<longleftrightarrow> be_val a = be_val c) \<and>
         be_val (h_inc a) = (be_val a + 1) mod 256 ^ 32"
  using assms h_less_iff [of a c] h_le_iff [of a c] h_gt_iff [of a c] h_ge_iff [of a c]
    h256_fast_eq_iff [OF assms] h_eq_iff [of a c] be_val_h_inc [of a] by simp

lemma h256_order_witness:
  "h_less (replicate 31 0 @ [1]) (replicate 31 0 @ [2]) \<longleftrightarrow> (1 :: nat) < 2"
  using h256_order [of "replicate 31 0 @ [1]" "replicate 31 0 @ [2]"]
  by (simp add: be_val_append be_val_replicate_0 be_val_Cons)

end
