(* ===== verification/Worker.thy ===== *)
theory Worker
  imports Prelude
begin

text \<open>
  The worker threads of \<open>src/libdevcore/Worker.h\<close> and \<open>src/libdevcore/Worker.cpp\<close>. The shared
  atomic \<open>m_state\<close> is written both by the owner (\<open>startWorking\<close>, \<open>triggerStopWorking\<close>,
  \<open>stopWorking\<close>, the destructor) and by the thread; the model has one step per atomic access,
  so every interleaving of the two is a run. Which call the owner is in is part of the state,
  because the mutex \<open>x_work\<close> serialises the calls and two of them wait for the thread.
\<close>

section \<open>State\<close>

datatype WorkerState = Starting | Started | Stopping | Stopped | Killing

definition shouldStop :: "WorkerState \<Rightarrow> bool" where
  "shouldStop s = (s \<noteq> Started)"

text \<open>
  Where the thread is: before its first loop test, inside \<open>workLoop()\<close>, about to exchange the
  state for \<open>Stopped\<close>, holding the exchanged value \<open>ex\<close>, in the inner \<open>while\<close>, or finished.
\<close>

datatype thread_pc = LoopTest | Entering | Working | Returned | Exchanged WorkerState | Waiting | Exited

text \<open>Which owner call is running; \<open>m_work\<close> is the thread pointer.\<close>

datatype owner_pc = Idle | InStart | InStop | InDestroy | Destroyed

record Worker =
  m_state :: WorkerState
  m_work :: "thread_pc option"
  owner :: owner_pc

definition new_Worker :: Worker where
  "new_Worker = \<lparr>m_state = Starting, m_work = None, owner = Idle\<rparr>"

definition cas :: "'a \<Rightarrow> 'a \<Rightarrow> 'a \<Rightarrow> 'a" where
  "cas expected desired x = (if x = expected then desired else x)"

section \<open>Calls of the owner\<close>

text \<open>\<open>startWorking()\<close> up to its waiting loop.\<close>

definition startWorking :: "Worker \<Rightarrow> Worker" where
  "startWorking w =
     (case m_work w of
        Some pc \<Rightarrow> w\<lparr>m_state := cas Stopped Starting (m_state w), owner := InStart\<rparr>
      | None \<Rightarrow> w\<lparr>m_state := Starting, m_work := Some LoopTest, owner := InStart\<rparr>)"

definition startWorking_wait_done :: "Worker \<Rightarrow> bool" where
  "startWorking_wait_done w = (m_state w \<noteq> Starting)"

definition triggerStopWorking :: "Worker \<Rightarrow> Worker" where
  "triggerStopWorking w =
     (case m_work w of
        Some pc \<Rightarrow> w\<lparr>m_state := cas Started Stopping (m_state w)\<rparr>
      | None \<Rightarrow> w)"

text \<open>\<open>stopWorking()\<close> up to its waiting loop; with no thread it returns at once.\<close>

definition stopWorking :: "Worker \<Rightarrow> Worker" where
  "stopWorking w =
     (case m_work w of
        Some pc \<Rightarrow> w\<lparr>m_state := cas Started Stopping (m_state w), owner := InStop\<rparr>
      | None \<Rightarrow> w)"

definition stopWorking_wait_done :: "Worker \<Rightarrow> bool" where
  "stopWorking_wait_done w = (m_state w = Stopped)"

text \<open>The destructor: \<open>exchange(Killing)\<close>, then \<open>join()\<close>, which returns when the thread exited.\<close>

definition destroy_Worker :: "Worker \<Rightarrow> Worker" where
  "destroy_Worker w =
     (case m_work w of
        Some pc \<Rightarrow> w\<lparr>m_state := Killing, owner := InDestroy\<rparr>
      | None \<Rightarrow> w\<lparr>owner := Destroyed\<rparr>)"

section \<open>Steps of the thread\<close>

text \<open>
  One atomic access of the lambda in \<open>startWorking\<close>; \<open>None\<close> when the thread spins or is done.
  \<open>ret\<close> says whether \<open>workLoop()\<close> returns (or throws, which is caught) at this moment.
\<close>

definition thread_step :: "bool \<Rightarrow> Worker \<Rightarrow> Worker option" where
  "thread_step ret w =
     (case m_work w of
        None \<Rightarrow> None
      | Some LoopTest \<Rightarrow>
          Some (w\<lparr>m_work := Some (if m_state w \<noteq> Killing then Entering else Exited)\<rparr>)
      | Some Entering \<Rightarrow>
          Some (w\<lparr>m_state := cas Starting Started (m_state w), m_work := Some Working\<rparr>)
      | Some Working \<Rightarrow> (if ret then Some (w\<lparr>m_work := Some Returned\<rparr>) else None)
      | Some Returned \<Rightarrow>
          Some (w\<lparr>m_state := Stopped, m_work := Some (Exchanged (m_state w))\<rparr>)
      | Some (Exchanged ex) \<Rightarrow>
          Some (if ex = Killing \<or> ex = Starting
                then w\<lparr>m_state := ex, m_work := Some Waiting\<rparr>
                else w\<lparr>m_work := Some Waiting\<rparr>)
      | Some Waiting \<Rightarrow>
          (if m_state w = Stopped then None else Some (w\<lparr>m_work := Some LoopTest\<rparr>))
      | Some Exited \<Rightarrow> None)"

section \<open>Runs\<close>

inductive worker_step :: "Worker \<Rightarrow> Worker \<Rightarrow> bool" where
  start: "owner w = Idle \<Longrightarrow> worker_step w (startWorking w)"
| start_return: "owner w = InStart \<Longrightarrow> startWorking_wait_done w \<Longrightarrow> worker_step w (w\<lparr>owner := Idle\<rparr>)"
| trigger: "owner w = Idle \<Longrightarrow> worker_step w (triggerStopWorking w)"
| stop: "owner w = Idle \<Longrightarrow> worker_step w (stopWorking w)"
| stop_return: "owner w = InStop \<Longrightarrow> stopWorking_wait_done w \<Longrightarrow> worker_step w (w\<lparr>owner := Idle\<rparr>)"
| destroy: "owner w = Idle \<Longrightarrow> worker_step w (destroy_Worker w)"
| joined: "owner w = InDestroy \<Longrightarrow> m_work w = Some Exited \<Longrightarrow>
     worker_step w (w\<lparr>m_work := None, owner := Destroyed\<rparr>)"
| thread: "thread_step ret w = Some w' \<Longrightarrow> worker_step w w'"

inductive_cases worker_stepE: "worker_step w w'"

section \<open>Invariant\<close>

text \<open>
  The states that can be seen while the thread is at each point. \<open>Killing\<close> appears only once
  the destructor runs, and from then on it is never lost: it is in \<open>m_state\<close>, or the thread
  holds it in \<open>ex\<close> and is about to write it back.
\<close>

definition worker_inv :: "Worker \<Rightarrow> bool" where
  "worker_inv w \<longleftrightarrow>
     (owner w \<noteq> InDestroy \<and> owner w \<noteq> Destroyed \<longrightarrow> m_state w \<noteq> Killing) \<and>
     (owner w = InDestroy \<longrightarrow> m_state w = Killing \<or> m_work w = Some (Exchanged Killing)) \<and>
     (owner w = Destroyed \<longrightarrow> m_work w = None) \<and>
     (m_state w = Starting \<longrightarrow> owner w = InStart \<or> m_work w = None) \<and>
     (owner w = InStop \<longrightarrow> m_work w \<noteq> None \<and> m_state w \<noteq> Started) \<and>
     (case m_work w of
        None \<Rightarrow> owner w = Idle \<and> m_state w = Starting \<or> owner w = Destroyed
      | Some LoopTest \<Rightarrow> m_state w \<in> {Starting, Killing}
      | Some Entering \<Rightarrow> m_state w \<in> {Starting, Killing}
      | Some Working \<Rightarrow> m_state w \<in> {Started, Stopping, Killing}
      | Some Returned \<Rightarrow> m_state w \<in> {Started, Stopping, Killing}
      | Some (Exchanged ex) \<Rightarrow> ex \<in> {Started, Stopping, Killing} \<and>
            (ex = Killing \<longrightarrow> owner w = InDestroy \<and> m_state w \<in> {Stopped, Killing}) \<and>
            m_state w \<in> {Stopped, Starting, Killing}
      | Some Waiting \<Rightarrow> m_state w \<in> {Stopped, Starting, Killing}
      | Some Exited \<Rightarrow> owner w = InDestroy \<and> m_state w = Killing)"

lemma worker_inv_init: "worker_inv new_Worker"
  by (simp add: worker_inv_def new_Worker_def)

lemma thread_step_inv: "worker_inv w \<Longrightarrow> thread_step ret w = Some w' \<Longrightarrow> worker_inv w'"
  by (cases w; cases "m_work w"; cases "the (m_work w)"; cases "m_state w")
     (auto simp: worker_inv_def thread_step_def cas_def split: if_splits)

lemma startWorking_inv [inv_rules]: "worker_inv w \<Longrightarrow> owner w = Idle \<Longrightarrow> worker_inv (startWorking w)"
  by (cases w; cases "m_work w"; cases "the (m_work w)"; cases "m_state w")
     (auto simp: worker_inv_def startWorking_def cas_def)

lemma triggerStopWorking_inv [inv_rules]:
  "worker_inv w \<Longrightarrow> owner w = Idle \<Longrightarrow> worker_inv (triggerStopWorking w)"
  by (cases w; cases "m_work w"; cases "the (m_work w)"; cases "m_state w")
     (auto simp: worker_inv_def triggerStopWorking_def cas_def)

lemma stopWorking_inv [inv_rules]: "worker_inv w \<Longrightarrow> owner w = Idle \<Longrightarrow> worker_inv (stopWorking w)"
  by (cases w; cases "m_work w"; cases "the (m_work w)"; cases "m_state w")
     (auto simp: worker_inv_def stopWorking_def cas_def)

lemma destroy_Worker_inv [inv_rules]: "worker_inv w \<Longrightarrow> owner w = Idle \<Longrightarrow> worker_inv (destroy_Worker w)"
  by (cases w; cases "m_work w"; cases "the (m_work w)"; cases "m_state w")
     (auto simp: worker_inv_def destroy_Worker_def)

lemma start_return_inv [inv_rules]:
  "worker_inv w \<Longrightarrow> owner w = InStart \<Longrightarrow> startWorking_wait_done w \<Longrightarrow> worker_inv (w\<lparr>owner := Idle\<rparr>)"
  by (cases w; cases "m_work w"; cases "the (m_work w)"; cases "m_state w")
     (auto simp: worker_inv_def startWorking_wait_done_def)

lemma stop_return_inv [inv_rules]:
  "worker_inv w \<Longrightarrow> owner w = InStop \<Longrightarrow> stopWorking_wait_done w \<Longrightarrow> worker_inv (w\<lparr>owner := Idle\<rparr>)"
  by (cases w; cases "m_work w"; cases "the (m_work w)"; cases "m_state w")
     (auto simp: worker_inv_def stopWorking_wait_done_def)

lemma joined_inv [inv_rules]:
  "worker_inv w \<Longrightarrow> owner w = InDestroy \<Longrightarrow> m_work w = Some Exited \<Longrightarrow>
     worker_inv (w\<lparr>m_work := None, owner := Destroyed\<rparr>)"
  by (simp add: worker_inv_def)

lemma worker_step_inv: "worker_inv w \<Longrightarrow> worker_step w w' \<Longrightarrow> worker_inv w'"
  by (erule worker_stepE) (simp_all add: inv_rules thread_step_inv)

interpretation worker: machine "\<lambda>w. w = new_Worker" worker_step worker_inv
  by unfold_locales (auto simp: worker_inv_init intro: worker_step_inv)

section \<open>No call of the owner hangs\<close>

text \<open>
  \<open>n\<close> steps of the thread with the owner waiting, \<open>workLoop()\<close> returning whenever it is inside it
  (its loop condition is \<open>!shouldStop()\<close>).
\<close>

primrec run_thread :: "nat \<Rightarrow> Worker \<Rightarrow> Worker" where
  "run_thread 0 w = w"
| "run_thread (Suc n) w = (case thread_step True w of None \<Rightarrow> w | Some w' \<Rightarrow> run_thread n w')"

text \<open>The condition under which the running owner call leaves its waiting loop.\<close>

definition owner_wait_done :: "Worker \<Rightarrow> bool" where
  "owner_wait_done w =
     (case owner w of
        InStart \<Rightarrow> startWorking_wait_done w
      | InStop \<Rightarrow> stopWorking_wait_done w
      | InDestroy \<Rightarrow> m_work w = Some Exited
      | Idle \<Rightarrow> True
      | Destroyed \<Rightarrow> True)"

text \<open>Thread steps until the exit of the thread after \<open>Killing\<close> was requested.\<close>

fun exit_distance :: "thread_pc option \<Rightarrow> nat" where
  "exit_distance (Some Entering) = 6"
| "exit_distance (Some Working) = 5"
| "exit_distance (Some Returned) = 4"
| "exit_distance (Some (Exchanged _)) = 3"
| "exit_distance (Some Waiting) = 2"
| "exit_distance (Some LoopTest) = 1"
| "exit_distance _ = 0"

text \<open>Thread steps until \<open>Started\<close> is set after \<open>Starting\<close> was requested.\<close>

fun start_distance :: "thread_pc option \<Rightarrow> nat" where
  "start_distance (Some (Exchanged _)) = 4"
| "start_distance (Some Waiting) = 3"
| "start_distance (Some LoopTest) = 2"
| "start_distance (Some Entering) = 1"
| "start_distance _ = 0"

text \<open>Thread steps until \<open>Stopped\<close> is set after \<open>Stopping\<close> was requested.\<close>

fun stop_distance :: "thread_pc option \<Rightarrow> nat" where
  "stop_distance (Some Working) = 2"
| "stop_distance (Some Returned) = 1"
| "stop_distance _ = 0"

lemma destroy_returns:
  "worker_inv w \<Longrightarrow> owner w = InDestroy \<Longrightarrow>
     owner_wait_done (run_thread (exit_distance (m_work w)) w)"
  by (cases w; cases "m_work w"; cases "the (m_work w)"; cases "m_state w")
     (auto simp: worker_inv_def owner_wait_done_def thread_step_def cas_def eval_nat_numeral)

lemma start_returns:
  "worker_inv w \<Longrightarrow> owner w = InStart \<Longrightarrow> m_state w = Starting \<Longrightarrow> m_work w \<noteq> None \<Longrightarrow>
     owner_wait_done (run_thread (start_distance (m_work w)) w)"
  by (cases w; cases "m_work w"; cases "the (m_work w)")
     (auto simp: worker_inv_def owner_wait_done_def startWorking_wait_done_def thread_step_def cas_def
        eval_nat_numeral)

lemma stop_returns:
  "worker_inv w \<Longrightarrow> owner w = InStop \<Longrightarrow>
     owner_wait_done (run_thread (stop_distance (m_work w)) w)"
  by (cases w; cases "m_work w"; cases "the (m_work w)"; cases "m_state w")
     (auto simp: worker_inv_def owner_wait_done_def stopWorking_wait_done_def thread_step_def cas_def
        eval_nat_numeral)

lemma exit_distance_le: "exit_distance p \<le> 6"
  by (cases p rule: exit_distance.cases) simp_all

lemma start_distance_le: "start_distance p \<le> 4"
  by (cases p rule: start_distance.cases) simp_all

lemma stop_distance_le: "stop_distance p \<le> 2"
  by (cases p rule: stop_distance.cases) simp_all

lemma worker_inv_start_thread: "worker_inv w \<Longrightarrow> owner w = InStart \<Longrightarrow> m_work w \<noteq> None"
  by (cases "m_work w") (auto simp: worker_inv_def)

lemma owner_call_returns:
  assumes "worker_inv w"
  shows "\<exists>n\<le>6. owner_wait_done (run_thread n w)"
proof (cases "owner w")
  case InStart
  show ?thesis
  proof (cases "m_state w = Starting")
    case True
    with InStart assms show ?thesis
      using start_returns [OF assms] worker_inv_start_thread [OF assms] start_distance_le [of "m_work w"]
      by (intro exI [of _ "start_distance (m_work w)"]) simp
  next
    case False
    with InStart show ?thesis
      by (intro exI [of _ 0]) (simp add: owner_wait_done_def startWorking_wait_done_def)
  qed
next
  case InStop
  then show ?thesis
    using stop_returns [OF assms] stop_distance_le [of "m_work w"]
    by (intro exI [of _ "stop_distance (m_work w)"]) simp
next
  case InDestroy
  with assms show ?thesis using destroy_returns exit_distance_le by blast
qed (auto simp: owner_wait_done_def intro!: exI [of _ 0])

lemma stopped_outside_workLoop:
  "worker_inv w \<Longrightarrow> m_work w \<noteq> None \<Longrightarrow> stopWorking_wait_done w \<Longrightarrow>
     m_work w = Some Waiting \<or> (\<exists>ex. m_work w = Some (Exchanged ex))"
  by (cases "m_work w"; cases "the (m_work w)"; cases "m_state w")
     (auto simp: worker_inv_def stopWorking_wait_done_def)

section \<open>A completed call\<close>

text \<open>
  \<open>startWorking()\<close> when it has returned: the waiting loop ends after the thread has taken the
  steps that bring it into \<open>workLoop()\<close>.
\<close>

definition startWorking_returned :: "Worker \<Rightarrow> Worker" where
  "startWorking_returned w =
     (let v = startWorking w in
      (run_thread (if m_state v = Starting then start_distance (m_work v) else 0) v)\<lparr>owner := Idle\<rparr>)"

lemma run_thread_steps: "worker_step\<^sup>*\<^sup>* w (run_thread n w)"
proof (induction n arbitrary: w)
  case (Suc n)
  show ?case
  proof (cases "thread_step True w")
    case (Some w')
    then have "worker_step w w'" by (rule worker_step.thread)
    then show ?thesis using Suc Some by (auto intro: converse_rtranclp_into_rtranclp)
  qed simp
qed simp

lemma thread_step_owner: "thread_step r w = Some w' \<Longrightarrow> owner w' = owner w"
  by (cases "m_work w"; cases "the (m_work w)") (auto simp: thread_step_def split: if_splits)

lemma run_thread_owner [simp]: "owner (run_thread n w) = owner w"
  by (induction n arbitrary: w) (auto simp: thread_step_owner split: option.splits)

lemma startWorking_returned_steps:
  assumes "worker_inv w" and "owner w = Idle"
  shows "worker_step\<^sup>*\<^sup>* w (startWorking_returned w)"
proof -
  define v where "v = startWorking w"
  define n where "n = (if m_state v = Starting then start_distance (m_work v) else 0)"
  have v: "worker_step w v" "owner v = InStart"
    using assms(2) worker_step.start by (auto simp: v_def startWorking_def split: option.splits)
  then have inv: "worker_inv v" using assms(1) worker_step_inv by blast
  have "startWorking_wait_done (run_thread n v)"
  proof (cases "m_state v = Starting")
    case True
    then show ?thesis
      using start_returns [OF inv v(2) True worker_inv_start_thread [OF inv v(2)]] v(2)
      by (simp add: n_def owner_wait_done_def)
  qed (simp add: n_def startWorking_wait_done_def)
  then have "worker_step (run_thread n v) ((run_thread n v)\<lparr>owner := Idle\<rparr>)"
    using v(2) by (intro worker_step.start_return) simp_all
  then show ?thesis
    using v(1) run_thread_steps [of v n]
    by (auto simp: startWorking_returned_def v_def [symmetric] n_def [symmetric] Let_def
          intro: converse_rtranclp_into_rtranclp rtranclp.rtrancl_into_rtrancl)
qed

lemma new_Worker_started:
  "startWorking_returned new_Worker = \<lparr>m_state = Started, m_work = Some Working, owner = Idle\<rparr>"
  by (simp add: startWorking_returned_def new_Worker_def startWorking_def thread_step_def cas_def
        eval_nat_numeral)

section \<open>Properties\<close>

text \<open>
  C20: in every reachable state of a worker, whatever the interleaving of owner and thread, a
  request to kill the thread is not lost: while the destructor runs, \<open>m_state\<close> is \<open>Killing\<close> or
  the thread holds \<open>Killing\<close> and is about to write it back; and the thread has exited only then.
\<close>

theorem kill_not_lost:
  assumes "reach (\<lambda>w. w = new_Worker) worker_step w"
  shows "(owner w = InDestroy \<longrightarrow> m_state w = Killing \<or> m_work w = Some (Exchanged Killing)) \<and>
         (m_work w = Some Exited \<longrightarrow> owner w = InDestroy)"
  using worker.reach_inv [OF assms] by (auto simp: worker_inv_def split: option.splits)

lemma reach_destroying:
  "reach (\<lambda>w. w = new_Worker) worker_step \<lparr>m_state = Killing, m_work = Some Working, owner = InDestroy\<rparr>"
proof -
  let ?R = "reach (\<lambda>w. w = new_Worker) worker_step"
  have "?R new_Worker" by (rule reach_init) simp
  then have "?R \<lparr>m_state = Starting, m_work = Some LoopTest, owner = InStart\<rparr>"
    using worker_step.start [of new_Worker]
    by (auto simp: new_Worker_def startWorking_def intro: reach_step)
  then have "?R \<lparr>m_state = Starting, m_work = Some Entering, owner = InStart\<rparr>"
    by (rule reach_step) (rule worker_step.thread [of True], simp add: thread_step_def)
  then have "?R \<lparr>m_state = Started, m_work = Some Working, owner = InStart\<rparr>"
    by (rule reach_step) (rule worker_step.thread [of True], simp add: thread_step_def cas_def)
  then have "?R \<lparr>m_state = Started, m_work = Some Working, owner = Idle\<rparr>"
    using worker_step.start_return [of "\<lparr>m_state = Started, m_work = Some Working, owner = InStart\<rparr>"]
    by (auto simp: startWorking_wait_done_def intro: reach_step)
  then show ?thesis
    using worker_step.destroy [of "\<lparr>m_state = Started, m_work = Some Working, owner = Idle\<rparr>"]
    by (auto simp: destroy_Worker_def intro: reach_step)
qed

lemma kill_not_lost_witness:
  "m_state \<lparr>m_state = Killing, m_work = Some Working, owner = InDestroy\<rparr> = Killing"
  using kill_not_lost [OF reach_destroying] by simp

text \<open>
  C21: no call of the owner waits forever. From every reachable state at most six steps of the
  thread (\<open>workLoop()\<close> returning when asked to) make the condition true on which the running
  \<open>startWorking\<close>, \<open>stopWorking\<close> or destructor waits.
\<close>

theorem owner_calls_terminate:
  assumes "reach (\<lambda>w. w = new_Worker) worker_step w"
  shows "\<exists>n\<le>6. owner_wait_done (run_thread n w)"
  using owner_call_returns [OF worker.reach_inv [OF assms]] .

lemma owner_calls_terminate_witness:
  "\<exists>n\<le>6. owner_wait_done
     (run_thread n \<lparr>m_state = Killing, m_work = Some Working, owner = InDestroy\<rparr>)"
  using owner_calls_terminate [OF reach_destroying] .

end
