(* ===== verification/Work.thy ===== *)
theory Work
  imports FixedHash
begin

text \<open>
  Work packages and solutions (\<open>src/libethcore/EthashAux.h\<close>) and the re-evaluation of a solution
  (\<open>src/libethcore/EthashAux.cpp\<close>). The ethash library is not part of the repository: the calls
  the program makes to it are the fields of \<open>ethash_lib\<close>, an argument of the definitions that
  use them. Signed C++ integers that are only stored and compared are mathematical integers.
\<close>

section \<open>Data\<close>

record Result =
  res_value :: h256
  res_mixHash :: h256

record EpochContext =
  ec_epochNumber :: int
  ec_lightNumItems :: int
  ec_lightSize :: u64
  ec_lightCache :: u64
  ec_dagNumItems :: int
  ec_dagSize :: u64

record WorkPackage =
  wp_job :: string
  wp_boundary :: h256
  wp_header :: h256
  wp_seed :: h256
  wp_epoch :: int
  wp_block :: int
  wp_startNonce :: u64
  wp_exSizeBytes :: u16
  wp_algo :: string

definition new_WorkPackage :: WorkPackage where
  "new_WorkPackage =
     \<lparr>wp_job = '''', wp_boundary = h256_zero, wp_header = h256_zero, wp_seed = h256_zero,
      wp_epoch = - 1, wp_block = - 1, wp_startNonce = 0, wp_exSizeBytes = 0, wp_algo = ''ethash''\<rparr>"

text \<open>\<open>explicit operator bool\<close>.\<close>

definition wp_valid :: "WorkPackage \<Rightarrow> bool" where
  "wp_valid w = (\<not> h256_fast_eq (wp_header w) h256_zero)"

record Solution =
  sol_nonce :: u64
  sol_mixHash :: h256
  sol_work :: WorkPackage
  sol_tstamp :: nat
  sol_midx :: u32

section \<open>The ethash library\<close>

text \<open>
  \<open>'c\<close> is the type of epoch contexts. \<open>et_hash\<close> returns \<open>final_hash\<close> and \<open>mix_hash\<close>;
  \<open>et_light_cache\<close> is the address of the light cache.
\<close>

record 'c ethash_lib =
  et_get_global_epoch_context :: "int \<Rightarrow> 'c"
  et_light_cache_num_items :: "'c \<Rightarrow> int"
  et_full_dataset_num_items :: "'c \<Rightarrow> int"
  et_light_cache :: "'c \<Rightarrow> u64"
  et_get_light_cache_size :: "int \<Rightarrow> u64"
  et_get_full_dataset_size :: "int \<Rightarrow> u64"
  et_hash256_from_bytes :: "bytes \<Rightarrow> bytes"
  et_hash :: "'c \<Rightarrow> bytes \<Rightarrow> u64 \<Rightarrow> bytes \<times> bytes"
  et_find_epoch_number :: "bytes \<Rightarrow> int"

definition EthashAux_eval :: "('c, 'z) ethash_lib_scheme \<Rightarrow> int \<Rightarrow> h256 \<Rightarrow> u64 \<Rightarrow> Result" where
  "EthashAux_eval lib epoch headerHash nonce =
     (let h = et_hash256_from_bytes lib headerHash;
          ctx = et_get_global_epoch_context lib epoch;
          (final, mix) = et_hash lib ctx h nonce
      in \<lparr>res_value = final, res_mixHash = mix\<rparr>)"

text \<open>
  \<open>m_currentEc\<close> as \<open>Farm::setWork\<close> fills it from the epoch context of an epoch number.
\<close>

definition epoch_context :: "('c, 'z) ethash_lib_scheme \<Rightarrow> int \<Rightarrow> EpochContext" where
  "epoch_context lib epoch =
     (let ec = et_get_global_epoch_context lib epoch in
      \<lparr>ec_epochNumber = epoch,
       ec_lightNumItems = et_light_cache_num_items lib ec,
       ec_lightSize = et_get_light_cache_size lib (et_light_cache_num_items lib ec),
       ec_lightCache = et_light_cache lib ec,
       ec_dagNumItems = et_full_dataset_num_items lib ec,
       ec_dagSize = et_get_full_dataset_size lib (et_full_dataset_num_items lib ec)\<rparr>)"

section \<open>Facts\<close>

text \<open>The hashes of a well-formed work package have 32 bytes.\<close>

definition wp_wf :: "WorkPackage \<Rightarrow> bool" where
  "wp_wf w \<longleftrightarrow> length (wp_boundary w) = 32 \<and> length (wp_header w) = 32 \<and> length (wp_seed w) = 32"

lemma new_WorkPackage_wf [simp]: "wp_wf new_WorkPackage"
  by (simp add: wp_wf_def new_WorkPackage_def)

lemma wp_valid_iff: "length (wp_header w) = 32 \<Longrightarrow> wp_valid w \<longleftrightarrow> wp_header w \<noteq> h256_zero"
  by (simp add: wp_valid_def h256_fast_eq_iff h_eq_def)

lemma voided_work [simp]: "\<not> wp_valid (w\<lparr>wp_header := h256_zero\<rparr>)"
  by (simp add: wp_valid_def h256_fast_eq_def)

lemma new_WorkPackage_invalid [simp]: "\<not> wp_valid new_WorkPackage"
  by (simp add: wp_valid_def new_WorkPackage_def h256_fast_eq_def)

text \<open>A small instance of the library for concrete evaluations: both hashes are the header.\<close>

definition sample_lib :: "unit ethash_lib" where
  "sample_lib =
     \<lparr>et_get_global_epoch_context = (\<lambda>_. ()), et_light_cache_num_items = (\<lambda>_. 1),
      et_full_dataset_num_items = (\<lambda>_. 1), et_light_cache = (\<lambda>_. 0),
      et_get_light_cache_size = (\<lambda>n. 64), et_get_full_dataset_size = (\<lambda>n. 128),
      et_hash256_from_bytes = (\<lambda>b. b), et_hash = (\<lambda>_ h _. (h, h)), et_find_epoch_number = (\<lambda>_. 0)\<rparr>"

definition sample_work :: WorkPackage where
  "sample_work = new_WorkPackage\<lparr>wp_header := replicate 32 1, wp_boundary := replicate 32 2,
     wp_startNonce := 0xab00000000000000, wp_exSizeBytes := 2\<rparr>"

end
