(* ===== verification/Miner.thy ===== *)
theory Miner
  imports Complex_Main Work Worker
begin

text \<open>
  The base class of the miners, \<open>src/libethcore/Miner.h\<close> and \<open>src/libethcore/Miner.cpp\<close>, with the
  two members \<open>m_new_work\<close> and \<open>m_vm\<close> that its only subclass \<open>CPUMiner\<close> adds. The calls modelled
  here run on the thread of the io service, so each is one step; the miner's own thread is in
  the theory of the CPU miner. Hash rates are real numbers, and \<open>rnd\<close> is the rounding of the
  \<open>float\<close> operations.
\<close>

section \<open>Enumerations and accounts\<close>

datatype DeviceTypeEnum = DT_Unknown | DT_Cpu

datatype DeviceSubscriptionTypeEnum = DS_None | DS_Cpu

datatype SolutionAccountingEnum = Accepted | Rejected | Wasted | Failed

datatype MinerPauseEnum =
  PauseDueToOverHeating | PauseDueToAPIRequest | PauseDueToFarmPaused
| PauseDueToInsufficientMemory | PauseDueToInitEpochError

record SolutionAccountType =
  sa_accepted :: u32
  sa_rejected :: u32
  sa_wasted :: u32
  sa_failed :: u32
  sa_tstamp :: nat

definition new_SolutionAccount :: "nat \<Rightarrow> SolutionAccountType" where
  "new_SolutionAccount now =
     \<lparr>sa_accepted = 0, sa_rejected = 0, sa_wasted = 0, sa_failed = 0, sa_tstamp = now\<rparr>"

definition SolutionAccount_str :: "SolutionAccountType \<Rightarrow> string" where
  "SolutionAccount_str a =
     ''A'' @ decstr (unat (sa_accepted a)) @
     (if sa_wasted a \<noteq> 0 then '':W'' @ decstr (unat (sa_wasted a)) else []) @
     (if sa_rejected a \<noteq> 0 then '':R'' @ decstr (unat (sa_rejected a)) else []) @
     (if sa_failed a \<noteq> 0 then '':F'' @ decstr (unat (sa_failed a)) else [])"

record HwSensorsType =
  hs_tempC :: int
  hs_fanP :: int
  hs_powerW :: real

record TelemetryAccountType =
  ta_prefix :: string
  ta_hashrate :: real
  ta_paused :: bool
  ta_sensors :: HwSensorsType
  ta_solutions :: SolutionAccountType

definition new_TelemetryAccount :: "nat \<Rightarrow> TelemetryAccountType" where
  "new_TelemetryAccount now =
     \<lparr>ta_prefix = [], ta_hashrate = 0, ta_paused = False,
      ta_sensors = \<lparr>hs_tempC = 0, hs_fanP = 0, hs_powerW = 0\<rparr>,
      ta_solutions = new_SolutionAccount now\<rparr>"

text \<open>\<open>totalMemory\<close> and \<open>cpCpuNumer\<close> have no initialiser in the source; enumeration sets them.\<close>

record DeviceDescriptor =
  dd_type :: DeviceTypeEnum
  dd_subscriptionType :: DeviceSubscriptionTypeEnum
  dd_uniqueId :: string
  dd_totalMemory :: u64
  dd_name :: string
  dd_cpCpuNumer :: int

section \<open>State\<close>

text \<open>
  \<open>mi_epochContext\<close> is \<open>None\<close> before the first \<open>setEpoch\<close>, as the source leaves it
  uninitialised. Times are in nanoseconds.
\<close>

record Miner =
  mi_worker :: Worker
  mi_index :: u32
  mi_deviceDescriptor :: DeviceDescriptor
  mi_epochContext :: "EpochContext option"
  mi_pauseFlags :: "MinerPauseEnum set"
  mi_work :: WorkPackage
  mi_hashTime :: nat
  mi_hashRate :: real
  mi_groupCount :: u64
  mi_hashRateUpdate :: bool
  mi_new_work :: bool
  mi_vm :: bool

text \<open>The constructors of \<open>Miner\<close> and \<open>CPUMiner\<close>; \<open>vm\<close> says whether a RandomY machine was created.\<close>

definition new_CPUMiner :: "u32 \<Rightarrow> DeviceDescriptor \<Rightarrow> bool \<Rightarrow> nat \<Rightarrow> Miner" where
  "new_CPUMiner index device vm now =
     \<lparr>mi_worker = new_Worker, mi_index = index, mi_deviceDescriptor = device,
      mi_epochContext = None, mi_pauseFlags = {}, mi_work = new_WorkPackage, mi_hashTime = now,
      mi_hashRate = 0, mi_groupCount = 0, mi_hashRateUpdate = False, mi_new_work = False,
      mi_vm = vm\<rparr>"

section \<open>Operations\<close>

text \<open>
  \<open>kick_miner\<close> also notifies \<open>m_new_work_signal\<close>, on which the miner's thread waits for at most
  three seconds while it has no work.
\<close>

definition kick_miner :: "Miner \<Rightarrow> Miner" where
  "kick_miner m = m\<lparr>mi_new_work := True\<rparr>"

definition miner_paused :: "Miner \<Rightarrow> bool" where
  "miner_paused m = (mi_pauseFlags m \<noteq> {})"

definition pauseTest :: "MinerPauseEnum \<Rightarrow> Miner \<Rightarrow> bool" where
  "pauseTest what m = (what \<in> mi_pauseFlags m)"

definition miner_setWork :: "WorkPackage \<Rightarrow> Miner \<Rightarrow> Miner" where
  "miner_setWork w m =
     kick_miner
       (if miner_paused m then m\<lparr>mi_work := (mi_work m)\<lparr>wp_header := h256_zero\<rparr>\<rparr>
        else m\<lparr>mi_work := w\<rparr>)"

definition setEpoch :: "EpochContext \<Rightarrow> Miner \<Rightarrow> Miner" where
  "setEpoch ec m = m\<lparr>mi_epochContext := Some ec\<rparr>"

definition miner_pause :: "MinerPauseEnum \<Rightarrow> Miner \<Rightarrow> Miner" where
  "miner_pause what m =
     kick_miner (m\<lparr>mi_pauseFlags := insert what (mi_pauseFlags m),
                   mi_work := (mi_work m)\<lparr>wp_header := h256_zero\<rparr>\<rparr>)"

definition miner_resume :: "MinerPauseEnum \<Rightarrow> Miner \<Rightarrow> Miner" where
  "miner_resume fromwhat m = m\<lparr>mi_pauseFlags := mi_pauseFlags m - {fromwhat}\<rparr>"

definition all_pauses :: "MinerPauseEnum list" where
  "all_pauses =
     [PauseDueToOverHeating, PauseDueToAPIRequest, PauseDueToFarmPaused,
      PauseDueToInsufficientMemory, PauseDueToInitEpochError]"

fun pause_text :: "MinerPauseEnum \<Rightarrow> string" where
  "pause_text PauseDueToOverHeating = ''Overheating''"
| "pause_text PauseDueToAPIRequest = ''Api request''"
| "pause_text PauseDueToFarmPaused = ''Farm suspended''"
| "pause_text PauseDueToInsufficientMemory = ''Insufficient GPU memory''"
| "pause_text PauseDueToInitEpochError = ''Epoch initialization error''"

definition pausedString :: "Miner \<Rightarrow> string" where
  "pausedString m =
     (if mi_pauseFlags m \<noteq> {}
      then foldl (\<lambda>r i. if pauseTest i m then (if r \<noteq> [] then r @ ''; '' else r) @ pause_text i else r)
             [] all_pauses
      else [])"

definition RetrieveHashRate :: "Miner \<Rightarrow> real" where
  "RetrieveHashRate m = mi_hashRate m"

definition TriggerHashRateUpdate :: "Miner \<Rightarrow> Miner" where
  "TriggerHashRateUpdate m =
     (if \<not> mi_hashRateUpdate m then m\<lparr>mi_hashRateUpdate := True\<rparr> else m\<lparr>mi_hashRate := 0\<rparr>)"

definition updateHashRate :: "(real \<Rightarrow> real) \<Rightarrow> nat \<Rightarrow> u32 \<Rightarrow> u32 \<Rightarrow> Miner \<Rightarrow> Miner" where
  "updateHashRate rnd now groupSize increment m =
     (let m1 = m\<lparr>mi_groupCount := mi_groupCount m + ucast increment\<rparr> in
      if \<not> mi_hashRateUpdate m1 then m1
      else let us = (now - mi_hashTime m1) div 1000;
               hashes = rnd (real (unat (mi_groupCount m1 * ucast groupSize)))
           in m1\<lparr>mi_hashRateUpdate := False, mi_hashTime := now,
                 mi_hashRate := (if us \<noteq> 0 then rnd (rnd (hashes * 1000000) / rnd (real us)) else 0),
                 mi_groupCount := 0\<rparr>)"

section \<open>Serialised initialisation of an epoch\<close>

text \<open>The static members shared by all miners.\<close>

record DagLoad =
  s_minersCount :: u32
  s_dagLoadMode :: u32
  s_dagLoadIndex :: u32

definition DAG_LOAD_MODE_SEQUENTIAL :: u32 where
  "DAG_LOAD_MODE_SEQUENTIAL = 1"

definition setDagLoadInfo :: "u32 \<Rightarrow> u32 \<Rightarrow> DagLoad" where
  "setDagLoadInfo mode devicecount =
     \<lparr>s_minersCount = devicecount, s_dagLoadMode = mode, s_dagLoadIndex = 0\<rparr>"

definition initEpoch_internal :: "Miner \<Rightarrow> bool" where
  "initEpoch_internal m = True"

text \<open>
  \<open>initEpoch\<close> at one test of its waiting loop: \<open>None\<close> when it goes on waiting, otherwise its
  result and the static members it leaves. \<open>stop\<close> is \<open>shouldStop()\<close>, read after the loop.
\<close>

definition initEpoch :: "bool \<Rightarrow> Miner \<Rightarrow> DagLoad \<Rightarrow> (bool \<times> DagLoad) option" where
  "initEpoch stop m dl =
     (let seq = (s_dagLoadMode dl = DAG_LOAD_MODE_SEQUENTIAL) in
      if seq \<and> s_dagLoadIndex dl < mi_index m then None
      else if seq \<and> stop then Some (False, dl)
      else Some (initEpoch_internal m,
             if seq
             then dl\<lparr>s_dagLoadIndex :=
                       (if s_minersCount dl = mi_index m + 1 then 0 else mi_index m + 1)\<rparr>
             else dl))"

section \<open>Pausing\<close>

text \<open>A set of independent flags: the contract of \<open>pause\<close>, \<open>resume\<close> and \<open>pauseTest\<close>.\<close>

locale flag_set =
  fixes raise_flag :: "'f \<Rightarrow> 's \<Rightarrow> 's"
    and lower_flag :: "'f \<Rightarrow> 's \<Rightarrow> 's"
    and test_flag :: "'f \<Rightarrow> 's \<Rightarrow> bool"
    and any_flag :: "'s \<Rightarrow> bool"
  assumes test_raise: "test_flag f (raise_flag g s) \<longleftrightarrow> f = g \<or> test_flag f s"
    and test_lower: "test_flag f (lower_flag g s) \<longleftrightarrow> f \<noteq> g \<and> test_flag f s"
    and any_iff: "any_flag s \<longleftrightarrow> (\<exists>f. test_flag f s)"
begin

lemma any_raise: "any_flag (raise_flag f s)"
  by (auto simp: any_iff test_raise)

lemma any_lower: "any_flag (lower_flag f s) \<longleftrightarrow> (\<exists>g. g \<noteq> f \<and> test_flag g s)"
  by (auto simp: any_iff test_lower)

lemma any_after: "any_flag (foldr lower_flag fs s) \<longleftrightarrow> (\<exists>g. g \<notin> set fs \<and> test_flag g s)"
proof -
  have "test_flag g (foldr lower_flag fs s) \<longleftrightarrow> g \<notin> set fs \<and> test_flag g s" for g
    by (induction fs) (auto simp: test_lower)
  then show ?thesis by (simp add: any_iff)
qed

end

interpretation pauses: flag_set miner_pause miner_resume pauseTest miner_paused
  by unfold_locales
     (auto simp: miner_pause_def miner_resume_def pauseTest_def miner_paused_def kick_miner_def)

section \<open>Invariant\<close>

text \<open>A paused miner holds no work, and the hashes of its work have the right size.\<close>

definition miner_inv :: "Miner \<Rightarrow> bool" where
  "miner_inv m \<longleftrightarrow> wp_wf (mi_work m) \<and> (miner_paused m \<longrightarrow> \<not> wp_valid (mi_work m))"

lemma wp_wf_void [simp]: "wp_wf (w\<lparr>wp_header := h256_zero\<rparr>) \<longleftrightarrow> length (wp_boundary w) = 32 \<and> length (wp_seed w) = 32"
  by (auto simp: wp_wf_def)

lemma wp_wf_D: "wp_wf w \<Longrightarrow> length (wp_boundary w) = 32 \<and> length (wp_header w) = 32 \<and> length (wp_seed w) = 32"
  by (simp add: wp_wf_def)

lemma new_CPUMiner_inv [inv_rules]: "miner_inv (new_CPUMiner i d vm now)"
  by (simp add: miner_inv_def new_CPUMiner_def miner_paused_def)

lemma kick_miner_inv [inv_rules, simp]: "miner_inv (kick_miner m) \<longleftrightarrow> miner_inv m"
  by (simp add: miner_inv_def kick_miner_def miner_paused_def)

lemma miner_setWork_inv [inv_rules]: "miner_inv m \<Longrightarrow> wp_wf w \<Longrightarrow> miner_inv (miner_setWork w m)"
  by (auto simp: miner_setWork_def miner_inv_def miner_paused_def kick_miner_def dest: wp_wf_D)

lemma setEpoch_inv [inv_rules, simp]: "miner_inv (setEpoch ec m) \<longleftrightarrow> miner_inv m"
  by (simp add: miner_inv_def setEpoch_def miner_paused_def)

lemma miner_pause_inv [inv_rules]: "miner_inv m \<Longrightarrow> miner_inv (miner_pause f m)"
  by (auto simp: miner_pause_def miner_inv_def kick_miner_def dest: wp_wf_D)

lemma miner_resume_inv [inv_rules]: "miner_inv m \<Longrightarrow> miner_inv (miner_resume f m)"
  by (auto simp: miner_resume_def miner_inv_def miner_paused_def)

lemma TriggerHashRateUpdate_inv [inv_rules]: "miner_inv m \<Longrightarrow> miner_inv (TriggerHashRateUpdate m)"
  by (simp add: TriggerHashRateUpdate_def miner_inv_def miner_paused_def)

lemma updateHashRate_inv [inv_rules]: "miner_inv m \<Longrightarrow> miner_inv (updateHashRate rnd now g i m)"
  by (simp add: updateHashRate_def Let_def miner_inv_def miner_paused_def)

lemma miner_frame [frame]:
  "mi_index (kick_miner m) = mi_index m" "mi_worker (kick_miner m) = mi_worker m"
  "mi_index (miner_setWork w m) = mi_index m" "mi_worker (miner_setWork w m) = mi_worker m"
  "mi_index (setEpoch ec m) = mi_index m" "mi_worker (setEpoch ec m) = mi_worker m"
  "mi_index (miner_pause f m) = mi_index m" "mi_worker (miner_pause f m) = mi_worker m"
  "mi_index (miner_resume f m) = mi_index m" "mi_worker (miner_resume f m) = mi_worker m"
  "mi_index (TriggerHashRateUpdate m) = mi_index m" "mi_worker (TriggerHashRateUpdate m) = mi_worker m"
  "mi_index (updateHashRate rnd now g i m) = mi_index m"
  "miner_paused (kick_miner m) = miner_paused m" "mi_work (kick_miner m) = mi_work m"
  "miner_paused (setEpoch ec m) = miner_paused m" "mi_work (setEpoch ec m) = mi_work m"
  "miner_paused (miner_setWork w m) = miner_paused m"
  by (simp_all add: kick_miner_def miner_setWork_def setEpoch_def miner_pause_def miner_resume_def
        TriggerHashRateUpdate_def updateHashRate_def Let_def miner_paused_def)

lemma miner_setWork_work [frame]:
  "mi_work (miner_setWork w m) =
     (if miner_paused m then (mi_work m)\<lparr>wp_header := h256_zero\<rparr> else w)"
  by (simp add: miner_setWork_def kick_miner_def)

section \<open>Hash rate\<close>

text \<open>
  Two triggers without a report of the miner in between set its rate to zero; a report answers
  the pending trigger with the hashes done since the last one.
\<close>

lemma unanswered_trigger_zero:
  "mi_hashRate (TriggerHashRateUpdate (TriggerHashRateUpdate m)) = (0 :: real)"
  by (simp add: TriggerHashRateUpdate_def)

lemma answered_trigger:
  assumes "\<And>x. rnd x = x" and "\<not> mi_hashRateUpdate m" and "now - mi_hashTime m \<ge> 1000"
    and "mi_groupCount m = 0"
  shows "mi_hashRate (updateHashRate rnd now g i (TriggerHashRateUpdate m)) =
           real (unat (ucast i * ucast g :: u64)) * 1000000 / real ((now - mi_hashTime m) div 1000)"
  using assms by (auto simp: TriggerHashRateUpdate_def updateHashRate_def Let_def div_eq_0_iff)

section \<open>Runs\<close>

inductive miner_step :: "Miner \<Rightarrow> Miner \<Rightarrow> bool" where
  step_setWork: "wp_wf w \<Longrightarrow> miner_step m (miner_setWork w m)"
| step_setEpoch: "miner_step m (setEpoch ec m)"
| step_pause: "miner_step m (miner_pause f m)"
| step_resume: "miner_step m (miner_resume f m)"
| step_trigger: "miner_step m (TriggerHashRateUpdate m)"
| step_update: "miner_step m (updateHashRate rnd now g i m)"
| step_worker: "worker_step (mi_worker m) w \<Longrightarrow> miner_step m (m\<lparr>mi_worker := w\<rparr>)"

interpretation miner: machine "\<lambda>m. \<exists>i d vm now. m = new_CPUMiner i d vm now" miner_step miner_inv
proof
  fix m m' assume "miner_inv m" "miner_step m m'"
  from this(2,1) show "miner_inv m'"
    by cases (simp_all add: inv_rules, simp add: miner_inv_def miner_paused_def)
qed (auto simp: inv_rules)

section \<open>Order of the serialised initialisation\<close>

text \<open>The miners of a list pass through \<open>initEpoch\<close> one after the other, none of them waiting.\<close>

fun init_round :: "Miner list \<Rightarrow> DagLoad \<Rightarrow> DagLoad option" where
  "init_round [] dl = Some dl"
| "init_round (m # ms) dl =
     (case initEpoch False m dl of None \<Rightarrow> None | Some (_, dl') \<Rightarrow> init_round ms dl')"

lemma initEpoch_seq:
  assumes "s_dagLoadMode dl = DAG_LOAD_MODE_SEQUENTIAL"
  shows "initEpoch False m dl =
    (if s_dagLoadIndex dl < mi_index m then None
     else Some (True, dl\<lparr>s_dagLoadIndex :=
            (if s_minersCount dl = mi_index m + 1 then 0 else mi_index m + 1)\<rparr>))"
  using assms by (simp add: initEpoch_def initEpoch_internal_def)

lemma init_round_order:
  assumes "s_dagLoadMode dl = DAG_LOAD_MODE_SEQUENTIAL" and "s_minersCount dl = of_nat n"
    and "s_dagLoadIndex dl = of_nat k" and "k < n" and "n < 2 ^ 32"
    and "distinct (map (unat \<circ> mi_index) ms)" and "set (map (unat \<circ> mi_index) ms) = {k..<n}"
  shows "init_round ms dl =
    (if map (unat \<circ> mi_index) ms = [k..<n] then Some (dl\<lparr>s_dagLoadIndex := 0\<rparr>) else None)"
  using assms
proof (induction ms arbitrary: dl k)
  case Nil
  then show ?case by simp
next
  case (Cons m ms)
  let ?i = "unat (mi_index m)"
  have i: "k \<le> ?i" "?i < n" using Cons.prems by auto
  have k: "unat (of_nat k :: u32) = k" using Cons.prems by (simp add: unat_of_nat)
  have n: "unat (of_nat n :: u32) = n" using Cons.prems by (simp add: unat_of_nat)
  have less: "s_dagLoadIndex dl < mi_index m \<longleftrightarrow> k < ?i"
    using Cons.prems k by (simp add: word_less_nat_alt)
  show ?case
  proof (cases "?i = k")
    case False
    then show ?thesis
      using i less Cons.prems upt_conv_Cons [OF Cons.prems(4)] by (simp add: initEpoch_seq)
  next
    case True
    have suc: "unat (mi_index m + 1) = k + 1"
      using True i Cons.prems(5) by (simp add: unat_word_ariths)
    have last: "s_minersCount dl = mi_index m + 1 \<longleftrightarrow> n = k + 1"
      using Cons.prems(2) n suc by (metis word_unat_eq_iff)
    have rest: "set (map (unat \<circ> mi_index) ms) = {Suc k..<n}"
    proof -
      let ?S = "set (map (unat \<circ> mi_index) ms)"
      have "insert k ?S = {k..<n}" and "k \<notin> ?S" using Cons.prems(6,7) True by simp_all
      then have "?S = {k..<n} - {k}" by blast
      then show ?thesis by auto
    qed
    show ?thesis
    proof (cases "n = k + 1")
      case True
      then have "ms = []" using rest by simp
      then show ?thesis
        using True \<open>?i = k\<close> less last Cons.prems by (simp add: initEpoch_seq)
    next
      case False
      define dl' where "dl' = dl\<lparr>s_dagLoadIndex := mi_index m + 1\<rparr>"
      have "of_nat (unat (mi_index m + 1)) = mi_index m + 1" by simp
      then have idx: "s_dagLoadIndex dl' = of_nat (Suc k)"
        using suc by (simp add: dl'_def)
      have "init_round (m # ms) dl = init_round ms dl'"
        using less last False \<open>?i = k\<close> Cons.prems by (simp add: initEpoch_seq dl'_def)
      also have "\<dots> = (if map (unat \<circ> mi_index) ms = [Suc k..<n]
                        then Some (dl'\<lparr>s_dagLoadIndex := 0\<rparr>) else None)"
        using Cons.prems rest idx False by (intro Cons.IH) (auto simp: dl'_def)
      finally show ?thesis
        using \<open>?i = k\<close> upt_conv_Cons [OF Cons.prems(4)] by (simp add: dl'_def comp_def)
    qed
  qed
qed

section \<open>Properties\<close>

text \<open>A device for the concrete instances.\<close>

definition sample_device :: DeviceDescriptor where
  "sample_device =
     \<lparr>dd_type = DT_Cpu, dd_subscriptionType = DS_Cpu, dd_uniqueId = ''cpu-0'', dd_totalMemory = 0,
      dd_name = [], dd_cpCpuNumer = 0\<rparr>"

text \<open>
  C29: a miner that is paused for any reason has no work to search, in every state reachable
  through the calls on it: a pause voids the header, work given to a paused miner is voided, and
  resuming does not bring a header back. It is paused exactly while some reason is active, and
  lifting one reason leaves it paused when another one remains.
\<close>

theorem paused_miner_idle:
  assumes "reach (\<lambda>m. \<exists>i d vm now. m = new_CPUMiner i d vm now) miner_step m"
  shows "(miner_paused m \<longrightarrow> \<not> wp_valid (mi_work m)) \<and>
         miner_paused (miner_pause f m) \<and>
         (miner_paused (miner_resume f m) \<longleftrightarrow> (\<exists>g. g \<noteq> f \<and> pauseTest g m))"
  using miner.reach_inv [OF assms] pauses.any_raise pauses.any_lower
  by (simp add: miner_inv_def)

lemma paused_miner_idle_witness:
  "miner_paused (miner_pause PauseDueToAPIRequest (new_CPUMiner 0 sample_device True 0))"
  using paused_miner_idle [OF reach_init, of "new_CPUMiner 0 sample_device True 0" PauseDueToAPIRequest]
  by blast

text \<open>
  With sequential loading of the epoch, \<open>n\<close> miners can pass \<open>initEpoch\<close> only in the order of
  their indices, and after the last one the shared index is back at zero.
\<close>

theorem sequential_init_order:
  assumes "0 < n" and "n < 2 ^ 32"
    and "distinct (map (unat \<circ> mi_index) ms)" and "set (map (unat \<circ> mi_index) ms) = {0..<n}"
  shows "init_round ms (setDagLoadInfo DAG_LOAD_MODE_SEQUENTIAL (of_nat n)) =
    (if map (unat \<circ> mi_index) ms = [0..<n]
     then Some (setDagLoadInfo DAG_LOAD_MODE_SEQUENTIAL (of_nat n)) else None)"
  using init_round_order [of "setDagLoadInfo DAG_LOAD_MODE_SEQUENTIAL (of_nat n)" n 0 ms] assms
  by (simp add: setDagLoadInfo_def)

lemma sequential_init_order_witness:
  "init_round [new_CPUMiner 1 sample_device True 0, new_CPUMiner 0 sample_device True 0]
     (setDagLoadInfo DAG_LOAD_MODE_SEQUENTIAL 2) = None"
proof -
  let ?ms = "[new_CPUMiner 1 sample_device True 0, new_CPUMiner 0 sample_device True 0]"
  have idx: "map (unat \<circ> mi_index) ?ms = [1, 0]" by (simp add: new_CPUMiner_def)
  have set2: "{0..<2} = {1, 0 :: nat}" and upt2: "[0..<2] = [0, 1 :: nat]"
    by (auto simp: upt_rec)
  show ?thesis
    using sequential_init_order [of 2 ?ms] unfolding idx upt2 by (simp add: set2)
qed

text \<open>
  the wait for one's turn does not look at the stop request. When the miner whose turn it is
  has left because it should stop, the shared index stays, and every later miner waits on,
  although it should stop as well.
\<close>

theorem sequential_init_stop_hangs:
  assumes "s_dagLoadMode dl = DAG_LOAD_MODE_SEQUENTIAL"
    and "s_dagLoadIndex dl = mi_index m" and "mi_index m < mi_index m'"
  shows "initEpoch True m dl = Some (False, dl) \<and> initEpoch stop m' dl = None"
  using assms by (simp add: initEpoch_def)

lemma sequential_init_stop_hangs_witness:
  "initEpoch True (new_CPUMiner 1 sample_device True 0) (setDagLoadInfo DAG_LOAD_MODE_SEQUENTIAL 2) = None"
  using sequential_init_stop_hangs [of "setDagLoadInfo DAG_LOAD_MODE_SEQUENTIAL 2"
      "new_CPUMiner 0 sample_device True 0" "new_CPUMiner 1 sample_device True 0" True]
  by (simp add: new_CPUMiner_def setDagLoadInfo_def)

end
