(* ===== verification/Farm.thy ===== *)
theory Farm
  imports Miner
begin

text \<open>
  The farm (\<open>src/libethcore/Farm.h\<close>, \<open>src/libethcore/Farm.cpp\<close>): the collection of miners, the
  current work, the division of the nonce space among the miners and the accounting of
  solutions. Operations on the farm are functions on its record; those that can throw return
  the exception beside the state they leave. The random engine of \<open>shuffle\<close>, the clock and the
  ethash library are arguments.
\<close>

section \<open>State\<close>

record FarmSettings =
  fs_dagLoadMode :: u32
  fs_noEval :: bool
  fs_ergodicity :: u32

record TelemetryType =
  tm_start :: nat
  tm_farm :: TelemetryAccountType
  tm_miners :: "TelemetryAccountType list"

text \<open>
  \<open>fm_devices\<close> lists the entries of the device map in key order. \<open>fm_posted\<close> are the solutions
  posted to the farm's strand, \<open>fm_found\<close> those handed to the \<open>m_onSolutionFound\<close> callback,
  \<open>fm_restarts\<close> the number of calls of the \<open>m_onMinerRestart\<close> callback, \<open>fm_collectTimer\<close> tells
  whether the collect timer is armed. \<open>fm_dag\<close> are the static members of \<open>Miner\<close>, \<open>fm_retired\<close>
  the miners that \<open>stop\<close> has removed from the collection, as it leaves them to their destructors.
\<close>

record Farm =
  fm_settings :: FarmSettings
  fm_devices :: "(string \<times> DeviceDescriptor) list"
  fm_miners :: "Miner list"
  fm_retired :: "Miner list"
  fm_currentWp :: WorkPackage
  fm_currentEc :: "EpochContext option"
  fm_isMining :: bool
  fm_paused :: bool
  fm_telemetry :: TelemetryType
  fm_nonce_scrambler :: u64
  fm_nonce_segment_with :: u32
  fm_dag :: DagLoad
  fm_collectTimer :: bool
  fm_posted :: "Solution list"
  fm_found :: "Solution list"
  fm_restarts :: nat

text \<open>The constructor, with \<open>r\<close> the number drawn by \<open>shuffle\<close>.\<close>

definition shuffle :: "u64 \<Rightarrow> Farm \<Rightarrow> Farm" where
  "shuffle r f = f\<lparr>fm_nonce_scrambler := r\<rparr>"

definition new_Farm :: "FarmSettings \<Rightarrow> (string \<times> DeviceDescriptor) list \<Rightarrow> u64 \<Rightarrow> nat \<Rightarrow> Farm" where
  "new_Farm settings devices r now =
     shuffle r
       \<lparr>fm_settings = settings, fm_devices = devices, fm_miners = [], fm_retired = [],
        fm_currentWp = new_WorkPackage, fm_currentEc = None, fm_isMining = False,
        fm_paused = False,
        fm_telemetry = \<lparr>tm_start = now, tm_farm = new_TelemetryAccount now, tm_miners = []\<rparr>,
        fm_nonce_scrambler = 0, fm_nonce_segment_with = 32,
        fm_dag = \<lparr>s_minersCount = 0, s_dagLoadMode = 0, s_dagLoadIndex = 0\<rparr>,
        fm_collectTimer = True, fm_posted = [], fm_found = [], fm_restarts = 0\<rparr>"

section \<open>Division of the nonce space\<close>

text \<open>The least \<open>k\<close> with \<open>n \<le> 2 ^ k\<close>.\<close>

fun ceil_log2 :: "nat \<Rightarrow> nat" where
  "ceil_log2 n = (if n \<le> 1 then 0 else Suc (ceil_log2 ((n + 1) div 2)))"

declare ceil_log2.simps [simp del]

text \<open>
  \<open>(unsigned int)log2(pow(2, 64 - exSizeBytes * 4) / m_miners.size())\<close>. The conversion truncates
  towards zero, so values between -1 and 0 give 0; an infinite value (no miners) or one of at
  most -1 has no unsigned value and the conversion is undefined. The floating point value is
  within a relative error that does not reach the next integer for the numbers of miners an
  \<open>unsigned\<close> can hold.
\<close>

definition segment_width :: "nat \<Rightarrow> nat \<Rightarrow> exn + u32" where
  "segment_width ex n =
     (let k = 64 - 4 * int ex in
      if n = 0 \<or> k < 0 then Inl UndefinedBehaviour
      else if ceil_log2 n \<le> nat k then Inr (of_nat (nat k - ceil_log2 n))
      else if n < 2 ^ (nat k + 1) then Inr 0
      else Inl UndefinedBehaviour)"

fun setWork_loop :: "u64 \<Rightarrow> u32 \<Rightarrow> nat \<Rightarrow> WorkPackage \<Rightarrow> Miner list \<Rightarrow> WorkPackage \<times> Miner list" where
  "setWork_loop s w i wp [] = (wp, [])"
| "setWork_loop s w i wp (m # ms) =
     (let wp' = wp\<lparr>wp_startNonce := s + push_bit (unat w) (of_nat i)\<rparr>;
          (wp'', ms') = setWork_loop s w (Suc i) wp' ms
      in (wp'', miner_setWork wp' m # ms'))"

text \<open>
  \<open>setWork\<close>; \<open>r\<close> is the number \<open>shuffle\<close> draws when it is called. A shift by the width of the
  type or more is undefined.
\<close>

definition farm_setEpoch :: "('c, 'z) ethash_lib_scheme \<Rightarrow> int \<Rightarrow> Farm \<Rightarrow> Farm" where
  "farm_setEpoch lib epoch f =
     (if wp_epoch (fm_currentWp f) \<noteq> epoch
      then f\<lparr>fm_currentEc := Some (epoch_context lib epoch),
             fm_miners := map (setEpoch (epoch_context lib epoch)) (fm_miners f)\<rparr>
      else f)"

definition farm_setWork ::
  "('c, 'z) ethash_lib_scheme \<Rightarrow> u64 \<Rightarrow> WorkPackage \<Rightarrow> Farm \<Rightarrow> exn option \<times> Farm" where
  "farm_setWork lib r newWp f =
     (let f1 = (farm_setEpoch lib (wp_epoch newWp) f)\<lparr>fm_currentWp := newWp\<rparr>;
          f2 = (if fs_ergodicity (fm_settings f1) = 2 \<and> wp_exSizeBytes newWp = 0
                then shuffle r f1 else f1);
          width = (if 0 < wp_exSizeBytes newWp
                   then segment_width (unat (wp_exSizeBytes newWp)) (length (fm_miners f2))
                   else Inr (fm_nonce_segment_with f2));
          start = (if 0 < wp_exSizeBytes newWp then wp_startNonce newWp else fm_nonce_scrambler f2)
      in withv width f2 (\<lambda>w.
           if 64 \<le> unat w \<and> fm_miners f2 \<noteq> []
           then (Some UndefinedBehaviour, f2\<lparr>fm_nonce_segment_with := w\<rparr>)
           else let (wp', ms') = setWork_loop start w 0 newWp (fm_miners f2)
                in (None, f2\<lparr>fm_nonce_segment_with := w, fm_currentWp := wp', fm_miners := ms'\<rparr>)))"

definition set_nonce_scrambler :: "u64 \<Rightarrow> Farm \<Rightarrow> Farm" where
  "set_nonce_scrambler n f = f\<lparr>fm_nonce_scrambler := n\<rparr>"

definition set_nonce_segment_width :: "u32 \<Rightarrow> Farm \<Rightarrow> Farm" where
  "set_nonce_segment_width n f =
     (if wp_exSizeBytes (fm_currentWp f) = 0 then f\<lparr>fm_nonce_segment_with := n\<rparr> else f)"

definition getMiner :: "Farm \<Rightarrow> u32 \<Rightarrow> Miner option" where
  "getMiner f index =
     (case vec_at (fm_miners f) (unat index) of Inl _ \<Rightarrow> None | Inr m \<Rightarrow> Some m)"

section \<open>Starting, stopping, pausing\<close>

definition miner_startWorking :: "Miner \<Rightarrow> Miner" where
  "miner_startWorking m = m\<lparr>mi_worker := startWorking_returned (mi_worker m)\<rparr>"

text \<open>One turn of the loop over the device map; \<open>vm\<close> says whether a RandomY machine is obtained.\<close>

definition start_device :: "bool \<Rightarrow> nat \<Rightarrow> DeviceDescriptor \<Rightarrow> Farm \<Rightarrow> Farm" where
  "start_device vm now d f =
     (if dd_subscriptionType d = DS_Cpu
      then f\<lparr>fm_miners := fm_miners f @
               [miner_startWorking (new_CPUMiner (of_nat (length (fm_miners f))) d vm now)],
             fm_telemetry := (fm_telemetry f)\<lparr>tm_miners := tm_miners (fm_telemetry f) @
               [(new_TelemetryAccount now)\<lparr>ta_prefix := ''cp''\<rparr>]\<rparr>\<rparr>
      else f)"

definition farm_start :: "bool \<Rightarrow> nat \<Rightarrow> Farm \<Rightarrow> bool \<times> Farm" where
  "farm_start vm now f =
     (if fm_isMining f then (True, f)
      else if fm_miners f = []
      then let f1 = foldl (\<lambda>g kd. start_device vm now (snd kd) g) f (fm_devices f)
           in (True, f1\<lparr>fm_dag := setDagLoadInfo (fs_dagLoadMode (fm_settings f1))
                                    (of_nat (length (fm_miners f1))),
                        fm_isMining := True\<rparr>)
      else (True, f\<lparr>fm_miners := map miner_startWorking (fm_miners f), fm_isMining := True\<rparr>))"

definition miner_stop :: "Miner \<Rightarrow> Miner" where
  "miner_stop m = kick_miner (m\<lparr>mi_worker := triggerStopWorking (mi_worker m)\<rparr>)"

definition farm_stop :: "Farm \<Rightarrow> Farm" where
  "farm_stop f =
     (if fm_isMining f
      then f\<lparr>fm_retired := fm_retired f @ map miner_stop (fm_miners f),
             fm_miners := [], fm_isMining := False\<rparr>
      else f)"

definition farm_pause :: "Farm \<Rightarrow> Farm" where
  "farm_pause f =
     f\<lparr>fm_paused := True, fm_miners := map (miner_pause PauseDueToFarmPaused) (fm_miners f)\<rparr>"

definition farm_resume :: "Farm \<Rightarrow> Farm" where
  "farm_resume f =
     f\<lparr>fm_paused := False, fm_miners := map (miner_resume PauseDueToFarmPaused) (fm_miners f)\<rparr>"

definition farm_restart :: "Farm \<Rightarrow> Farm" where
  "farm_restart f = f\<lparr>fm_restarts := Suc (fm_restarts f)\<rparr>"

section \<open>Accounting\<close>

fun count_solution :: "SolutionAccountingEnum \<Rightarrow> nat \<Rightarrow> SolutionAccountType \<Rightarrow> SolutionAccountType" where
  "count_solution Accepted now a = a\<lparr>sa_accepted := sa_accepted a + 1, sa_tstamp := now\<rparr>"
| "count_solution Wasted now a = a\<lparr>sa_wasted := sa_wasted a + 1, sa_tstamp := now\<rparr>"
| "count_solution Rejected now a = a\<lparr>sa_rejected := sa_rejected a + 1, sa_tstamp := now\<rparr>"
| "count_solution Failed now a = a\<lparr>sa_failed := sa_failed a + 1, sa_tstamp := now\<rparr>"

definition account :: "SolutionAccountingEnum \<Rightarrow> nat \<Rightarrow> TelemetryAccountType \<Rightarrow> TelemetryAccountType" where
  "account a now t = t\<lparr>ta_solutions := count_solution a now (ta_solutions t)\<rparr>"

text \<open>The farm is counted first; \<open>m_telemetry.miners.at\<close> may then throw.\<close>

definition accountSolution ::
  "u32 \<Rightarrow> SolutionAccountingEnum \<Rightarrow> nat \<Rightarrow> Farm \<Rightarrow> exn option \<times> Farm" where
  "accountSolution minerIdx a now f =
     (let t = fm_telemetry f;
          f1 = f\<lparr>fm_telemetry := t\<lparr>tm_farm := account a now (tm_farm t)\<rparr>\<rparr>
      in withv (vec_at (tm_miners t) (unat minerIdx)) f1 (\<lambda>m.
           (None, f1\<lparr>fm_telemetry := (fm_telemetry f1)\<lparr>tm_miners :=
                    (tm_miners t)[unat minerIdx := account a now m]\<rparr>\<rparr>)))"

definition getSolutions :: "Farm \<Rightarrow> SolutionAccountType" where
  "getSolutions f = ta_solutions (tm_farm (fm_telemetry f))"

definition getSolutions_miner :: "Farm \<Rightarrow> u32 \<Rightarrow> nat \<Rightarrow> SolutionAccountType" where
  "getSolutions_miner f minerIdx now =
     (case vec_at (tm_miners (fm_telemetry f)) (unat minerIdx) of
        Inl _ \<Rightarrow> new_SolutionAccount now | Inr m \<Rightarrow> ta_solutions m)"

section \<open>Solutions\<close>

definition submitProof :: "Solution \<Rightarrow> Farm \<Rightarrow> Farm" where
  "submitProof s f = f\<lparr>fm_posted := fm_posted f @ [s]\<rparr>"

definition submitProofAsync ::
  "('c, 'z) ethash_lib_scheme \<Rightarrow> nat \<Rightarrow> Solution \<Rightarrow> Farm \<Rightarrow> exn option \<times> Farm" where
  "submitProofAsync lib now s f =
     (if \<not> fs_noEval (fm_settings f)
      then let r = EthashAux_eval lib (wp_epoch (sol_work s)) (wp_header (sol_work s)) (sol_nonce s) in
           if h_gt (res_value r) (wp_boundary (sol_work s))
           then accountSolution (sol_midx s) Failed now f
           else (None, f\<lparr>fm_found := fm_found f @ [s\<lparr>sol_mixHash := res_mixHash r\<rparr>]\<rparr>)
      else (None, f\<lparr>fm_found := fm_found f @ [s]\<rparr>))"

text \<open>The strand runs the first posted handler.\<close>

definition run_posted :: "('c, 'z) ethash_lib_scheme \<Rightarrow> nat \<Rightarrow> Farm \<Rightarrow> exn option \<times> Farm" where
  "run_posted lib now f =
     (case fm_posted f of
        [] \<Rightarrow> (None, f)
      | s # rest \<Rightarrow> submitProofAsync lib now s (f\<lparr>fm_posted := rest\<rparr>))"

section \<open>Collecting hash rates\<close>

fun collect_loop :: "(real \<Rightarrow> real) \<Rightarrow> real \<Rightarrow> Miner list \<Rightarrow> TelemetryType \<Rightarrow>
    exn option \<times> TelemetryType \<times> Miner list" where
  "collect_loop rnd farm_hr [] t = (None, t, [])"
| "collect_loop rnd farm_hr (m # ms) t =
     (let i = unat (mi_index m);
          hr = (if miner_paused m then 0 else RetrieveHashRate m);
          farm_hr' = rnd (farm_hr + hr)
      in case vec_at (tm_miners t) i of
           Inl e \<Rightarrow> (Some e, t, m # ms)
         | Inr a \<Rightarrow>
             (let t' = t\<lparr>tm_miners := (tm_miners t)[i := a\<lparr>ta_hashrate := hr, ta_paused := miner_paused m\<rparr>],
                         tm_farm := (tm_farm t)\<lparr>ta_hashrate := farm_hr'\<rparr>\<rparr>;
                  (e, t'', ms') = collect_loop rnd farm_hr' ms t'
              in (e, t'', TriggerHashRateUpdate m # ms')))"

definition collectData :: "(real \<Rightarrow> real) \<Rightarrow> bool \<Rightarrow> Farm \<Rightarrow> exn option \<times> Farm" where
  "collectData rnd ec f =
     (let f0 = f\<lparr>fm_collectTimer := False\<rparr> in
      if ec then (None, f0)
      else let (e, t, ms) = collect_loop rnd 0 (fm_miners f0) (fm_telemetry f0);
               f1 = f0\<lparr>fm_telemetry := t, fm_miners := ms\<rparr>
           in case e of Some x \<Rightarrow> (Some x, f1) | None \<Rightarrow> (None, f1\<lparr>fm_collectTimer := True\<rparr>))"

section \<open>The width of a segment\<close>

lemma ceil_log2_le: "ceil_log2 n \<le> k \<longleftrightarrow> n \<le> 2 ^ k"
proof (induction n arbitrary: k rule: ceil_log2.induct)
  case (1 n)
  show ?case
  proof (cases "n \<le> 1")
    case True
    then have "n \<le> 2 ^ k" by (meson le_trans one_le_numeral one_le_power)
    with True show ?thesis by (subst ceil_log2.simps) simp
  next
    case False
    then have n: "ceil_log2 n = Suc (ceil_log2 ((n + 1) div 2))" by (subst ceil_log2.simps) simp
    show ?thesis
    proof (cases k)
      case 0
      with False n show ?thesis by simp
    next
      case (Suc j)
      have "(n + 1) div 2 \<le> 2 ^ j \<longleftrightarrow> n \<le> 2 * 2 ^ j" by linarith
      with Suc n 1 False show ?thesis by simp
    qed
  qed
qed

text \<open>The executable definition computes the formula of the source over the real numbers.\<close>

lemma floor_log2_quotient:
  assumes "0 < n"
  shows "\<lfloor>log 2 (2 ^ k / real n)\<rfloor> = int k - int (ceil_log2 n)"
proof -
  have split: "log 2 (2 ^ k / real n) = real k - log 2 (real n)"
    using assms by (simp add: log_divide log_nat_power)
  have "\<lceil>log 2 (real n)\<rceil> = int (ceil_log2 n)"
  proof (rule ceiling_unique)
    have "real n \<le> real (2 ^ ceil_log2 n)"
      unfolding of_nat_le_iff using ceil_log2_le [of n "ceil_log2 n"] by simp
    then show "log 2 (real n) \<le> of_int (int (ceil_log2 n))"
      using assms by (simp add: log_le_iff powr_realpow)
    show "of_int (int (ceil_log2 n)) - 1 < log 2 (real n)"
    proof (cases "ceil_log2 n")
      case 0
      then show ?thesis using assms by (simp add: less_le_trans [of _ 0])
    next
      case (Suc j)
      then have "2 ^ j < n" using ceil_log2_le [of n j] by simp
      then have "real (2 ^ j) < real n" unfolding of_nat_less_iff .
      then show ?thesis using Suc assms by (simp add: less_log_iff powr_realpow)
    qed
  qed
  then have "\<lfloor>- log 2 (real n)\<rfloor> = - int (ceil_log2 n)" by (simp add: ceiling_def)
  then show ?thesis unfolding split by linarith
qed

lemma segment_width_Inr:
  assumes "segment_width ex n = Inr w"
  shows "4 * ex \<le> 64" and "0 < n" and "unat w = (64 - 4 * ex) - ceil_log2 n"
    and "n \<le> 2 ^ (64 - 4 * ex) \<or> n < 2 ^ (65 - 4 * ex)"
proof -
  define k where "k = 64 - 4 * ex"
  from assms have *: "4 * ex \<le> 64" "0 < n" by (auto simp: segment_width_def Let_def split: if_splits)
  then have k: "nat (64 - 4 * int ex) = k" by (simp add: k_def)
  have "unat (of_nat (k - c) :: u32) = k - c" for c
    by (rule unat_of_nat_u32) (simp add: k_def)
  with assms * show "unat w = (64 - 4 * ex) - ceil_log2 n"
    by (auto simp: segment_width_def Let_def k k_def [symmetric] simp del: of_nat_diff split: if_splits)
  from assms * k have "n \<le> 2 ^ k \<or> n < 2 ^ (k + 1)"
    by (auto simp: segment_width_def Let_def ceil_log2_le split: if_splits)
  moreover have "k + 1 = 65 - 4 * ex" using * by (simp add: k_def)
  ultimately show "n \<le> 2 ^ (64 - 4 * ex) \<or> n < 2 ^ (65 - 4 * ex)"
    unfolding k_def by metis
qed (use assms in \<open>auto simp: segment_width_def Let_def split: if_splits\<close>)

lemma segment_width_fits:
  assumes "segment_width ex n = Inr w" and "n \<le> 2 ^ (64 - 4 * ex)"
  shows "n * 2 ^ unat w \<le> 2 ^ (64 - 4 * ex)"
proof -
  let ?k = "64 - 4 * ex"
  have c: "ceil_log2 n \<le> ?k" using assms(2) by (simp add: ceil_log2_le)
  have "n \<le> 2 ^ ceil_log2 n" using ceil_log2_le [of n "ceil_log2 n"] by simp
  then have "n * 2 ^ unat w \<le> 2 ^ ceil_log2 n * 2 ^ (?k - ceil_log2 n)"
    by (simp add: segment_width_Inr(3) [OF assms(1)])
  also have "\<dots> = 2 ^ ?k" using c by (simp flip: power_add)
  finally show ?thesis .
qed

lemma segment_width_total:
  assumes "segment_width ex n = Inr w" and "0 < ex"
  shows "n * 2 ^ unat w \<le> 2 ^ 64" and "unat w < 64"
proof -
  show "unat w < 64" using assms(2) segment_width_Inr(1,3) [OF assms(1)] by simp
  show "n * 2 ^ unat w \<le> 2 ^ 64"
  proof (cases "n \<le> 2 ^ (64 - 4 * ex)")
    case True
    have "(2 :: nat) ^ (64 - 4 * ex) \<le> 2 ^ 64" by (rule power_increasing) simp_all
    with segment_width_fits [OF assms(1) True] show ?thesis by simp
  next
    case False
    then have "unat w = 0" and "n < 2 ^ (65 - 4 * ex)"
      using segment_width_Inr(3,4) [OF assms(1)] ceil_log2_le [of n "64 - 4 * ex"] by auto
    moreover have "(2 :: nat) ^ (65 - 4 * ex) \<le> 2 ^ 64" using assms(2) by (intro power_increasing) simp_all
    ultimately show ?thesis by simp
  qed
qed

section \<open>Segments of the nonce space\<close>

lemma segment_offset:
  fixes x s :: u64
  assumes "n * 2 ^ w \<le> 2 ^ 64" and "i < n" and "unat (x - (s + push_bit w (of_nat i))) < 2 ^ w"
  shows "unat (x - s) = i * 2 ^ w + unat (x - (s + push_bit w (of_nat i)))"
proof -
  let ?d = "x - (s + push_bit w (of_nat i))"
  have "i * 2 ^ w + 2 ^ w \<le> n * 2 ^ w"
    using assms(2) by (metis Suc_leI add.commute mult_Suc mult_le_mono1)
  then have small: "i * 2 ^ w + unat ?d < 2 ^ 64" using assms(1,3) by linarith
  have "x - s = of_nat (i * 2 ^ w) + ?d"
    by (simp add: push_bit_eq_mult)
  also have "\<dots> = of_nat (i * 2 ^ w + unat ?d)" by simp
  finally show ?thesis using unat_of_nat_u64 [OF small] by simp
qed

lemma segments_disjoint:
  fixes x s :: u64
  assumes "n * 2 ^ w \<le> 2 ^ 64" and "i < n" and "j < n"
    and "unat (x - (s + push_bit w (of_nat i))) < 2 ^ w"
    and "unat (x - (s + push_bit w (of_nat j))) < 2 ^ w"
  shows "i = j"
proof -
  have "unat (x - s) div 2 ^ w = i"
    using segment_offset [OF assms(1,2,4)] assms(4) by simp
  moreover have "unat (x - s) div 2 ^ w = j"
    using segment_offset [OF assms(1,3,5)] assms(5) by simp
  ultimately show ?thesis by simp
qed

lemma segment_inside:
  fixes x s :: u64
  assumes "n * 2 ^ w \<le> 2 ^ 64" and "i < n" and "unat (x - (s + push_bit w (of_nat i))) < 2 ^ w"
  shows "unat (x - s) < n * 2 ^ w"
proof -
  have "i * 2 ^ w + 2 ^ w \<le> n * 2 ^ w"
    using assms(2) by (metis Suc_leI add.commute mult_Suc mult_le_mono1)
  then show ?thesis using segment_offset [OF assms] assms(3) by linarith
qed

section \<open>Effect of setWork\<close>

lemma length_setWork_loop [simp]: "length (snd (setWork_loop s w i wp ms)) = length ms"
  by (induction ms arbitrary: i wp) (simp_all add: Let_def case_prod_beta)

lemma setWork_loop_nth:
  "j < length ms \<Longrightarrow>
     snd (setWork_loop s w i wp ms) ! j =
       miner_setWork (wp\<lparr>wp_startNonce := s + push_bit (unat w) (of_nat (i + j))\<rparr>) (ms ! j)"
proof (induction ms arbitrary: i j wp)
  case (Cons m ms)
  then show ?case by (cases j) (simp_all add: Let_def case_prod_beta ac_simps)
qed simp

lemma setWork_loop_wp:
  "\<exists>x. fst (setWork_loop s w i wp ms) = wp\<lparr>wp_startNonce := x\<rparr>"
proof (induction ms arbitrary: i wp)
  case Nil
  show ?case by (rule exI [of _ "wp_startNonce wp"]) simp
next
  case (Cons m ms)
  from Cons [of "Suc i" "wp\<lparr>wp_startNonce := s + push_bit (unat w) (of_nat i)\<rparr>"] show ?case
    by (auto simp: Let_def case_prod_beta)
qed

lemma farm_setEpoch_frame [frame, simp]:
  "fm_nonce_segment_with (farm_setEpoch lib e f) = fm_nonce_segment_with f"
  "fm_nonce_scrambler (farm_setEpoch lib e f) = fm_nonce_scrambler f"
  "fm_settings (farm_setEpoch lib e f) = fm_settings f"
  "length (fm_miners (farm_setEpoch lib e f)) = length (fm_miners f)"
  "fm_telemetry (farm_setEpoch lib e f) = fm_telemetry f"
  "fm_isMining (farm_setEpoch lib e f) = fm_isMining f"
  "fm_paused (farm_setEpoch lib e f) = fm_paused f"
  "fm_posted (farm_setEpoch lib e f) = fm_posted f"
  "(fm_miners (farm_setEpoch lib e f) = []) = (fm_miners f = [])"
  by (simp_all add: farm_setEpoch_def)

lemma farm_setEpoch_nth:
  "j < length (fm_miners f) \<Longrightarrow>
     fm_miners (farm_setEpoch lib e f) ! j =
       (if wp_epoch (fm_currentWp f) \<noteq> e then setEpoch (epoch_context lib e) (fm_miners f ! j)
        else fm_miners f ! j)"
  by (simp add: farm_setEpoch_def)

lemma shuffle_frame [frame, simp]:
  "fm_miners (shuffle r f) = fm_miners f" "fm_telemetry (shuffle r f) = fm_telemetry f"
  "fm_isMining (shuffle r f) = fm_isMining f" "fm_paused (shuffle r f) = fm_paused f"
  "fm_posted (shuffle r f) = fm_posted f" "fm_nonce_segment_with (shuffle r f) = fm_nonce_segment_with f"
  "fm_nonce_scrambler (shuffle r f) = r"
  by (simp_all add: shuffle_def)

text \<open>The nonce at which the segments begin and the width that \<open>setWork\<close> settles on.\<close>

definition work_start :: "u64 \<Rightarrow> WorkPackage \<Rightarrow> Farm \<Rightarrow> u64" where
  "work_start r wp f =
     (if 0 < wp_exSizeBytes wp then wp_startNonce wp
      else if fs_ergodicity (fm_settings f) = 2 then r else fm_nonce_scrambler f)"

definition work_width :: "WorkPackage \<Rightarrow> Farm \<Rightarrow> exn + u32" where
  "work_width wp f =
     (if 0 < wp_exSizeBytes wp
      then segment_width (unat (wp_exSizeBytes wp)) (length (fm_miners f))
      else Inr (fm_nonce_segment_with f))"

text \<open>The miners after \<open>setWork\<close>, each with its own start nonce; the rest of the farm.\<close>

lemma farm_setWork_None:
  assumes "farm_setWork lib r wp f = (None, f')"
  shows "\<exists>w. work_width wp f = Inr w \<and> fm_nonce_segment_with f' = w \<and>
    (fm_miners f \<noteq> [] \<longrightarrow> unat w < 64) \<and> length (fm_miners f') = length (fm_miners f) \<and>
    (\<forall>j<length (fm_miners f). fm_miners f' ! j =
       miner_setWork (wp\<lparr>wp_startNonce := work_start r wp f + push_bit (unat w) (of_nat j)\<rparr>)
         (fm_miners (farm_setEpoch lib (wp_epoch wp) f) ! j))"
  using assms
  by (auto simp: farm_setWork_def withv_def Let_def work_width_def work_start_def case_prod_beta
        setWork_loop_nth word_gt_0 split: sum.splits if_splits)

lemma farm_setWork_miner_work:
  assumes "farm_setWork lib r wp f = (None, f')" and "j < length (fm_miners f)"
    and "\<not> miner_paused (fm_miners f ! j)"
  shows "mi_work (fm_miners f' ! j) =
    wp\<lparr>wp_startNonce := work_start r wp f + push_bit (unat (fm_nonce_segment_with f')) (of_nat j)\<rparr>"
  using farm_setWork_None [OF assms(1)] assms(2,3)
  by (auto simp: miner_setWork_work farm_setEpoch_nth miner_frame split: if_splits)

lemma farm_setWork_ok:
  assumes "work_width wp f = Inr w" and "unat w < 64"
  shows "fst (farm_setWork lib r wp f) = None"
  using assms
  by (auto simp: farm_setWork_def withv_def Let_def work_width_def case_prod_beta word_gt_0
        split: sum.splits if_splits)

lemma farm_setWork_frame:
  assumes "farm_setWork lib r wp f = (e, f')"
  shows "fm_telemetry f' = fm_telemetry f" "fm_isMining f' = fm_isMining f"
    "fm_paused f' = fm_paused f" "fm_posted f' = fm_posted f"
    "length (fm_miners f') = length (fm_miners f)"
  using assms
  by (auto simp: farm_setWork_def withv_def Let_def case_prod_beta farm_setEpoch_def
        split: sum.splits if_splits)

section \<open>Accounts\<close>

text \<open>
  The four counters of an account. Accounting is pointwise on them, so the totals over the
  miners can be followed by one lemma on list updates.
\<close>

definition counters :: "SolutionAccountType \<Rightarrow> SolutionAccountingEnum \<Rightarrow> u32" where
  "counters a k =
     (case k of Accepted \<Rightarrow> sa_accepted a | Rejected \<Rightarrow> sa_rejected a
              | Wasted \<Rightarrow> sa_wasted a | Failed \<Rightarrow> sa_failed a)"

definition miners_total :: "TelemetryType \<Rightarrow> SolutionAccountingEnum \<Rightarrow> u32" where
  "miners_total t k = sum_list (map (\<lambda>m. counters (ta_solutions m) k) (tm_miners t))"

definition accounts_agree :: "TelemetryType \<Rightarrow> bool" where
  "accounts_agree t \<longleftrightarrow> (\<forall>k. counters (ta_solutions (tm_farm t)) k = miners_total t k)"

lemma counters_count:
  "counters (count_solution a now s) k = counters s k + (if k = a then 1 else 0)"
  by (cases a; cases k) (simp_all add: counters_def)

lemma counters_account:
  "counters (ta_solutions (account a now t)) k = counters (ta_solutions t) k + (if k = a then 1 else 0)"
  by (simp add: account_def counters_count)

lemma sum_list_map_update:
  fixes g :: "'a \<Rightarrow> 'b::ab_group_add"
  shows "i < length xs \<Longrightarrow> sum_list (map g (xs[i := x])) = sum_list (map g xs) - g (xs ! i) + g x"
  by (induction xs arbitrary: i) (auto simp: algebra_simps split: nat.splits)

lemma accountSolution_ok:
  assumes "unat i < length (tm_miners (fm_telemetry f))"
  shows "accountSolution i a now f =
    (None, f\<lparr>fm_telemetry := (fm_telemetry f)\<lparr>
        tm_farm := account a now (tm_farm (fm_telemetry f)),
        tm_miners := (tm_miners (fm_telemetry f))[unat i :=
          account a now (tm_miners (fm_telemetry f) ! unat i)]\<rparr>\<rparr>)"
  using assms by (simp add: accountSolution_def vec_at_def Let_def)

lemma accountSolution_error:
  assumes "length (tm_miners (fm_telemetry f)) \<le> unat i"
  shows "accountSolution i a now f =
    (Some OutOfRange, f\<lparr>fm_telemetry := (fm_telemetry f)\<lparr>
        tm_farm := account a now (tm_farm (fm_telemetry f))\<rparr>\<rparr>)"
  using assms by (simp add: accountSolution_def vec_at_def Let_def)

lemma accounts_agree_account:
  assumes "accounts_agree t" and "i < length (tm_miners t)"
  shows "accounts_agree (t\<lparr>tm_farm := account a now (tm_farm t),
           tm_miners := (tm_miners t)[i := account a now (tm_miners t ! i)]\<rparr>)"
  using assms by (simp add: accounts_agree_def miners_total_def sum_list_map_update counters_account)

lemma accounts_agree_cong:
  assumes "map ta_solutions (tm_miners t) = map ta_solutions (tm_miners t')"
    and "ta_solutions (tm_farm t) = ta_solutions (tm_farm t')"
  shows "accounts_agree t = accounts_agree t'"
proof -
  have "map (\<lambda>m. counters (ta_solutions m) k) (tm_miners t) =
        map (\<lambda>m. counters (ta_solutions m) k) (tm_miners t')" for k
    using arg_cong [OF assms(1), of "map (\<lambda>s. counters s k)"] by (simp add: comp_def)
  then show ?thesis using assms(2) by (simp add: accounts_agree_def miners_total_def)
qed

section \<open>Collecting\<close>

lemma map_update_same: "i < length xs \<Longrightarrow> g x = g (xs ! i) \<Longrightarrow> map g (xs[i := x]) = map g xs"
  by (metis list_update_id map_update)

abbreviation collected :: "(real \<Rightarrow> real) \<Rightarrow> real \<Rightarrow> Miner list \<Rightarrow> TelemetryType \<Rightarrow> TelemetryType" where
  "collected rnd h ms t \<equiv> fst (snd (collect_loop rnd h ms t))"

lemma collect_loop_solutions:
  "map ta_solutions (tm_miners (collected rnd h ms t)) = map ta_solutions (tm_miners t)"
  by (induction ms arbitrary: h t)
     (simp_all add: Let_def case_prod_beta vec_at_def map_update_same)

lemma collect_loop_farm_solutions:
  "ta_solutions (tm_farm (collected rnd h ms t)) = ta_solutions (tm_farm t)"
  by (induction ms arbitrary: h t) (simp_all add: Let_def case_prod_beta vec_at_def)

lemma collect_loop_length: "length (tm_miners (collected rnd h ms t)) = length (tm_miners t)"
  using collect_loop_solutions [of rnd h ms t] map_eq_imp_length_eq by blast

lemma collect_loop_total:
  "\<forall>m \<in> set ms. unat (mi_index m) < length (tm_miners t) \<Longrightarrow>
     fst (collect_loop rnd h ms t) = None \<and>
     snd (snd (collect_loop rnd h ms t)) = map TriggerHashRateUpdate ms"
  by (induction ms arbitrary: h t) (simp_all add: Let_def case_prod_beta vec_at_def)

text \<open>The farm's rate is the rounded sum of the rates of the miners that are not paused.\<close>

definition reported_rate :: "Miner \<Rightarrow> real" where
  "reported_rate m = (if miner_paused m then 0 else RetrieveHashRate m)"

lemma collect_loop_Cons:
  assumes "unat (mi_index m) < length (tm_miners t)"
  shows "collected rnd h (m # ms) t =
    collected rnd (rnd (h + reported_rate m)) ms
      (t\<lparr>tm_miners := (tm_miners t)[unat (mi_index m) :=
            (tm_miners t ! unat (mi_index m))\<lparr>ta_hashrate := reported_rate m, ta_paused := miner_paused m\<rparr>],
         tm_farm := (tm_farm t)\<lparr>ta_hashrate := rnd (h + reported_rate m)\<rparr>\<rparr>)"
  using assms by (simp add: Let_def case_prod_beta vec_at_def reported_rate_def del: fun_upd_apply)

lemma collect_loop_hashrate:
  "ta_hashrate (tm_farm t) = h \<Longrightarrow> \<forall>m \<in> set ms. unat (mi_index m) < length (tm_miners t) \<Longrightarrow>
     ta_hashrate (tm_farm (collected rnd h ms t)) = foldl (\<lambda>r m. rnd (r + reported_rate m)) h ms"
  by (induction ms arbitrary: h t) (simp_all add: collect_loop_Cons del: collect_loop.simps(2))

lemma collect_loop_farm_hashrate:
  assumes "ms \<noteq> []" and "\<forall>m \<in> set ms. unat (mi_index m) < length (tm_miners t)"
  shows "ta_hashrate (tm_farm (collected rnd h ms t)) = foldl (\<lambda>r m. rnd (r + reported_rate m)) h ms"
  using assms by (cases ms) (simp_all add: collect_loop_Cons collect_loop_hashrate del: collect_loop.simps(2))

section \<open>Invariant\<close>

text \<open>
  Miner \<open>i\<close> of the collection has index \<open>i\<close>, respects its own invariants, and is suspended by
  the farm only while the farm is paused.
\<close>

definition miner_ok :: "bool \<Rightarrow> Miner \<Rightarrow> bool" where
  "miner_ok paused m \<longleftrightarrow> miner_inv m \<and> worker_inv (mi_worker m) \<and> owner (mi_worker m) = Idle \<and>
     (pauseTest PauseDueToFarmPaused m \<longrightarrow> paused)"

definition farm_inv :: "Farm \<Rightarrow> bool" where
  "farm_inv f \<longleftrightarrow>
     list_all (miner_ok (fm_paused f)) (fm_miners f) \<and>
     (\<forall>i<length (fm_miners f). mi_index (fm_miners f ! i) = of_nat i) \<and>
     length (fm_miners f) \<le> length (tm_miners (fm_telemetry f)) \<and>
     (fm_miners f \<noteq> [] \<longrightarrow> fm_isMining f) \<and>
     list_all (\<lambda>s. unat (sol_midx s) < length (tm_miners (fm_telemetry f))) (fm_posted f) \<and>
     accounts_agree (fm_telemetry f)"

text \<open>An operation that changes the miners one by one and leaves their indices keeps the invariant.\<close>

lemma farm_inv_miners:
  assumes "farm_inv f" and "length ms = length (fm_miners f)"
    and "\<And>i. i < length ms \<Longrightarrow> mi_index (ms ! i) = mi_index (fm_miners f ! i)"
    and "\<And>i. i < length ms \<Longrightarrow> miner_ok (fm_paused f) (fm_miners f ! i) \<Longrightarrow> miner_ok p (ms ! i)"
    and "length (tm_miners t) = length (tm_miners (fm_telemetry f))" and "accounts_agree t"
    and "fm_miners f' = ms" "fm_telemetry f' = t" "fm_paused f' = p"
    and "fm_isMining f' = fm_isMining f" "fm_posted f' = fm_posted f"
  shows "farm_inv f'"
  using assms by (auto simp: farm_inv_def list_all_length)

lemma miner_index_bound:
  assumes "farm_inv f" and "m \<in> set (fm_miners f)"
  shows "unat (mi_index m) < length (tm_miners (fm_telemetry f))"
proof -
  obtain i where i: "i < length (fm_miners f)" "fm_miners f ! i = m"
    using assms(2) by (auto simp: in_set_conv_nth)
  then have "unat (mi_index m) = i mod 2 ^ 32"
    using assms(1) by (auto simp: farm_inv_def unat_of_nat take_bit_eq_mod)
  also have "\<dots> \<le> i" by (rule mod_less_eq_dividend)
  finally show ?thesis using i assms(1) by (auto simp: farm_inv_def)
qed

lemma miner_ok_simps [simp]:
  "miner_ok p (setEpoch ec m) = miner_ok p m"
  "miner_ok p (kick_miner m) = miner_ok p m"
  "miner_ok p (TriggerHashRateUpdate m) = miner_ok p m"
  by (simp_all add: miner_ok_def miner_inv_def miner_paused_def setEpoch_def kick_miner_def
        TriggerHashRateUpdate_def pauseTest_def)

lemma miner_ok_setWork: "wp_wf w \<Longrightarrow> miner_ok p m \<Longrightarrow> miner_ok p (miner_setWork w m)"
  by (auto simp: miner_ok_def inv_rules frame)
     (simp add: miner_setWork_def kick_miner_def pauseTest_def split: if_splits)

lemma miner_ok_pause: "miner_ok p m \<Longrightarrow> p \<or> f \<noteq> PauseDueToFarmPaused \<Longrightarrow> miner_ok p (miner_pause f m)"
  by (auto simp: miner_ok_def inv_rules frame pauses.test_raise)

lemma miner_ok_resume: "miner_ok p m \<Longrightarrow> miner_ok p (miner_resume f m)"
  by (auto simp: miner_ok_def inv_rules frame pauses.test_lower)

lemma miner_ok_new: "miner_ok p (miner_startWorking (new_CPUMiner i d vm now))"
proof -
  have "worker_inv (startWorking_returned new_Worker)"
    using worker.run_inv [OF startWorking_returned_steps] worker_inv_init
    by (auto simp: new_Worker_def)
  then show ?thesis
    by (simp add: miner_ok_def miner_startWorking_def new_CPUMiner_def miner_inv_def miner_paused_def
          pauseTest_def new_Worker_started)
qed

section \<open>Every operation keeps the invariant\<close>

lemma farm_inv_accounts: "farm_inv f \<Longrightarrow> accounts_agree (fm_telemetry f)"
  by (simp add: farm_inv_def)

lemma new_Farm_inv [inv_rules]: "farm_inv (new_Farm st ds r now)"
  by (simp add: farm_inv_def new_Farm_def shuffle_def accounts_agree_def miners_total_def
        new_TelemetryAccount_def new_SolutionAccount_def counters_def split: SolutionAccountingEnum.split)

lemma shuffle_inv [inv_rules]: "farm_inv f \<Longrightarrow> farm_inv (shuffle r f)"
  by (simp add: farm_inv_def)

lemma scrambler_inv [inv_rules]: "farm_inv f \<Longrightarrow> farm_inv (set_nonce_scrambler n f)"
  by (simp add: farm_inv_def set_nonce_scrambler_def)

lemma segment_width_inv [inv_rules]: "farm_inv f \<Longrightarrow> farm_inv (set_nonce_segment_width n f)"
  by (simp add: farm_inv_def set_nonce_segment_width_def)

lemma farm_stop_inv [inv_rules]: "farm_inv f \<Longrightarrow> farm_inv (farm_stop f)"
  by (auto simp: farm_inv_def farm_stop_def)

lemma farm_restart_inv [inv_rules]: "farm_inv f \<Longrightarrow> farm_inv (farm_restart f)"
  by (simp add: farm_inv_def farm_restart_def)

lemma farm_pause_inv [inv_rules]: "farm_inv f \<Longrightarrow> farm_inv (farm_pause f)"
  by (rule farm_inv_miners [where ms = "map (miner_pause PauseDueToFarmPaused) (fm_miners f)"])
     (auto simp: farm_pause_def frame farm_inv_accounts miner_ok_def inv_rules)

lemma farm_resume_inv [inv_rules]: "farm_inv f \<Longrightarrow> farm_inv (farm_resume f)"
  by (rule farm_inv_miners [where ms = "map (miner_resume PauseDueToFarmPaused) (fm_miners f)"])
     (auto simp: farm_resume_def frame farm_inv_accounts miner_ok_def inv_rules pauses.test_lower)

lemma submitProof_inv [inv_rules]:
  "farm_inv f \<Longrightarrow> unat (sol_midx s) < length (fm_miners f) \<Longrightarrow> farm_inv (submitProof s f)"
  by (auto simp: farm_inv_def submitProof_def)

lemma accountSolution_inv:
  assumes "farm_inv f" and "unat i < length (tm_miners (fm_telemetry f))"
    and "accountSolution i a now f = (e, f')"
  shows "farm_inv f'"
  using assms by (auto simp: accountSolution_ok farm_inv_def accounts_agree_account)

lemma farm_setEpoch_inv: "farm_inv f \<Longrightarrow> farm_inv (farm_setEpoch lib e f)"
  by (rule farm_inv_miners [where ms = "fm_miners (farm_setEpoch lib e f)"])
     (auto simp: farm_setEpoch_nth frame farm_inv_accounts)

lemma setWork_loop_inv:
  assumes "list_all (miner_ok p) ms" and "wp_wf wp"
  shows "list_all (miner_ok p) (snd (setWork_loop s w i wp ms))"
proof -
  have "wp_wf (wp\<lparr>wp_startNonce := x\<rparr>)" for x using assms(2) by (simp add: wp_wf_def)
  then show ?thesis using assms(1) by (auto simp: list_all_length setWork_loop_nth miner_ok_setWork)
qed

lemma farm_setWork_miners:
  assumes "farm_setWork lib r wp f = (e, f')" and "e \<noteq> None"
  shows "fm_miners f' = fm_miners (farm_setEpoch lib (wp_epoch wp) f)"
  using assms
  by (auto simp: farm_setWork_def withv_def Let_def case_prod_beta split: sum.splits if_splits)

lemma farm_setWork_inv:
  assumes "farm_inv f" and "wp_wf wp" and "farm_setWork lib r wp f = (e, f')"
  shows "farm_inv f'"
proof -
  let ?g = "farm_setEpoch lib (wp_epoch wp) f"
  note g = farm_setEpoch_inv [OF assms(1), of lib "wp_epoch wp"]
  note fr = farm_setWork_frame [OF assms(3)]
  have wf: "wp_wf (wp\<lparr>wp_startNonce := x\<rparr>)" for x using assms(2) by (simp add: wp_wf_def)
  have ms: "fm_miners f' ! j = fm_miners ?g ! j \<or>
      (\<exists>x. fm_miners f' ! j = miner_setWork (wp\<lparr>wp_startNonce := x\<rparr>) (fm_miners ?g ! j))"
    if "j < length (fm_miners f)" for j
    using that assms(3) farm_setWork_miners [OF assms(3)] farm_setWork_None [of lib r wp f f']
    by (cases e) auto
  show ?thesis
  proof (rule farm_inv_miners [OF g, where ms = "fm_miners f'" and t = "fm_telemetry f"])
    show "mi_index (fm_miners f' ! i) = mi_index (fm_miners ?g ! i)" if "i < length (fm_miners f')" for i
      using ms [of i] that fr by (auto simp: frame)
    show "miner_ok (fm_paused ?g) (fm_miners f' ! i)"
      if "i < length (fm_miners f')" "miner_ok (fm_paused ?g) (fm_miners ?g ! i)" for i
      using ms [of i] that fr wf by (auto simp: miner_ok_setWork)
  qed (use fr assms(1) in \<open>simp_all add: farm_inv_accounts\<close>)
qed

lemma farm_start_frame:
  "fm_isMining (foldl (\<lambda>g kd. start_device vm now (snd kd) g) f ds) = fm_isMining f"
  "fm_paused (foldl (\<lambda>g kd. start_device vm now (snd kd) g) f ds) = fm_paused f"
  "fm_posted (foldl (\<lambda>g kd. start_device vm now (snd kd) g) f ds) = fm_posted f"
  by (induction ds arbitrary: f) (simp_all add: start_device_def)

text \<open>The part of the invariant that holds between the devices that \<open>start\<close> goes through.\<close>

definition farm_core :: "Farm \<Rightarrow> bool" where
  "farm_core f \<longleftrightarrow>
     list_all (miner_ok (fm_paused f)) (fm_miners f) \<and>
     (\<forall>i<length (fm_miners f). mi_index (fm_miners f ! i) = of_nat i) \<and>
     length (fm_miners f) \<le> length (tm_miners (fm_telemetry f)) \<and>
     list_all (\<lambda>s. unat (sol_midx s) < length (tm_miners (fm_telemetry f))) (fm_posted f) \<and>
     accounts_agree (fm_telemetry f)"

lemma farm_inv_core: "farm_inv f \<longleftrightarrow> farm_core f \<and> (fm_miners f \<noteq> [] \<longrightarrow> fm_isMining f)"
  by (auto simp: farm_inv_def farm_core_def)

lemma accounts_agree_new:
  assumes "accounts_agree t"
  shows "accounts_agree (t\<lparr>tm_miners := tm_miners t @ [(new_TelemetryAccount now)\<lparr>ta_prefix := p\<rparr>]\<rparr>)"
  using assms
  by (simp add: accounts_agree_def miners_total_def new_TelemetryAccount_def new_SolutionAccount_def
        counters_def split: SolutionAccountingEnum.splits)

lemma start_device_core:
  assumes "farm_core f"
  shows "farm_core (start_device vm now d f)"
proof -
  have "mi_index (miner_startWorking (new_CPUMiner i d vm now)) = i" for i
    by (simp add: miner_startWorking_def new_CPUMiner_def)
  then show ?thesis
    using assms accounts_agree_new miner_ok_new
    by (auto simp: farm_core_def start_device_def nth_append list_all_iff less_Suc_eq)
qed

lemma farm_start_core: "farm_core f \<Longrightarrow> farm_core (foldl (\<lambda>g kd. start_device vm now (snd kd) g) f ds)"
  by (induction ds arbitrary: f) (simp_all add: start_device_core)

lemma miner_ok_started: "miner_ok p m \<Longrightarrow> miner_ok p (miner_startWorking m)"
  using worker.run_inv [OF startWorking_returned_steps]
  by (auto simp: miner_ok_def miner_startWorking_def miner_inv_def miner_paused_def pauseTest_def
        startWorking_returned_def Let_def)

lemma farm_start_inv:
  assumes "farm_inv f" and "farm_start vm now f = (b, f')"
  shows "farm_inv f'"
proof (cases "fm_isMining f \<or> fm_miners f = []")
  case True
  then show ?thesis
    using assms farm_start_core [of f vm now "fm_devices f"]
    by (auto simp: farm_start_def Let_def farm_inv_core farm_core_def split: if_splits)
qed (use assms in \<open>simp add: farm_inv_def\<close>)

lemma run_posted_total:
  assumes "farm_inv f"
  shows "fst (run_posted lib now f) = None \<and> farm_inv (snd (run_posted lib now f))"
proof (cases "fm_posted f")
  case (Cons s rest)
  let ?g = "f\<lparr>fm_posted := rest\<rparr>"
  have g: "farm_inv ?g" and i: "unat (sol_midx s) < length (tm_miners (fm_telemetry ?g))"
    using assms Cons by (simp_all add: farm_inv_def)
  have "farm_inv (?g\<lparr>fm_found := x\<rparr>)" for x using g by (simp add: farm_inv_def)
  then show ?thesis
    using accountSolution_inv [OF g i] Cons accountSolution_ok [OF i]
    by (simp add: run_posted_def submitProofAsync_def Let_def)
qed (use assms in \<open>simp add: run_posted_def\<close>)

lemma collectData_total:
  assumes "farm_inv f"
  shows "fst (collectData rnd ec f) = None \<and> farm_inv (snd (collectData rnd ec f))"
proof -
  let ?c = "collect_loop rnd 0 (fm_miners f) (fm_telemetry f)"
  have c: "fst ?c = None" "snd (snd ?c) = map TriggerHashRateUpdate (fm_miners f)"
    using collect_loop_total [of "fm_miners f" "fm_telemetry f"] miner_index_bound [OF assms] by auto
  have "accounts_agree (fst (snd ?c))"
    using farm_inv_accounts [OF assms] collect_loop_solutions collect_loop_farm_solutions
      accounts_agree_cong by metis
  with c have "farm_inv (f\<lparr>fm_collectTimer := b, fm_telemetry := fst (snd ?c), fm_miners := snd (snd ?c)\<rparr>)" for b
    using assms
    by (intro farm_inv_miners [OF assms, where ms = "map TriggerHashRateUpdate (fm_miners f)"])
       (simp_all add: collect_loop_length frame)
  moreover have "farm_inv (f\<lparr>fm_collectTimer := b\<rparr>)" for b using assms by (simp add: farm_inv_def)
  ultimately show ?thesis
    using c(1) by (auto simp: collectData_def Let_def case_prod_beta farm_inv_def)
qed

section \<open>Runs\<close>

text \<open>
  The calls of the pool manager and of the API, the timer, the strand, and what the threads of
  the miners do: steps of the worker, hash rate updates and submitted solutions.
\<close>

inductive farm_step :: "('c, 'z) ethash_lib_scheme \<Rightarrow> Farm \<Rightarrow> Farm \<Rightarrow> bool"
  for lib :: "('c, 'z) ethash_lib_scheme" where
  fs_setWork: "wp_wf wp \<Longrightarrow> farm_setWork lib r wp f = (e, f') \<Longrightarrow> farm_step lib f f'"
| fs_start: "farm_start vm now f = (b, f') \<Longrightarrow> farm_step lib f f'"
| fs_stop: "farm_step lib f (farm_stop f)"
| fs_pause: "farm_step lib f (farm_pause f)"
| fs_resume: "farm_step lib f (farm_resume f)"
| fs_restart: "farm_step lib f (farm_restart f)"
| fs_shuffle: "farm_step lib f (shuffle r f)"
| fs_scrambler: "farm_step lib f (set_nonce_scrambler n f)"
| fs_width: "farm_step lib f (set_nonce_segment_width w f)"
| fs_account: "unat i < length (tm_miners (fm_telemetry f)) \<Longrightarrow>
     accountSolution i a now f = (e, f') \<Longrightarrow> farm_step lib f f'"
| fs_submit: "unat (sol_midx s) < length (fm_miners f) \<Longrightarrow> farm_step lib f (submitProof s f)"
| fs_posted: "farm_step lib f (snd (run_posted lib now f))"
| fs_collect: "farm_step lib f (snd (collectData rnd ec f))"
| fs_api_pause: "i < length (fm_miners f) \<Longrightarrow> farm_step lib f
     (f\<lparr>fm_miners := (fm_miners f)[i := miner_pause PauseDueToAPIRequest (fm_miners f ! i)]\<rparr>)"
| fs_api_resume: "i < length (fm_miners f) \<Longrightarrow> farm_step lib f
     (f\<lparr>fm_miners := (fm_miners f)[i := miner_resume PauseDueToAPIRequest (fm_miners f ! i)]\<rparr>)"
| fs_rate: "i < length (fm_miners f) \<Longrightarrow> farm_step lib f
     (f\<lparr>fm_miners := (fm_miners f)[i := updateHashRate rnd now g inc (fm_miners f ! i)]\<rparr>)"
| fs_thread: "i < length (fm_miners f) \<Longrightarrow> thread_step ret (mi_worker (fm_miners f ! i)) = Some w \<Longrightarrow>
     farm_step lib f (f\<lparr>fm_miners := (fm_miners f)[i := (fm_miners f ! i)\<lparr>mi_worker := w\<rparr>]\<rparr>)"

lemma farm_inv_update:
  assumes "farm_inv f" and "i < length (fm_miners f)" and "mi_index m = mi_index (fm_miners f ! i)"
    and "miner_ok (fm_paused f) (fm_miners f ! i) \<Longrightarrow> miner_ok (fm_paused f) m"
  shows "farm_inv (f\<lparr>fm_miners := (fm_miners f)[i := m]\<rparr>)"
  using assms farm_inv_accounts
  by (intro farm_inv_miners [OF assms(1), where ms = "(fm_miners f)[i := m]"])
     (auto simp: nth_list_update)

lemma miner_ok_rate: "miner_ok p m \<Longrightarrow> miner_ok p (updateHashRate rnd now g i m)"
  by (simp add: miner_ok_def updateHashRate_def Let_def miner_inv_def miner_paused_def pauseTest_def)

lemma miner_ok_thread:
  "miner_ok p m \<Longrightarrow> thread_step r (mi_worker m) = Some w \<Longrightarrow> miner_ok p (m\<lparr>mi_worker := w\<rparr>)"
  using thread_step_inv thread_step_owner
  by (fastforce simp: miner_ok_def miner_inv_def miner_paused_def pauseTest_def)

lemma farm_step_inv:
  assumes "farm_step lib f f'" and "farm_inv f"
  shows "farm_inv f'"
  using assms(1)
proof cases
  case (fs_setWork wp r e)
  then show ?thesis using farm_setWork_inv assms(2) by blast
next
  case (fs_start vm now b)
  then show ?thesis using farm_start_inv assms(2) by blast
next
  case (fs_account i a now e)
  then show ?thesis using accountSolution_inv assms(2) by blast
next
  case (fs_posted now)
  then show ?thesis using run_posted_total assms(2) by blast
next
  case (fs_collect rnd ec)
  then show ?thesis using collectData_total assms(2) by blast
next
  case (fs_api_pause i)
  then show ?thesis using assms(2) by (simp add: farm_inv_update frame miner_ok_pause)
next
  case (fs_api_resume i)
  then show ?thesis using assms(2) by (simp add: farm_inv_update frame miner_ok_resume)
next
  case (fs_rate i rnd now g inc)
  then show ?thesis using assms(2) by (simp add: farm_inv_update frame miner_ok_rate)
next
  case (fs_thread i ret w)
  then show ?thesis using assms(2) by (simp add: farm_inv_update frame miner_ok_thread)
qed (use assms(2) in \<open>simp_all add: inv_rules\<close>)

interpretation farm: machine "\<lambda>f. \<exists>st ds r now. f = new_Farm st ds r now" "farm_step lib" farm_inv
  by unfold_locales (auto simp: inv_rules intro: farm_step_inv)

section \<open>Properties\<close>

lemma setWork_extranonce:
  assumes "farm_setWork lib r wp f = (None, f')" and "0 < wp_exSizeBytes wp"
  shows "segment_width (unat (wp_exSizeBytes wp)) (length (fm_miners f)) = Inr (fm_nonce_segment_with f')"
    and "length (fm_miners f) * 2 ^ unat (fm_nonce_segment_with f') \<le> 2 ^ 64"
    and "k < length (fm_miners f) \<Longrightarrow> \<not> miner_paused (fm_miners f ! k) \<Longrightarrow>
      wp_startNonce (mi_work (fm_miners f' ! k)) = wp_startNonce wp + push_bit (unat (fm_nonce_segment_with f')) (of_nat k)"
proof -
  show width: "segment_width (unat (wp_exSizeBytes wp)) (length (fm_miners f)) = Inr (fm_nonce_segment_with f')"
    using farm_setWork_None [OF assms(1)] assms(2) by (auto simp: work_width_def)
  show "length (fm_miners f) * 2 ^ unat (fm_nonce_segment_with f') \<le> 2 ^ 64"
    using segment_width_total(1) [OF width] assms(2) by (simp add: word_less_nat_alt)
  show "wp_startNonce (mi_work (fm_miners f' ! k)) = wp_startNonce wp + push_bit (unat (fm_nonce_segment_with f')) (of_nat k)"
    if "k < length (fm_miners f)" "\<not> miner_paused (fm_miners f ! k)"
    using farm_setWork_miner_work [OF assms(1) that] assms(2) by (simp add: work_start_def)
qed

lemma setWork_residual:
  assumes "farm_setWork lib r wp f = (None, f')" and "0 < wp_exSizeBytes wp"
    and "i < length (fm_miners f)" and "\<not> miner_paused (fm_miners f ! i)"
    and "unat (x - wp_startNonce (mi_work (fm_miners f' ! i))) < 2 ^ unat (fm_nonce_segment_with f')"
    and "length (fm_miners f) \<le> 2 ^ (64 - 4 * unat (wp_exSizeBytes wp))"
  shows "unat (x - wp_startNonce wp) < 2 ^ (64 - 4 * unat (wp_exSizeBytes wp))"
  using segment_inside [OF setWork_extranonce(2) [OF assms(1,2)] assms(3), of x "wp_startNonce wp"]
    segment_width_fits [OF setWork_extranonce(1) [OF assms(1,2)] assms(6)] assms(5)
  by (simp add: setWork_extranonce(3) [OF assms(1-4)])

text \<open>
  C6: the segments of the nonce space. When \<open>setWork\<close> gets work with an extranonce of \<open>ex\<close> hex
  digits and returns, the miners' start nonces divide the nonces that follow the pool's start
  nonce: the segments of two miners have no nonce in common, and, when there are no more miners
  than nonces, every segment lies in the residual space of \<open>16 ^ (16 - ex)\<close> nonces.
\<close>

theorem setWork_segments:
  assumes "farm_setWork lib r wp f = (None, f')" and "0 < wp_exSizeBytes wp"
    and "i < length (fm_miners f)" and "\<not> miner_paused (fm_miners f ! i)"
    and "unat (x - wp_startNonce (mi_work (fm_miners f' ! i))) < 2 ^ unat (fm_nonce_segment_with f')"
  shows "(j < length (fm_miners f) \<and> j \<noteq> i \<and> \<not> miner_paused (fm_miners f ! j) \<longrightarrow>
            unat (x - wp_startNonce (mi_work (fm_miners f' ! j))) \<ge> 2 ^ unat (fm_nonce_segment_with f')) \<and>
         (length (fm_miners f) \<le> 2 ^ (64 - 4 * unat (wp_exSizeBytes wp)) \<longrightarrow>
            unat (x - wp_startNonce wp) < 2 ^ (64 - 4 * unat (wp_exSizeBytes wp)))"
  using assms(3-5) setWork_extranonce(3) [OF assms(1,2)]
    segments_disjoint [OF setWork_extranonce(2) [OF assms(1,2)], of i j x "wp_startNonce wp"]
    setWork_residual [OF assms]
  by (auto simp: not_less [symmetric])

definition sample_farm :: Farm where
  "sample_farm = snd (farm_start True 0
     (new_Farm \<lparr>fs_dagLoadMode = 0, fs_noEval = False, fs_ergodicity = 0\<rparr>
        [(''cpu-0'', sample_device), (''cpu-1'', sample_device)] 7 0))"

lemma sample_farm_miners:
  "fm_miners sample_farm =
     [miner_startWorking (new_CPUMiner 0 sample_device True 0),
      miner_startWorking (new_CPUMiner 1 sample_device True 0)]"
  by (simp add: sample_farm_def farm_start_def new_Farm_def shuffle_def start_device_def sample_device_def)

lemma sample_farm_length: "length (fm_miners sample_farm) = 2"
  by (simp add: sample_farm_miners)

lemma sample_farm_live: "\<not> miner_paused (fm_miners sample_farm ! 0)" "\<not> miner_paused (fm_miners sample_farm ! 1)"
  by (simp_all add: sample_farm_miners miner_paused_def miner_startWorking_def new_CPUMiner_def)

lemma sample_width: "segment_width 2 2 = Inr 55"
  by code_simp

lemma sample_setWork: "fst (farm_setWork sample_lib 0 sample_work sample_farm) = None"
proof (rule farm_setWork_ok)
  show "work_width sample_work sample_farm = Inr 55"
    using sample_width by (simp add: work_width_def sample_work_def sample_farm_length)
qed simp

lemma setWork_segments_witness:
  "let f' = snd (farm_setWork sample_lib 0 sample_work sample_farm) in
   2 ^ unat (fm_nonce_segment_with f') \<le>
     unat (0xab00000000000000 - wp_startNonce (mi_work (fm_miners f' ! 1)))"
proof -
  define f' where "f' = snd (farm_setWork sample_lib 0 sample_work sample_farm)"
  have step: "farm_setWork sample_lib 0 sample_work sample_farm = (None, f')"
    using sample_setWork by (simp add: f'_def prod_eq_iff)
  have "wp_startNonce (mi_work (fm_miners f' ! 0)) = 0xab00000000000000"
    using farm_setWork_miner_work [OF step, of 0] sample_farm_live
    by (simp add: sample_farm_length work_start_def sample_work_def)
  then show ?thesis
    using setWork_segments [OF step, of 0 "0xab00000000000000" 1] sample_farm_live
    by (simp add: sample_farm_length f'_def [symmetric]) (simp add: sample_work_def)
qed

text \<open>
  the width of the segments is the number the source computes in floating point: the
  logarithm of the residual space divided by the number of miners, truncated towards zero; it is
  undefined exactly when there is no miner or the logarithm is at most -1.
\<close>

theorem segment_width_log2:
  "segment_width ex n =
     (let q = log 2 (2 powr (64 - 4 * real ex) / real n) in
      if n = 0 \<or> q \<le> - 1 then Inl UndefinedBehaviour
      else Inr (of_int (if q < 0 then 0 else \<lfloor>q\<rfloor>)))"
proof (cases "n = 0 \<or> 16 < ex")
  case True
  have "64 - 4 * real ex - log 2 (real n) \<le> - 1" if "16 < ex" "0 < n"
  proof -
    have "0 \<le> log 2 (real n)" using that(2) by simp
    moreover have "17 \<le> real ex" using that(1) by simp
    ultimately show ?thesis by linarith
  qed
  with True show ?thesis by (auto simp: segment_width_def Let_def log_divide)
next
  case False
  define k where "k = 64 - 4 * ex"
  define q where "q = log 2 (2 ^ k / real n)"
  have n: "0 < n" and k: "nat (64 - 4 * int ex) = k" "64 - 4 * real ex = real k"
    using False by (auto simp: k_def)
  have fl: "\<lfloor>q\<rfloor> = int k - int (ceil_log2 n)" unfolding q_def by (rule floor_log2_quotient [OF n])
  have "q \<le> - 1 \<longleftrightarrow> 2 ^ k / real n \<le> 2 powr (- 1)" using n by (simp add: q_def log_le_iff)
  also have "\<dots> \<longleftrightarrow> real (2 ^ (k + 1)) \<le> real n" using n by (simp add: powr_minus field_simps)
  also have "\<dots> \<longleftrightarrow> \<not> n < 2 ^ (k + 1)" unfolding of_nat_le_iff by (simp add: not_less)
  finally have low: "q \<le> - 1 \<longleftrightarrow> \<not> n < 2 ^ (k + 1)" .
  have "q < 0 \<longleftrightarrow> \<not> ceil_log2 n \<le> k" using fl by linarith
  then show ?thesis
    using n False low fl k
    by (auto simp: segment_width_def Let_def powr_realpow q_def [symmetric] ceil_log2_le
          simp flip: of_nat_diff)
qed

text \<open>
  C8: in every reachable state of a farm, across restarts, pauses and work changes, each of the
  four counters of the farm is the sum (modulo \<open>2 ^ 32\<close>) of that counter over the miners, the
  handlers of the strand and of the collect timer run without an exception, and no miner is
  suspended by a farm that is not paused.
\<close>

theorem farm_accounts:
  assumes "reach (\<lambda>f. \<exists>st ds r now. f = new_Farm st ds r now) (farm_step lib) f"
  shows "counters (getSolutions f) k = miners_total (fm_telemetry f) k \<and>
         fst (run_posted lib now f) = None \<and> fst (collectData rnd ec f) = None \<and>
         (\<forall>m \<in> set (fm_miners f). pauseTest PauseDueToFarmPaused m \<longrightarrow> fm_paused f)"
proof -
  note inv = farm.reach_inv [OF assms]
  then have "accounts_agree (fm_telemetry f)" and "list_all (miner_ok (fm_paused f)) (fm_miners f)"
    by (simp_all add: farm_inv_def)
  then show ?thesis
    using run_posted_total [OF inv, of lib now] collectData_total [OF inv, of rnd ec]
    by (simp add: accounts_agree_def getSolutions_def list_all_iff miner_ok_def)
qed

lemma sample_farm_reach:
  "reach (\<lambda>f. \<exists>st ds r now. f = new_Farm st ds r now) (farm_step lib) sample_farm"
  unfolding sample_farm_def
  by (rule reach_step, rule reach_init, blast, rule fs_start, rule prod.collapse [symmetric])

lemma farm_accounts_witness:
  "counters (getSolutions sample_farm) Accepted = miners_total (fm_telemetry sample_farm) Accepted"
  using farm_accounts [OF sample_farm_reach] by blast

text \<open>
  C26: with re-evaluation enabled, the strand hands a posted solution over to the pool only when
  the hash of its nonce is at most the boundary of its work, and then with the recomputed mix
  hash; a solution above the boundary is counted as failed for its miner and not handed over.
\<close>

theorem submitProofAsync_checked:
  assumes "\<not> fs_noEval (fm_settings f)" and "unat (sol_midx s) < length (tm_miners (fm_telemetry f))"
    and "r = EthashAux_eval lib (wp_epoch (sol_work s)) (wp_header (sol_work s)) (sol_nonce s)"
    and "length (res_value r) = 32" and "length (wp_boundary (sol_work s)) = 32"
    and "submitProofAsync lib now s f = (e, f')"
  shows "e = None \<and>
    (if be_val (res_value r) \<le> be_val (wp_boundary (sol_work s))
     then fm_found f' = fm_found f @ [s\<lparr>sol_mixHash := res_mixHash r\<rparr>] \<and> fm_telemetry f' = fm_telemetry f
     else fm_found f' = fm_found f \<and>
          counters (getSolutions f') Failed = counters (getSolutions f) Failed + 1 \<and>
          counters (getSolutions_miner f' (sol_midx s) now) Failed =
            counters (getSolutions_miner f (sol_midx s) now) Failed + 1)"
proof -
  have gt: "h_gt (res_value r) (wp_boundary (sol_work s)) \<longleftrightarrow>
      \<not> be_val (res_value r) \<le> be_val (wp_boundary (sol_work s))"
    using h_gt_iff [of "res_value r" "wp_boundary (sol_work s)"] assms(4,5) by auto
  show ?thesis
    using assms(1,2,6) unfolding submitProofAsync_def Let_def assms(3) [symmetric] gt
    by (auto simp: accountSolution_ok getSolutions_def getSolutions_miner_def counters_account vec_at_def)
qed

lemma sample_farm_telemetry: "length (tm_miners (fm_telemetry sample_farm)) = 2"
  by (simp add: sample_farm_def farm_start_def new_Farm_def shuffle_def start_device_def sample_device_def)

lemma submitProofAsync_checked_witness:
  "fst (submitProofAsync sample_lib 5 \<lparr>sol_nonce = 9, sol_mixHash = h256_zero, sol_work = sample_work,
     sol_tstamp = 0, sol_midx = 1\<rparr> sample_farm) = None"
proof -
  let ?s = "\<lparr>sol_nonce = 9, sol_mixHash = h256_zero, sol_work = sample_work, sol_tstamp = 0, sol_midx = 1\<rparr>"
  obtain e f' where r: "submitProofAsync sample_lib 5 ?s sample_farm = (e, f')" by fastforce
  have "\<not> fs_noEval (fm_settings sample_farm)"
    by (simp add: sample_farm_def farm_start_def new_Farm_def shuffle_def start_device_def sample_device_def)
  from submitProofAsync_checked [OF this _ refl _ _ r] r show ?thesis
    by (simp add: sample_farm_telemetry EthashAux_eval_def sample_lib_def sample_work_def Let_def)
qed

text \<open>
  an account for a miner index that does not exist throws \<open>out_of_range\<close>, after the farm's
  own counter has been incremented: the totals of the farm and of the miners differ from then on.
\<close>

theorem accountSolution_out_of_range:
  assumes "length (tm_miners (fm_telemetry f)) \<le> unat i"
    and "counters (getSolutions f) a = miners_total (fm_telemetry f) a"
  shows "fst (accountSolution i a now f) = Some OutOfRange \<and>
         counters (getSolutions (snd (accountSolution i a now f))) a \<noteq>
           miners_total (fm_telemetry (snd (accountSolution i a now f))) a"
  using assms by (simp add: accountSolution_error getSolutions_def counters_account miners_total_def)

lemma accountSolution_out_of_range_witness:
  "fst (accountSolution 7 Accepted 0 sample_farm) = Some OutOfRange"
proof -
  have "counters (getSolutions sample_farm) Accepted = miners_total (fm_telemetry sample_farm) Accepted"
    using farm.reach_inv [OF sample_farm_reach] by (simp add: farm_inv_def accounts_agree_def getSolutions_def)
  then show ?thesis
    using accountSolution_out_of_range [of sample_farm 7 Accepted 0] by (simp add: sample_farm_telemetry)
qed

end
