(* ===== verification/Sha3.thy ===== *)
theory Sha3
  imports CommonData
begin

unbundle bit_operations_syntax

text \<open>
  The SHA-3 implementation \<open>src/libethash-cpu/picosha3.h\<close>. The 5 by 5 array of lanes is a list
  of five lists of five words, and each step mapping is the loop of the source. The generator
  is a record with its buffer, the position in it, the lanes and the digest; \<open>rate_bytes\<close>,
  \<open>d_bytes\<close> and the padding type are template arguments of the class and fields of the record.
\<close>

section \<open>The permutation\<close>

type_synonym state_t = "u64 list list"

definition lane :: "state_t \<Rightarrow> nat \<Rightarrow> nat \<Rightarrow> u64" where
  "lane A x y = A ! x ! y"

definition set_lane :: "nat \<Rightarrow> nat \<Rightarrow> u64 \<Rightarrow> state_t \<Rightarrow> state_t" where
  "set_lane x y v A = A[x := (A ! x)[y := v]]"

text \<open>Two nested loops that assign every lane.\<close>

definition build_lanes :: "(nat \<Rightarrow> nat \<Rightarrow> u64) \<Rightarrow> state_t" where
  "build_lanes f = map (\<lambda>x. map (f x) [0..<5]) [0..<5]"

definition RC :: "u64 list" where
  "RC =
    [0x0000000000000001, 0x0000000000008082, 0x800000000000808A,
     0x8000000080008000, 0x000000000000808B, 0x0000000080000001,
     0x8000000080008081, 0x8000000000008009, 0x000000000000008A,
     0x0000000000000088, 0x0000000080008009, 0x000000008000000A,
     0x000000008000808B, 0x800000000000008B, 0x8000000000008089,
     0x8000000000008003, 0x8000000000008002, 0x8000000000000080,
     0x000000000000800A, 0x800000008000000A, 0x8000000080008081,
     0x8000000000008080, 0x0000000080000001, 0x8000000080008008]"

text \<open>\<open>v << offset | v >> (64 - offset)\<close>.\<close>

definition rot :: "nat \<Rightarrow> u64 \<Rightarrow> u64" where
  "rot offset v = push_bit offset v OR drop_bit (64 - offset) v"

definition theta :: "state_t \<Rightarrow> state_t" where
  "theta A =
     (let C = map (\<lambda>x. lane A x 0 XOR lane A x 1 XOR lane A x 2 XOR lane A x 3 XOR lane A x 4) [0..<5];
          D = [C ! 4 XOR rot 1 (C ! 1), C ! 0 XOR rot 1 (C ! 2), C ! 1 XOR rot 1 (C ! 3),
               C ! 2 XOR rot 1 (C ! 4), C ! 3 XOR rot 1 (C ! 0)]
      in build_lanes (\<lambda>x y. lane A x y XOR D ! x))"

text \<open>The loop of \<open>rho\<close> from turn \<open>t\<close> on, with \<open>n\<close> turns left.\<close>

definition rho_offset :: "nat \<Rightarrow> nat" where
  "rho_offset t = ((t + 1) * (t + 2) div 2) mod 64"

primrec rho_loop :: "nat \<Rightarrow> nat \<Rightarrow> nat \<Rightarrow> nat \<Rightarrow> state_t \<Rightarrow> state_t" where
  "rho_loop 0 t x y A = A"
| "rho_loop (Suc n) t x y A =
     rho_loop n (Suc t) y ((2 * x + 3 * y) mod 5)
       (set_lane x y (rot (rho_offset t) (lane A x y)) A)"

definition rho :: "state_t \<Rightarrow> state_t" where
  "rho A = rho_loop 24 0 1 0 A"

definition pi_step :: "state_t \<Rightarrow> state_t" where
  "pi_step A = build_lanes (\<lambda>x y. lane A ((x + 3 * y) mod 5) x)"

definition chi :: "state_t \<Rightarrow> state_t" where
  "chi A = build_lanes (\<lambda>x y.
     lane A x y XOR (NOT (lane A ((x + 1) mod 5) y) AND lane A ((x + 2) mod 5) y))"

definition iota :: "nat \<Rightarrow> state_t \<Rightarrow> state_t" where
  "iota round_index A = set_lane 0 0 (lane A 0 0 XOR RC ! round_index) A"

definition keccak_round :: "nat \<Rightarrow> state_t \<Rightarrow> state_t" where
  "keccak_round round_index A = iota round_index (chi (pi_step (rho (theta A))))"

definition keccak_p :: "state_t \<Rightarrow> state_t" where
  "keccak_p A = fold keccak_round [0..<24] A"

section \<open>Bytes in and out\<close>

fun next_pos :: "nat \<times> nat \<times> nat \<Rightarrow> nat \<times> nat \<times> nat" where
  "next_pos (x, y, i) =
     (if Suc i \<noteq> 8 then (x, y, Suc i)
      else if Suc x \<noteq> 5 then (Suc x, y, 0)
      else (0, Suc y, 0))"

fun absorb_from :: "nat \<times> nat \<times> nat \<Rightarrow> bytes \<Rightarrow> state_t \<Rightarrow> state_t" where
  "absorb_from (x, y, i) [] A = A"
| "absorb_from (x, y, i) (b # bs) A =
     (if y < 5
      then absorb_from (next_pos (x, y, i)) bs
             (set_lane x y (lane A x y XOR push_bit (i * 8) (ucast b)) A)
      else A)"

definition absorb :: "bytes \<Rightarrow> state_t \<Rightarrow> state_t" where
  "absorb bs A = absorb_from (0, 0, 0) bs A"

text \<open>
  The bytes written by \<open>squeeze\<close> into a range of \<open>n\<close> bytes, when \<open>r\<close> more may be read; byte \<open>i\<close>
  of a lane is the \<open>i\<close>-th in memory on a little-endian host.
\<close>

fun squeeze_from :: "nat \<times> nat \<times> nat \<Rightarrow> nat \<Rightarrow> nat \<Rightarrow> state_t \<Rightarrow> bytes" where
  "squeeze_from (x, y, i) (Suc n) (Suc r) A =
     (if y < 5
      then ucast (drop_bit (i * 8) (lane A x y)) # squeeze_from (next_pos (x, y, i)) n r A
      else [])"
| "squeeze_from (x, y, i) _ _ A = []"

definition squeeze :: "state_t \<Rightarrow> nat \<Rightarrow> nat \<Rightarrow> bytes" where
  "squeeze A n rate_bytes = squeeze_from (0, 0, 0) n rate_bytes A"

section \<open>The generator\<close>

datatype PaddingType = SHA | SHAKE

record HashGenerator =
  hg_rate_bytes :: nat
  hg_d_bytes :: nat
  hg_padding_type :: PaddingType
  hg_buffer :: bytes
  hg_buffer_pos :: nat
  hg_A :: state_t
  hg_hash :: bytes
  hg_is_finished :: bool

definition zero_lanes :: state_t where
  "zero_lanes = build_lanes (\<lambda>x y. 0)"

definition new_HashGenerator :: "nat \<Rightarrow> nat \<Rightarrow> PaddingType \<Rightarrow> HashGenerator" where
  "new_HashGenerator rate d p =
     \<lparr>hg_rate_bytes = rate, hg_d_bytes = d, hg_padding_type = p, hg_buffer = replicate rate 0,
      hg_buffer_pos = 0, hg_A = zero_lanes, hg_hash = replicate d 0, hg_is_finished = False\<rparr>"

definition clear_buffer :: "HashGenerator \<Rightarrow> HashGenerator" where
  "clear_buffer g = g\<lparr>hg_buffer := replicate (hg_rate_bytes g) 0, hg_buffer_pos := 0\<rparr>"

definition clear_state :: "HashGenerator \<Rightarrow> HashGenerator" where
  "clear_state g = g\<lparr>hg_A := zero_lanes\<rparr>"

definition clear :: "HashGenerator \<Rightarrow> HashGenerator" where
  "clear g = (clear_buffer (clear_state g))\<lparr>hg_is_finished := False\<rparr>"

definition process_byte :: "byte \<Rightarrow> HashGenerator \<Rightarrow> HashGenerator" where
  "process_byte b g =
     (let g1 = g\<lparr>hg_buffer := (hg_buffer g)[hg_buffer_pos g := b], hg_buffer_pos := Suc (hg_buffer_pos g)\<rparr>
      in if hg_buffer_pos g1 = hg_rate_bytes g1
         then clear_buffer (g1\<lparr>hg_A := keccak_p (absorb (hg_buffer g1) (hg_A g1))\<rparr>)
         else g1)"

definition process :: "bytes \<Rightarrow> HashGenerator \<Rightarrow> HashGenerator" where
  "process bs g = fold process_byte bs g"

text \<open>
  \<open>q\<close> is \<open>buffer_.size() - static_cast<size_t>(distance(buffer_pos_, buffer_.begin()))\<close>; the
  distance is negative or zero, so \<open>q\<close> is the size plus the position.
\<close>

definition padding_q :: "HashGenerator \<Rightarrow> u64" where
  "padding_q g = of_nat (hg_rate_bytes g) - word_of_int (- int (hg_buffer_pos g))"

definition add_padding :: "HashGenerator \<Rightarrow> HashGenerator" where
  "add_padding g =
     (let (one, first) = (case hg_padding_type g of SHA \<Rightarrow> (0x86, 0x06) | SHAKE \<Rightarrow> (0x9F, 0x1F)) in
      if padding_q g = 1
      then g\<lparr>hg_buffer := (hg_buffer g)[hg_buffer_pos g := one]\<rparr>
      else g\<lparr>hg_buffer := ((hg_buffer g)[hg_buffer_pos g := first])[hg_rate_bytes g - 1 := 0x80]\<rparr>)"

text \<open>
  \<open>squeeze_\<close> fills the digest of \<open>n\<close> remaining bytes; with a positive rate of at most 200 bytes
  every turn writes at least one byte.
\<close>

function squeeze_loop :: "nat \<Rightarrow> nat \<Rightarrow> state_t \<Rightarrow> bytes" where
  "squeeze_loop rate n A =
     (let out = squeeze A n rate in
      if length out < n \<and> out \<noteq> [] then out @ squeeze_loop rate (n - length out) (keccak_p A) else out)"
  by auto
termination
  by (relation "measure (\<lambda>(rate, n, A). n)") auto

declare squeeze_loop.simps [simp del]

definition finish :: "HashGenerator \<Rightarrow> HashGenerator" where
  "finish g =
     (let g1 = add_padding g;
          g2 = g1\<lparr>hg_A := keccak_p (absorb (hg_buffer g1) (hg_A g1))\<rparr>
      in g2\<lparr>hg_hash := squeeze_loop (hg_rate_bytes g2) (hg_d_bytes g2) (hg_A g2), hg_is_finished := True\<rparr>)"

definition get_hash_bytes :: "HashGenerator \<Rightarrow> exn + bytes" where
  "get_hash_bytes g =
     (if \<not> hg_is_finished g then Inl (RuntimeError ''Not finished!'') else Inr (hg_hash g))"

text \<open>\<open>operator()\<close>: the digest and the generator it leaves.\<close>

definition hash_call :: "bytes \<Rightarrow> HashGenerator \<Rightarrow> bytes \<times> HashGenerator" where
  "hash_call bs g = (let g1 = finish (process bs g) in (hg_hash g1, clear g1))"

definition get_sha3_generator :: "nat \<Rightarrow> HashGenerator" where
  "get_sha3_generator d_bits =
     (let d = d_bits div 8 in new_HashGenerator (200 - d * 2) d SHA)"

definition get_shake_generator :: "nat \<Rightarrow> nat \<Rightarrow> HashGenerator" where
  "get_shake_generator strength_bits d_bits =
     new_HashGenerator (200 - strength_bits div 8 * 2) (d_bits div 8) SHAKE"

section \<open>The sponge construction\<close>

text \<open>
  The specification: the padded message is cut into blocks of the rate, each block is absorbed
  and permuted, and the digest is squeezed from the final lanes.
\<close>

definition blocks :: "nat \<Rightarrow> 'a list \<Rightarrow> 'a list list" where
  "blocks r m = map (\<lambda>i. take r (drop (i * r) m)) [0..<length m div r]"

definition rest :: "nat \<Rightarrow> 'a list \<Rightarrow> 'a list" where
  "rest r m = drop (length m div r * r) m"

definition absorb_block :: "bytes \<Rightarrow> state_t \<Rightarrow> state_t" where
  "absorb_block b A = keccak_p (absorb b A)"

text \<open>
  The specification shares the permutation \<open>keccak_p\<close> and the layout of the state with the code: what
  is compared is the buffering, the padding and the order of absorbing and squeezing.
\<close>

definition sponge :: "nat \<Rightarrow> nat \<Rightarrow> bytes \<Rightarrow> bytes" where
  "sponge r d m = squeeze_loop r d (fold absorb_block (blocks r m) zero_lanes)"

text \<open>\<open>pad10*1\<close> with the domain bits of SHA-3, in bytes.\<close>

definition sha3_pad :: "nat \<Rightarrow> bytes \<Rightarrow> bytes" where
  "sha3_pad r m =
     (let q = r - length m mod r in
      m @ (if q = 1 then [0x86] else 0x06 # replicate (q - 2) 0 @ [0x80]))"

text \<open>The padding the code applies.\<close>

definition code_pad :: "nat \<Rightarrow> bytes \<Rightarrow> bytes" where
  "code_pad r m = (let q = r - length m mod r in
      m @ (if q = 1 then [0x80] else 0x06 # replicate (q - 2) 0 @ [0x80]))"

lemma length_rest [simp]: "length (rest r m) = length m mod r"
  by (simp add: rest_def minus_div_mult_eq_mod)

lemma blocks_extend:
  assumes "length m div r = length (m @ xs) div r"
  shows "blocks r (m @ xs) = blocks r m"
proof -
  have "take r (drop (i * r) (m @ xs)) = take r (drop (i * r) m)" if "i < length m div r" for i
  proof -
    have "Suc i * r \<le> length m div r * r" using that by (intro mult_le_mono1) simp
    also have "\<dots> \<le> length m" by simp
    finally show ?thesis by simp
  qed
  then show ?thesis using assms by (simp add: blocks_def)
qed

lemma blocks_full:
  assumes "length (rest r m @ xs) = r" and "0 < r"
  shows "blocks r (m @ xs) = blocks r m @ [rest r m @ xs]" and "rest r (m @ xs) = []"
proof -
  have xs: "length xs = r - length m mod r" and less: "length m mod r < r"
    using assms by simp_all
  have "length (m @ xs) = (length m div r + 1) * r"
    using xs less div_mult_mod_eq [of "length m" r] unfolding length_append distrib_right by linarith
  then have d: "length (m @ xs) div r = Suc (length m div r)" using assms(2) by simp
  have "take r (drop (i * r) (m @ xs)) = take r (drop (i * r) m)" if "i < length m div r" for i
  proof -
    have "Suc i * r \<le> length m div r * r" using that by (intro mult_le_mono1) simp
    also have "\<dots> \<le> length m" by simp
    finally show ?thesis by simp
  qed
  moreover have "take r (drop (length m div r * r) (m @ xs)) = rest r m @ xs"
    using assms(1) by (simp add: rest_def)
  ultimately show "blocks r (m @ xs) = blocks r m @ [rest r m @ xs]"
    unfolding blocks_def d by simp
  show "rest r (m @ xs) = []"
    using \<open>length (m @ xs) = (length m div r + 1) * r\<close> assms(2) d by (simp add: rest_def)
qed

lemma rest_extend:
  assumes "length m div r = length (m @ xs) div r"
  shows "rest r (m @ xs) = rest r m @ xs"
  unfolding rest_def assms [symmetric] by simp

section \<open>The generator holds a message\<close>

definition holds :: "nat \<Rightarrow> bytes \<Rightarrow> HashGenerator \<Rightarrow> bool" where
  "holds r m g \<longleftrightarrow>
     hg_rate_bytes g = r \<and> hg_A g = fold absorb_block (blocks r m) zero_lanes \<and>
     hg_buffer_pos g = length m mod r \<and>
     hg_buffer g = rest r m @ replicate (r - length m mod r) 0"

lemma holds_new: "0 < r \<Longrightarrow> holds r [] (new_HashGenerator r d p)"
  by (simp add: holds_def new_HashGenerator_def blocks_def rest_def)

lemma process_byte_holds:
  assumes "holds r m g" and "0 < r"
  shows "holds r (m @ [b]) (process_byte b g)"
proof -
  let ?k = "length m mod r"
  have k: "?k < r" using assms(2) by simp
  obtain n where n: "r - ?k = Suc n" using k by (metis Suc_diff_Suc)
  have buf: "(hg_buffer g)[hg_buffer_pos g := b] = rest r m @ b # replicate n 0"
    using assms(1) n by (simp add: holds_def list_update_append)
  show ?thesis
  proof (cases "Suc ?k = r")
    case True
    then have "n = 0" using n by simp
    have "length (rest r m @ [b]) = r" using True by simp
    note full = blocks_full [OF this assms(2)]
    have "Suc (length m) mod r = 0" using True by (simp add: mod_Suc)
    then show ?thesis
      using assms(1) True buf \<open>n = 0\<close> full
      by (simp add: process_byte_def holds_def Let_def clear_buffer_def absorb_block_def)
  next
    case False
    then have d: "length m div r = length (m @ [b]) div r" and m: "Suc (length m) mod r = Suc ?k"
      by (simp_all add: div_Suc mod_Suc)
    have "r - Suc ?k = n" using n by simp
    then show ?thesis
      using assms(1) False buf m blocks_extend [OF d] rest_extend [OF d]
      by (simp add: process_byte_def holds_def Let_def)
  qed
qed

lemma process_holds: "holds r m g \<Longrightarrow> 0 < r \<Longrightarrow> holds r (m @ bs) (process bs g)"
proof (induction bs arbitrary: m g)
  case (Cons b bs)
  from Cons.IH [OF process_byte_holds [OF Cons.prems]] Cons.prems show ?case
    by (simp add: process_def)
qed (simp add: process_def)

lemma process_keeps:
  "hg_rate_bytes (process bs g) = hg_rate_bytes g" "hg_d_bytes (process bs g) = hg_d_bytes g"
  "hg_padding_type (process bs g) = hg_padding_type g"
  by (induction bs arbitrary: g)
     (simp_all add: process_def process_byte_def Let_def clear_buffer_def)

text \<open>The test for a single free byte never succeeds.\<close>

lemma padding_q_never_1:
  assumes "2 \<le> hg_rate_bytes g" and "hg_rate_bytes g \<le> 200" and "hg_buffer_pos g < hg_rate_bytes g"
  shows "padding_q g \<noteq> 1"
proof
  have q: "padding_q g = of_nat (hg_rate_bytes g + hg_buffer_pos g)"
    by (simp add: padding_q_def)
  assume "padding_q g = 1"
  then have "unat (of_nat (hg_rate_bytes g + hg_buffer_pos g) :: u64) = 1" using q by simp
  moreover have "unat (of_nat (hg_rate_bytes g + hg_buffer_pos g) :: u64) = hg_rate_bytes g + hg_buffer_pos g"
    using assms by (intro unat_of_nat_u64) simp
  ultimately show False using assms(1) by simp
qed

lemma finish_hash:
  assumes "holds r m g" and "hg_padding_type g = SHA" and "2 \<le> r" and "r \<le> 200"
  shows "hg_hash (finish g) = sponge r (hg_d_bytes g) (code_pad r m)"
proof -
  let ?k = "length m mod r"
  have k: "?k < r" using assms(3) by simp
  have q: "padding_q g \<noteq> 1"
    using assms k by (intro padding_q_never_1) (simp_all add: holds_def)
  define tail where "tail = (if r - ?k = 1 then [0x80] else 0x06 # replicate (r - ?k - 2) 0 @ [0x80 :: byte])"
  have pad: "code_pad r m = m @ tail" by (simp add: code_pad_def tail_def Let_def)
  obtain n where n: "r - ?k = Suc n" using k by (metis Suc_diff_Suc)
  have len: "length (rest r m @ tail) = r" using n k by (auto simp: tail_def)
  have "hg_buffer (add_padding g) =
        (rest r m @ (0x06 # replicate n 0))[r - 1 := 0x80]"
    using assms q n by (simp add: add_padding_def holds_def Let_def list_update_append)
  also have "\<dots> = rest r m @ (0x06 # replicate n 0)[n := 0x80]"
  proof -
    have "\<not> r - 1 < length (rest r m)" and "r - 1 - length (rest r m) = n" using n by simp_all
    then show ?thesis unfolding list_update_append by simp
  qed
  also have "(0x06 # replicate n 0)[n := 0x80] = tail"
  proof (cases n)
    case (Suc j)
    have "(replicate (Suc j) 0)[j := 0x80] = replicate j 0 @ [0x80 :: byte]"
      by (induction j) simp_all
    then show ?thesis using Suc n by (simp add: tail_def)
  qed (use n in \<open>simp add: tail_def\<close>)
  finally have buf: "hg_buffer (add_padding g) = rest r m @ tail" .
  have "blocks r (m @ tail) = blocks r m @ [rest r m @ tail]"
    using blocks_full(1) [OF len] assms(3) by simp
  then show ?thesis
    using assms buf pad
    by (simp add: finish_def Let_def sponge_def holds_def add_padding_def absorb_block_def
          split: PaddingType.splits if_splits)
qed

lemma hash_call_sponge:
  assumes "2 \<le> r" and "r \<le> 200"
  shows "fst (hash_call m (new_HashGenerator r d SHA)) = sponge r d (code_pad r m)"
proof -
  have "holds r m (process m (new_HashGenerator r d SHA))"
    using process_holds [OF holds_new [of r d SHA], of m] assms by simp
  from finish_hash [OF this _ assms] show ?thesis
    by (simp add: hash_call_def Let_def process_keeps, simp add: new_HashGenerator_def)
qed

text \<open>A generator that has produced a digest is ready for the next message.\<close>

lemma hash_call_reusable:
  "(snd (hash_call m g))\<lparr>hg_hash := replicate (hg_d_bytes g) 0\<rparr> =
     new_HashGenerator (hg_rate_bytes g) (hg_d_bytes g) (hg_padding_type g)"
  by (simp add: hash_call_def Let_def clear_def clear_buffer_def clear_state_def finish_def
        add_padding_def new_HashGenerator_def process_keeps split: prod.splits)

section \<open>The rotation offsets\<close>

text \<open>The offsets of the standard, indexed by \<open>x\<close> and \<open>y\<close>.\<close>

definition rho_table :: "nat list list" where
  "rho_table = [[0, 36, 3, 41, 18], [1, 44, 10, 45, 2], [62, 6, 43, 15, 61],
                [28, 55, 25, 21, 56], [27, 20, 39, 8, 14]]"

definition lanes_wf :: "state_t \<Rightarrow> bool" where
  "lanes_wf A \<longleftrightarrow> length A = 5 \<and> list_all (\<lambda>row. length row = 5) A"

lemma rot_0 [simp]: "rot 0 v = v"
  by (rule bit_word_eqI) (simp add: rot_def bit_simps)

lemma length5: "length xs = 5 \<longleftrightarrow> (\<exists>a b c d e. xs = [a, b, c, d, e])"
  by (simp add: length_Suc_conv eval_nat_numeral) blast

text \<open>A rule that evaluates the loop on numerals.\<close>

lemma rho_loop_numeral:
  "rho_loop (numeral k) t x y A =
     rho_loop (pred_numeral k) (t + 1) y ((2 * x + 3 * y) mod 5)
       (set_lane x y (rot (rho_offset t) (lane A x y)) A)"
  by (subst numeral_eq_Suc) simp

lemma upt5: "[0..<5] = [0, 1, 2, 3, 4]"
  by (simp add: upt_rec)

lemma rho_standard:
  assumes "lanes_wf A"
  shows "rho A = build_lanes (\<lambda>x y. rot (rho_table ! x ! y) (lane A x y))"
proof -
  obtain r0 r1 r2 r3 r4 where A: "A = [r0, r1, r2, r3, r4]"
    using assms by (auto simp: lanes_wf_def length5)
  have len: "length r0 = 5" "length r1 = 5" "length r2 = 5" "length r3 = 5" "length r4 = 5"
    using assms A by (simp_all add: lanes_wf_def)
  obtain a0 a1 a2 a3 a4 where "r0 = [a0, a1, a2, a3, a4]" using len(1) unfolding length5 by blast
  moreover obtain b0 b1 b2 b3 b4 where "r1 = [b0, b1, b2, b3, b4]" using len(2) unfolding length5 by blast
  moreover obtain c0 c1 c2 c3 c4 where "r2 = [c0, c1, c2, c3, c4]" using len(3) unfolding length5 by blast
  moreover obtain d0 d1 d2 d3 d4 where "r3 = [d0, d1, d2, d3, d4]" using len(4) unfolding length5 by blast
  moreover obtain e0 e1 e2 e3 e4 where "r4 = [e0, e1, e2, e3, e4]" using len(5) unfolding length5 by blast
  ultimately show ?thesis
    unfolding A
    by (simp add: rho_def rho_loop_numeral set_lane_def lane_def rho_offset_def build_lanes_def
          rho_table_def upt5)
qed

section \<open>Properties\<close>

lemma code_pad_standard: "r - length m mod r \<noteq> 1 \<Longrightarrow> code_pad r m = sha3_pad r m"
  by (simp add: code_pad_def sha3_pad_def)

lemma sha3_rate:
  assumes "d_bits \<in> {224, 256, 384, 512}"
  shows "2 \<le> 200 - d_bits div 8 * 2" and "200 - d_bits div 8 * 2 \<le> (200 :: nat)"
  using assms by auto

text \<open>
  C33: the generator computes the sponge of SHA-3. For each digest size the class admits, hashing
  a message, in one call or byte by byte through \<open>process\<close>, gives the digest squeezed after the
  blocks of the padded message have been absorbed, whenever the message does not leave exactly
  one free byte in its last block; and the generator is then as good as new.
\<close>

theorem sha3_is_sponge:
  assumes "d_bits \<in> {224, 256, 384, 512}" and "r = 200 - d_bits div 8 * 2"
    and "length m mod r \<noteq> r - 1"
  shows "fst (hash_call m (get_sha3_generator d_bits)) = sponge r (d_bits div 8) (sha3_pad r m) \<and>
    hash_call (m @ m') (get_sha3_generator d_bits) =
      (let g = finish (process m' (process m (get_sha3_generator d_bits))) in (hg_hash g, clear g)) \<and>
    (snd (hash_call m (get_sha3_generator d_bits)))\<lparr>hg_hash := replicate (d_bits div 8) 0\<rparr> =
      get_sha3_generator d_bits"
proof -
  have "fst (hash_call m (get_sha3_generator d_bits)) = sponge r (d_bits div 8) (code_pad r m)"
    using hash_call_sponge sha3_rate [OF assms(1)] by (simp add: get_sha3_generator_def assms(2) Let_def)
  moreover have "r - length m mod r \<noteq> 1"
    using assms(3) sha3_rate(1) [OF assms(1)] mod_less_divisor [of r "length m"] unfolding assms(2) by linarith
  moreover have "hg_d_bytes (get_sha3_generator d_bits) = d_bits div 8"
    by (simp add: get_sha3_generator_def new_HashGenerator_def Let_def)
  ultimately show ?thesis
    using code_pad_standard hash_call_reusable [where m = m and g = "get_sha3_generator d_bits"]
    by (simp add: hash_call_def process_def)
       (simp add: get_sha3_generator_def new_HashGenerator_def Let_def)
qed

lemma sha3_is_sponge_witness:
  "fst (hash_call (replicate 40 7) (get_sha3_generator 512)) = sponge 72 64 (sha3_pad 72 (replicate 40 7))"
  using sha3_is_sponge [THEN conjunct1, of 512 72 "replicate 40 7"] by simp

text \<open>
  C40: the padding is wrong when one byte of the last block is free. The code computes the free
  space with the arguments of \<open>distance\<close> swapped, so the branch for a single free byte is never
  taken: the digest is that of the message followed by the byte \<open>80\<close>, where SHA-3 pads with \<open>86\<close>.
\<close>

theorem sha3_last_byte_padding:
  assumes "d_bits \<in> {224, 256, 384, 512}" and "r = 200 - d_bits div 8 * 2"
    and "length m mod r = r - 1"
  shows "fst (hash_call m (get_sha3_generator d_bits)) = sponge r (d_bits div 8) (m @ [0x80]) \<and>
         sha3_pad r m = m @ [0x86]"
proof -
  have "fst (hash_call m (get_sha3_generator d_bits)) = sponge r (d_bits div 8) (code_pad r m)"
    using hash_call_sponge sha3_rate [OF assms(1)] by (simp add: get_sha3_generator_def assms(2) Let_def)
  moreover have "r - length m mod r = 1" using assms(3) sha3_rate(1) [OF assms(1)] assms(2) by linarith
  ultimately show ?thesis by (simp add: code_pad_def sha3_pad_def)
qed

lemma sha3_last_byte_padding_witness:
  "fst (hash_call (replicate 71 7) (get_sha3_generator 512)) = sponge 72 64 (replicate 71 7 @ [0x80])"
  using sha3_last_byte_padding [of 512 72 "replicate 71 7"] by simp

text \<open>
  the loop of \<open>rho\<close>, which walks over the lanes computing each offset, rotates every lane by
  the offset the standard tabulates for it.
\<close>

theorem rho_rotations:
  assumes "lanes_wf A"
  shows "rho A = build_lanes (\<lambda>x y. rot (rho_table ! x ! y) (lane A x y))"
  using rho_standard [OF assms] .

lemma rho_rotations_witness:
  "rho zero_lanes = build_lanes (\<lambda>x y. rot (rho_table ! x ! y) (lane zero_lanes x y))"
  using rho_rotations [of zero_lanes] by (simp add: lanes_wf_def zero_lanes_def build_lanes_def upt5)

end
