(* ===== verification/CPUMiner.thy ===== *)
theory CPUMiner
  imports Farm Sha3
begin

text \<open>
  The CPU miner (\<open>src/libethash-cpu/CPUMiner.cpp\<close>, \<open>src/libethash-cpu/endian.hpp\<close>): the test of
  a hash against the boundary, the search over a range of nonces, the main loop of the miner's
  thread, the division of the RandomY dataset among threads and the enumeration of devices. The
  RandomY library is the function \<open>rx\<close> from a seed to the 32 bytes of its hash. Hosts are
  little-endian, as in the first half of \<open>endian.hpp\<close>.
\<close>

section \<open>Endianness and comparison\<close>

definition le_uint64 :: "u64 \<Rightarrow> u64" where
  "le_uint64 x = x"

text \<open>\<open>bswap64\<close>.\<close>

definition be_uint64 :: "u64 \<Rightarrow> u64" where
  "be_uint64 x = fromBigEndian (rev (toBigEndian 8 (unat x)))"

text \<open>The memory of a 64-bit word, as \<open>memcpy\<close> reads it.\<close>

definition memory64 :: "u64 \<Rightarrow> bytes" where
  "memory64 x = rev (toBigEndian 8 (unat x))"

fun less_or_equal_loop :: "nat list \<Rightarrow> bytes \<Rightarrow> bytes \<Rightarrow> bool" where
  "less_or_equal_loop [] a b = True"
| "less_or_equal_loop (i # is) a b =
     (if be_uint64 (le_word64 a i) > be_uint64 (le_word64 b i) then False
      else if be_uint64 (le_word64 a i) < be_uint64 (le_word64 b i) then True
      else less_or_equal_loop is a b)"

definition is_less_or_equal :: "bytes \<Rightarrow> bytes \<Rightarrow> bool" where
  "is_less_or_equal a b = less_or_equal_loop [0..<4] a b"

definition hex_chars :: string where
  "hex_chars = ''0123456789abcdef''"

definition to_hex :: "bytes \<Rightarrow> string" where
  "to_hex h = concat (map (\<lambda>b. [hex_chars ! unat (drop_bit 4 b), hex_chars ! unat (and b 0xf)]) h)"

section \<open>Search\<close>

abbreviation blocksize :: nat where
  "blocksize \<equiv> 30"

text \<open>The hash of one nonce: RandomY of the SHA-3 digest of header and nonce.\<close>

definition final_hash ::
  "('c, 'z) ethash_lib_scheme \<Rightarrow> (bytes \<Rightarrow> bytes) \<Rightarrow> WorkPackage \<Rightarrow> u64 \<Rightarrow> bytes" where
  "final_hash lib rx w n =
     (let header = et_hash256_from_bytes lib (wp_header w);
          twisted = le_uint64 n;
          init_data = header @ memory64 twisted;
          seed = fst (hash_call init_data (get_sha3_generator 512))
      in et_hash256_from_bytes lib (rx seed))"

lemma unat_plus_1_less:
  fixes n e :: u64
  assumes "n < e"
  shows "unat (n + 1) = Suc (unat n)"
proof -
  have "unat e < 2 ^ LENGTH(64)" by (rule unsigned_less)
  then have "Suc (unat n) < 2 ^ 64" using assms by (simp add: word_less_nat_alt)
  then show ?thesis by (simp add: unat_word_ariths)
qed

text \<open>The nonces the inner \<open>for\<close> loop goes through.\<close>

function block_nonces :: "u64 \<Rightarrow> u64 \<Rightarrow> u64 list" where
  "block_nonces n end_nonce = (if n < end_nonce then n # block_nonces (n + 1) end_nonce else [])"
  by auto
termination
  by (relation "measure (\<lambda>(n, e). unat e - unat n)")
     (auto simp: unat_plus_1_less word_less_nat_alt intro!: diff_less_mono2)

declare block_nonces.simps [simp del]

text \<open>What one turn of the outer loop submits; \<open>now\<close> stamps the solutions.\<close>

definition block_solutions ::
  "('c, 'z) ethash_lib_scheme \<Rightarrow> (bytes \<Rightarrow> bytes) \<Rightarrow> u32 \<Rightarrow> nat \<Rightarrow> WorkPackage \<Rightarrow> u64 \<Rightarrow> Solution list" where
  "block_solutions lib rx index now w nonce =
     (let boundary = et_hash256_from_bytes lib (wp_boundary w);
          end_nonce = nonce + of_nat blocksize
      in map (\<lambda>n. \<lparr>sol_nonce = n, sol_mixHash = final_hash lib rx w n, sol_work = w,
                   sol_tstamp = now, sol_midx = index\<rparr>)
           (filter (\<lambda>n. is_less_or_equal (final_hash lib rx w n) boundary) (block_nonces nonce end_nonce)))"

text \<open>
  What the search loop sees at one turn: whether new work arrived and whether the worker should
  stop, with the time at which the block is done.
\<close>

record Tick =
  tk_new_work :: bool
  tk_stop :: bool
  tk_now :: nat

text \<open>
  The search over the turns of a list. The result says whether the loop was left, and gives the
  submitted solutions, the nonce reached and the miner.
\<close>

fun search_loop :: "('c, 'z) ethash_lib_scheme \<Rightarrow> (bytes \<Rightarrow> bytes) \<Rightarrow> (real \<Rightarrow> real) \<Rightarrow> WorkPackage \<Rightarrow>
    Tick list \<Rightarrow> u64 \<Rightarrow> Miner \<Rightarrow> bool \<times> Solution list \<times> u64 \<times> Miner" where
  "search_loop lib rx rnd w [] nonce m = (False, [], nonce, m)"
| "search_loop lib rx rnd w (t # ts) nonce m =
     (if mi_new_work m \<or> tk_new_work t then (True, [], nonce, m\<lparr>mi_new_work := False\<rparr>)
      else if tk_stop t then (True, [], nonce, m)
      else let sols = block_solutions lib rx (mi_index m) (tk_now t) w nonce;
               (left, sols', nonce', m') =
                 search_loop lib rx rnd w ts (nonce + of_nat blocksize)
                   (updateHashRate rnd (tk_now t) (of_nat blocksize) 1 m)
           in (left, sols @ sols', nonce', m'))"

definition search :: "('c, 'z) ethash_lib_scheme \<Rightarrow> (bytes \<Rightarrow> bytes) \<Rightarrow> (real \<Rightarrow> real) \<Rightarrow> WorkPackage \<Rightarrow>
    Tick list \<Rightarrow> Miner \<Rightarrow> bool \<times> Solution list \<times> u64 \<times> Miner" where
  "search lib rx rnd w ts m =
     (if mi_vm m then search_loop lib rx rnd w ts (wp_startNonce w) m
      else (True, [], wp_startNonce w, m))"

section \<open>The main loop\<close>

text \<open>
  Where the miner's thread is in \<open>workLoop\<close>: at the test of its loop, in \<open>initEpoch\<close> for a work
  package, at the test of the loop of \<open>search\<close> or in the block of nonces after it, or outside.
  The two loops share nothing but the miner with other threads, so each part is one step.
\<close>

datatype wl_phase =
    WL_loop
  | WL_init WorkPackage
  | WL_search WorkPackage u64
  | WL_block WorkPackage u64
  | WL_left "exn option"

text \<open>
  A miner with its thread. \<open>mt_current\<close> is the local variable \<open>current\<close>; \<open>mt_kick\<close> says that the
  owner is in \<open>setWork\<close> or \<open>pause\<close> before their last statement, the call of \<open>kick_miner\<close>. The epochs
  initialised since \<open>workLoop\<close> was entered and the submitted solutions are recorded.
\<close>

record MinerThread =
  mt_miner :: Miner
  mt_kick :: bool
  mt_dag :: DagLoad
  mt_phase :: wl_phase
  mt_current :: WorkPackage
  mt_inits :: "int list"
  mt_submitted :: "Solution list"

definition mt_stop :: "MinerThread \<Rightarrow> bool" where
  "mt_stop t = shouldStop (m_state (mi_worker (mt_miner t)))"

text \<open>One turn of the loop of \<open>workLoop\<close>, up to \<open>initEpoch()\<close> or \<open>search(w)\<close>.\<close>

definition workLoop_turn :: "MinerThread \<Rightarrow> MinerThread" where
  "workLoop_turn t =
     (if mt_stop t then t\<lparr>mt_phase := WL_left None\<rparr>
      else let w = mi_work (mt_miner t) in
        if \<not> wp_valid w then t
        else if wp_algo w = ''ethash''
        then (if wp_epoch (mt_current t) \<noteq> wp_epoch w then t\<lparr>mt_phase := WL_init w\<rparr>
              else t\<lparr>mt_current := w, mt_phase := WL_search w (wp_startNonce w)\<rparr>)
        else t\<lparr>mt_phase := WL_left (Some (RuntimeError (''Algo : '' @ wp_algo w @ '' not yet implemented'')))\<rparr>)"

text \<open>\<open>initEpoch()\<close> at one test of its waiting loop, and what \<open>workLoop\<close> does with the result.\<close>

definition workLoop_init :: "WorkPackage \<Rightarrow> MinerThread \<Rightarrow> MinerThread" where
  "workLoop_init w t =
     (case initEpoch (mt_stop t) (mt_miner t) (mt_dag t) of
        None \<Rightarrow> t
      | Some (ok, d) \<Rightarrow>
          if \<not> ok then t\<lparr>mt_dag := d, mt_phase := WL_left None\<rparr>
          else t\<lparr>mt_dag := d, mt_inits := mt_inits t @ [wp_epoch w], mt_current := w, mt_phase := WL_loop\<rparr>)"

text \<open>The loop of \<open>search\<close>: the tests at its head, and the block of nonces with the hash rate.\<close>

definition search_test :: "WorkPackage \<Rightarrow> u64 \<Rightarrow> MinerThread \<Rightarrow> MinerThread" where
  "search_test w nonce t =
     (if \<not> mi_vm (mt_miner t) then t\<lparr>mt_phase := WL_loop\<rparr>
      else if mi_new_work (mt_miner t) then t\<lparr>mt_miner := (mt_miner t)\<lparr>mi_new_work := False\<rparr>, mt_phase := WL_loop\<rparr>
      else if mt_stop t then t\<lparr>mt_phase := WL_loop\<rparr>
      else t\<lparr>mt_phase := WL_block w nonce\<rparr>)"

definition search_block ::
  "('c, 'z) ethash_lib_scheme \<Rightarrow> (bytes \<Rightarrow> bytes) \<Rightarrow> (real \<Rightarrow> real) \<Rightarrow> nat \<Rightarrow> WorkPackage \<Rightarrow> u64 \<Rightarrow> MinerThread \<Rightarrow> MinerThread"
where
  "search_block lib rx rnd now w nonce t =
     t\<lparr>mt_submitted := mt_submitted t @ block_solutions lib rx (mi_index (mt_miner t)) now w nonce,
       mt_miner := updateHashRate rnd now (of_nat blocksize) 1 (mt_miner t),
       mt_phase := WL_search w (nonce + of_nat blocksize)\<rparr>"

definition workLoop_step ::
  "('c, 'z) ethash_lib_scheme \<Rightarrow> (bytes \<Rightarrow> bytes) \<Rightarrow> (real \<Rightarrow> real) \<Rightarrow> nat \<Rightarrow> MinerThread \<Rightarrow> MinerThread" where
  "workLoop_step lib rx rnd now t =
     (case mt_phase t of
        WL_loop \<Rightarrow> workLoop_turn t
      | WL_init w \<Rightarrow> workLoop_init w t
      | WL_search w nonce \<Rightarrow> search_test w nonce t
      | WL_block w nonce \<Rightarrow> search_block lib rx rnd now w nonce t
      | WL_left e \<Rightarrow> t)"

text \<open>The beginning of \<open>workLoop\<close>; \<open>initDevice()\<close> always succeeds.\<close>

definition workLoop_enter :: "MinerThread \<Rightarrow> MinerThread" where
  "workLoop_enter t = t\<lparr>mt_phase := WL_loop, mt_current := new_WorkPackage\<lparr>wp_header := h256_zero\<rparr>, mt_inits := []\<rparr>"


section \<open>The RandomY dataset\<close>

text \<open>
  The ranges \<open>(startItem, itemCount)\<close> the threads initialise: \<open>k\<close> threads are still to be started,
  the last one also takes the remainder.
\<close>

fun dataset_loop :: "nat \<Rightarrow> u32 \<Rightarrow> u32 \<Rightarrow> u32 \<Rightarrow> (u32 \<times> u32) list" where
  "dataset_loop 0 perThread remainder startItem = []"
| "dataset_loop (Suc k) perThread remainder startItem =
     (let count = perThread + (if k = 0 then remainder else 0)
      in (startItem, count) # dataset_loop k perThread remainder (startItem + count))"

definition dataset_ranges :: "u32 \<Rightarrow> u32 \<Rightarrow> (u32 \<times> u32) list" where
  "dataset_ranges datasetItemCount initThreadCount =
     (if initThreadCount > 1
      then dataset_loop (unat initThreadCount) (datasetItemCount div initThreadCount)
             (datasetItemCount mod initThreadCount) 0
      else [(0, datasetItemCount)])"

section \<open>Devices\<close>

text \<open>\<open>DeviceDescriptor()\<close>: the members without initialiser take the values \<open>mem\<close> and \<open>num\<close>.\<close>

definition new_DeviceDescriptor :: "u64 \<Rightarrow> int \<Rightarrow> DeviceDescriptor" where
  "new_DeviceDescriptor mem num =
     \<lparr>dd_type = DT_Unknown, dd_subscriptionType = DS_None, dd_uniqueId = [], dd_totalMemory = mem,
      dd_name = [], dd_cpCpuNumer = num\<rparr>"

definition enum_device :: "string \<Rightarrow> u64 \<Rightarrow> nat \<Rightarrow> (string \<times> DeviceDescriptor) list \<Rightarrow>
    (string \<times> DeviceDescriptor) list" where
  "enum_device name mem i ds =
     (let uniqueId = ''cpu-'' @ decstr i;
          d = (case map_of ds uniqueId of Some d \<Rightarrow> d | None \<Rightarrow> new_DeviceDescriptor 0 0)
      in map_set uniqueId
           (d\<lparr>dd_name := name, dd_uniqueId := uniqueId, dd_type := DT_Cpu, dd_totalMemory := mem,
              dd_cpCpuNumer := int i\<rparr>) ds)"

text \<open>\<open>name\<close> is the text built from the boost version, \<open>mem\<close> the available memory.\<close>

definition enumDevices :: "string \<Rightarrow> u64 \<Rightarrow> nat \<Rightarrow> (string \<times> DeviceDescriptor) list \<Rightarrow>
    (string \<times> DeviceDescriptor) list" where
  "enumDevices name mem miningThreads ds = fold (enum_device name mem) [0..<miningThreads] ds"

section \<open>The comparison is numeric\<close>

lemma unat_fromBigEndian_8: "length bs = 8 \<Longrightarrow> unat (fromBigEndian bs :: u64) = be_val bs"
  using be_val_less [of bs] by (simp add: fromBigEndian_of_nat unat_of_nat_u64)

lemma be_uint64_load:
  assumes "8 * i + 8 \<le> length a"
  shows "unat (be_uint64 (le_word64 a i)) = be_val (take 8 (drop (8 * i) a))"
proof -
  let ?c = "take 8 (drop (8 * i) a)"
  have len: "length ?c = 8" using assms by simp
  have "be_uint64 (le_word64 a i) = fromBigEndian (rev (rev ?c))"
    using be64.enc_dec [of "rev ?c"] len by (simp add: be_uint64_def le_word64_def)
  then show ?thesis using unat_fromBigEndian_8 [OF len] by simp
qed

text \<open>The order of byte strings is the lexicographic order of their first eight bytes and the rest.\<close>

lemma be_val_le_split:
  assumes "length a = length b" and "8 \<le> length a"
  shows "be_val a \<le> be_val b \<longleftrightarrow>
    be_val (take 8 a) < be_val (take 8 b) \<or>
    be_val (take 8 a) = be_val (take 8 b) \<and> be_val (drop 8 a) \<le> be_val (drop 8 b)"
proof -
  let ?n = "256 ^ (length a - 8) :: nat"
  have va: "be_val a = be_val (take 8 a) * ?n + be_val (drop 8 a)"
    and vb: "be_val b = be_val (take 8 b) * ?n + be_val (drop 8 b)"
    using be_val_append [of "take 8 a" "drop 8 a"] be_val_append [of "take 8 b" "drop 8 b"] assms
    by simp_all
  have la: "be_val (drop 8 a) < ?n" and lb: "be_val (drop 8 b) < ?n"
    using be_val_less [of "drop 8 a"] be_val_less [of "drop 8 b"] assms by simp_all
  have less: "x * ?n + u < y * ?n + v" if "x < y" "u < ?n" for x y u v :: nat
  proof -
    have "Suc x * ?n \<le> y * ?n" using that(1) by (intro mult_le_mono1) simp
    then show ?thesis using that(2) by simp
  qed
  show ?thesis
  proof (cases "be_val (take 8 a)" "be_val (take 8 b)" rule: linorder_cases)
    case less
    with \<open>\<And>x y u v. x < y \<Longrightarrow> u < ?n \<Longrightarrow> x * ?n + u < y * ?n + v\<close> [OF less la] show ?thesis
      unfolding va vb by (simp add: less_imp_le)
  next
    case equal
    then show ?thesis unfolding va vb by simp
  next
    case greater
    with \<open>\<And>x y u v. x < y \<Longrightarrow> u < ?n \<Longrightarrow> x * ?n + u < y * ?n + v\<close> [OF greater lb] show ?thesis
      unfolding va vb by (simp add: not_le)
  qed
qed

lemma less_or_equal_step:
  assumes "length a = length b" and "8 * i + 8 \<le> length a"
    and "less_or_equal_loop is a b \<longleftrightarrow> be_val (drop (8 * Suc i) a) \<le> be_val (drop (8 * Suc i) b)"
  shows "less_or_equal_loop (i # is) a b \<longleftrightarrow> be_val (drop (8 * i) a) \<le> be_val (drop (8 * i) b)"
  using assms be_val_le_split [of "drop (8 * i) a" "drop (8 * i) b"]
  by (auto simp: word_less_nat_alt be_uint64_load)

lemma is_less_or_equal_iff:
  assumes "length a = 32" and "length b = 32"
  shows "is_less_or_equal a b \<longleftrightarrow> be_val a \<le> be_val b"
proof -
  have "less_or_equal_loop [] a b \<longleftrightarrow> be_val (drop (8 * Suc 3) a) \<le> be_val (drop (8 * Suc 3) b)"
    using assms by simp
  then have "less_or_equal_loop [3] a b \<longleftrightarrow> be_val (drop (8 * Suc 2) a) \<le> be_val (drop (8 * Suc 2) b)"
    using less_or_equal_step [of a b 3 "[]"] assms by simp
  then have "less_or_equal_loop [2, 3] a b \<longleftrightarrow> be_val (drop (8 * Suc 1) a) \<le> be_val (drop (8 * Suc 1) b)"
    using less_or_equal_step [of a b 2 "[3]"] assms by simp
  then have "less_or_equal_loop [1, 2, 3] a b \<longleftrightarrow> be_val (drop (8 * Suc 0) a) \<le> be_val (drop (8 * Suc 0) b)"
    using less_or_equal_step [of a b 1 "[2, 3]"] assms by simp
  then have "less_or_equal_loop [0, 1, 2, 3] a b \<longleftrightarrow> be_val a \<le> be_val b"
    using less_or_equal_step [of a b 0 "[1, 2, 3]"] assms by simp
  moreover have "[0..<4] = [0, 1, 2, 3 :: nat]" by (simp add: upt_rec)
  ultimately show ?thesis by (simp add: is_less_or_equal_def)
qed

lemma hex_chars_digits: "list_all (\<lambda>k. hex_chars ! k = hexdig k) [0..<16]"
  by code_simp

lemma hex_chars_nth: "k < 16 \<Longrightarrow> hex_chars ! k = hexdig k"
  using hex_chars_digits by (simp add: list_all_iff)

lemma to_hex_eq: "to_hex h = toHex_bytes h 2 DontAdd"
proof -
  have byte: "[hex_chars ! unat (drop_bit 4 b), hex_chars ! unat (and b 0xf)] = hexfix 2 (unat b)" for b :: byte
  proof -
    have "and b 0xf = take_bit 4 b" by (simp add: take_bit_eq_mask mask_eq_exp_minus_1)
    then have low: "unat (and b 0xf) = unat b mod 16" by (simp add: unat_mod_distrib take_bit_eq_mod)
    have "unat b < 2 ^ LENGTH(8)" by (rule unsigned_less)
    then have "unat b div 16 < 16" by (simp add: div_less_iff_less_mult)
    moreover have "unat (drop_bit 4 b) = unat b div 16" by (simp add: drop_bit_eq_div unat_div_distrib)
    ultimately show ?thesis by (simp add: low hexfix_2 hex_chars_nth)
  qed
  show ?thesis by (simp add: to_hex_def byte toHex_bytes_2 hexbytes_def add_prefix_def)
qed

section \<open>The nonces of a block\<close>

lemma block_nonces_upt:
  "unat n \<le> unat e \<Longrightarrow> block_nonces n e = map of_nat [unat n..<unat e]"
proof (induction n e rule: block_nonces.induct)
  case (1 n e)
  show ?case
  proof (cases "n < e")
    case True
    then have less: "unat n < unat e" and suc: "unat (n + 1) = Suc (unat n)"
      using unat_plus_1_less by (simp_all add: word_less_nat_alt)
    then have "block_nonces (n + 1) e = map of_nat [Suc (unat n)..<unat e]"
      using 1 True by simp
    then show ?thesis
      using True less by (subst block_nonces.simps) (simp add: upt_conv_Cons)
  next
    case False
    then have "unat n = unat e" using 1(2) by (simp add: word_less_nat_alt)
    then show ?thesis using False by (subst block_nonces.simps) simp
  qed
qed

lemma block_nonces_full:
  assumes "unat n + 30 < 2 ^ 64"
  shows "block_nonces n (n + of_nat blocksize) = map of_nat [unat n..<unat n + 30]"
proof -
  have "unat (n + of_nat blocksize) = unat n + 30" using assms by (simp add: unat_word_ariths)
  then show ?thesis using block_nonces_upt [of n "n + of_nat blocksize"] by simp
qed

text \<open>A block whose end wraps around is skipped.\<close>

lemma block_nonces_wrap:
  assumes "2 ^ 64 \<le> unat n + 30"
  shows "block_nonces n (n + of_nat blocksize) = []"
proof -
  have "unat n < 2 ^ LENGTH(64)" by (rule unsigned_less)
  then have "unat (n + of_nat blocksize) = unat n + 30 - 2 ^ 64"
    using assms by (simp add: unat_word_ariths mod_if)
  then have "\<not> n < n + of_nat blocksize" using \<open>unat n < 2 ^ LENGTH(64)\<close> by (simp add: word_less_nat_alt)
  then show ?thesis by (subst block_nonces.simps) (simp only: if_False)
qed

section \<open>What a search submits\<close>

lemma updateHashRate_frame [frame, simp]:
  "mi_index (updateHashRate rnd now g i m) = mi_index m"
  "mi_new_work (updateHashRate rnd now g i m) = mi_new_work m"
  by (simp_all add: updateHashRate_def Let_def)

text \<open>A nonce is good for a work package when its hash is at most the boundary.\<close>

definition good_nonce :: "('c, 'z) ethash_lib_scheme \<Rightarrow> (bytes \<Rightarrow> bytes) \<Rightarrow> WorkPackage \<Rightarrow> u64 \<Rightarrow> bool" where
  "good_nonce lib rx w n \<longleftrightarrow> be_val (final_hash lib rx w n) \<le> be_val (wp_boundary w)"

text \<open>
  What the program relies on in the libraries: \<open>hash256_from_bytes\<close> copies the 32 bytes, RandomY
  hashes have 32 bytes.
\<close>

definition hash_libs_ok :: "('c, 'z) ethash_lib_scheme \<Rightarrow> (bytes \<Rightarrow> bytes) \<Rightarrow> bool" where
  "hash_libs_ok lib rx \<longleftrightarrow>
     (\<forall>b. length b = 32 \<longrightarrow> et_hash256_from_bytes lib b = b) \<and> (\<forall>seed. length (rx seed) = 32)"

lemma is_less_or_equal_good:
  assumes "hash_libs_ok lib rx" and "wp_wf w"
  shows "is_less_or_equal (final_hash lib rx w n) (et_hash256_from_bytes lib (wp_boundary w)) =
         good_nonce lib rx w n"
proof -
  have "et_hash256_from_bytes lib (wp_boundary w) = wp_boundary w"
    using assms by (simp add: hash_libs_ok_def wp_wf_def)
  moreover have "length (final_hash lib rx w n) = 32"
    using assms(1) by (simp add: final_hash_def Let_def hash_libs_ok_def)
  ultimately show ?thesis using assms(2) by (simp add: is_less_or_equal_iff good_nonce_def wp_wf_def)
qed

definition solution_for ::
  "('c, 'z) ethash_lib_scheme \<Rightarrow> (bytes \<Rightarrow> bytes) \<Rightarrow> WorkPackage \<Rightarrow> u32 \<Rightarrow> Solution \<Rightarrow> bool" where
  "solution_for lib rx w index s \<longleftrightarrow>
     sol_work s = w \<and> sol_midx s = index \<and> good_nonce lib rx w (sol_nonce s) \<and>
     sol_mixHash s = final_hash lib rx w (sol_nonce s)"

lemma block_solutions_sound:
  "hash_libs_ok lib rx \<Longrightarrow> wp_wf w \<Longrightarrow> s \<in> set (block_solutions lib rx i now w n) \<Longrightarrow>
     solution_for lib rx w i s \<and> sol_nonce s \<in> set (block_nonces n (n + of_nat blocksize))"
  by (auto simp: block_solutions_def Let_def solution_for_def is_less_or_equal_good)

lemma block_offset:
  assumes "x \<in> set (block_nonces n (n + of_nat blocksize))"
  shows "unat (x - n) < 30"
proof (cases "unat n + 30 < 2 ^ 64")
  case True
  then obtain k where k: "unat n \<le> k" "k < unat n + 30" "x = of_nat k"
    using assms unfolding block_nonces_full [OF True] by auto
  have "x - n = of_nat (k - unat n)" using k by (simp add: of_nat_diff)
  moreover have "unat (of_nat (k - unat n) :: u64) = k - unat n"
    using k by (intro unat_of_nat_u64) simp
  ultimately show ?thesis using k by simp
next
  case False
  then show ?thesis using assms block_nonces_wrap [of n] by simp
qed

lemma search_loop_solutions:
  assumes "hash_libs_ok lib rx" and "wp_wf w" and "30 * length ts \<le> 2 ^ 64"
    and "s \<in> set (fst (snd (search_loop lib rx rnd w ts n m)))"
  shows "solution_for lib rx w (mi_index m) s \<and> unat (sol_nonce s - n) < 30 * length ts"
  using assms(3,4)
proof (induction ts arbitrary: n m)
  case (Cons t ts)
  let ?m = "updateHashRate rnd (tk_now t) (of_nat blocksize) 1 m"
  from Cons.prems(2) have "s \<in> set (block_solutions lib rx (mi_index m) (tk_now t) w n) \<or>
      s \<in> set (fst (snd (search_loop lib rx rnd w ts (n + of_nat blocksize) ?m)))"
    by (auto simp: Let_def case_prod_beta split: if_splits)
  then show ?case
  proof
    assume "s \<in> set (block_solutions lib rx (mi_index m) (tk_now t) w n)"
    then show ?thesis
      using block_solutions_sound [OF assms(1,2)] block_offset [of "sol_nonce s" n] by fastforce
  next
    let ?d = "sol_nonce s - (n + of_nat blocksize)"
    assume "s \<in> set (fst (snd (search_loop lib rx rnd w ts (n + of_nat blocksize) ?m)))"
    then have IH: "solution_for lib rx w (mi_index m) s" "unat ?d < 30 * length ts"
      using Cons.IH [of "n + of_nat blocksize" ?m] Cons.prems(1) by simp_all
    have "sol_nonce s - n = of_nat (unat ?d + 30)" by simp
    moreover have "unat (of_nat (unat ?d + 30) :: u64) = unat ?d + 30"
      using IH(2) Cons.prems(1) by (intro unat_of_nat_u64) simp
    ultimately show ?thesis using IH by simp
  qed
qed simp

text \<open>A search that is not interrupted goes through all nonces, as long as none wraps around.\<close>

definition quiet :: "Tick \<Rightarrow> bool" where
  "quiet t \<longleftrightarrow> \<not> tk_new_work t \<and> \<not> tk_stop t"

lemma search_loop_complete:
  assumes "hash_libs_ok lib rx" and "wp_wf w"
    and "list_all quiet ts" and "\<not> mi_new_work m" and "unat n + 30 * length ts < 2 ^ 64"
  shows "\<not> fst (search_loop lib rx rnd w ts n m) \<and>
    map sol_nonce (fst (snd (search_loop lib rx rnd w ts n m))) =
      filter (good_nonce lib rx w) (map of_nat [unat n..<unat n + 30 * length ts])"
  using assms(3-5)
proof (induction ts arbitrary: n m)
  case (Cons t ts)
  let ?n = "n + of_nat blocksize" and ?m = "updateHashRate rnd (tk_now t) (of_nat blocksize) 1 m"
  have small: "unat n + 30 < 2 ^ 64" and n: "unat ?n = unat n + 30"
    using Cons.prems(3) by (simp_all add: unat_word_ariths)
  have IH: "\<not> fst (search_loop lib rx rnd w ts ?n ?m)"
    "map sol_nonce (fst (snd (search_loop lib rx rnd w ts ?n ?m))) =
      filter (good_nonce lib rx w) (map of_nat [unat n + 30..<unat n + 30 + 30 * length ts])"
    using Cons.IH [of ?m ?n] Cons.prems n by simp_all
  have blk: "map sol_nonce (block_solutions lib rx (mi_index m) (tk_now t) w n) =
      filter (good_nonce lib rx w) (map of_nat [unat n..<unat n + 30])"
    using block_nonces_full [OF small] assms(1,2)
    by (simp add: block_solutions_def Let_def comp_def is_less_or_equal_good)
  have "[unat n..<unat n + 30 * length (t # ts)] =
      [unat n..<unat n + 30] @ [unat n + 30..<unat n + 30 + 30 * length ts]"
    using upt_add_eq_append [of "unat n" "unat n + 30" "30 * length ts"] by (simp add: algebra_simps)
  then show ?case
    using IH blk Cons.prems by (simp add: Let_def case_prod_beta quiet_def del: of_nat_numeral)
qed simp

section \<open>Ranges of the dataset\<close>

definition range_items :: "u32 \<times> u32 \<Rightarrow> nat list" where
  "range_items r = [unat (fst r)..<unat (fst r) + unat (snd r)]"

lemma range_items_pair [simp]: "range_items (a, b) = [unat a..<unat a + unat b]"
  by (simp add: range_items_def)

lemma unat_add_u32: "unat (a :: u32) + unat b < 2 ^ 32 \<Longrightarrow> unat (a + b) = unat a + unat b"
  by (simp add: unat_word_ariths)

lemma dataset_loop_items:
  assumes "0 < k" and "unat s + k * unat p + unat r < 2 ^ 32"
  shows "concat (map range_items (dataset_loop k p r s)) = [unat s..<unat s + k * unat p + unat r]"
  using assms
proof (induction k arbitrary: s)
  case (Suc k)
  show ?case
  proof (cases "k = 0")
    case True
    then show ?thesis using Suc.prems by (simp add: unat_add_u32 add.assoc)
  next
    case False
    have sp: "unat (s + p) = unat s + unat p" using Suc.prems(2) by (intro unat_add_u32) simp
    then have "concat (map range_items (dataset_loop k p r (s + p))) =
        [unat s + unat p..<unat s + unat p + k * unat p + unat r]"
      using Suc.IH [of "s + p"] Suc.prems(2) False by simp
    moreover have "[unat s..<unat s + Suc k * unat p + unat r] =
        [unat s..<unat s + unat p] @ [unat s + unat p..<unat s + unat p + (k * unat p + unat r)]"
      using upt_add_eq_append [of "unat s" "unat s + unat p" "k * unat p + unat r"]
      by (simp add: algebra_simps)
    ultimately show ?thesis using False by (simp add: add.assoc)
  qed
qed simp

lemma dataset_ranges_items: "concat (map range_items (dataset_ranges n t)) = [0..<unat n]"
proof (cases "t > 1")
  case True
  have sum: "unat t * unat (n div t) + unat (n mod t) = unat n"
    by (simp add: unat_div_distrib unat_mod_distrib)
  moreover have "unat n < 2 ^ LENGTH(32)" by (rule unsigned_less)
  moreover have "0 < unat t" using True by (simp add: word_less_nat_alt)
  ultimately show ?thesis
    using dataset_loop_items [of "unat t" 0 "n div t" "n mod t"] True by (simp add: dataset_ranges_def)
qed (simp add: dataset_ranges_def)

section \<open>Enumerated devices\<close>

lemma enum_device_lookup:
  "map_of (enum_device name mem i ds) k =
     (if k = ''cpu-'' @ decstr i
      then Some ((case map_of ds k of Some d \<Rightarrow> d | None \<Rightarrow> new_DeviceDescriptor 0 0)
             \<lparr>dd_name := name, dd_uniqueId := k, dd_type := DT_Cpu, dd_totalMemory := mem,
              dd_cpCpuNumer := int i\<rparr>)
      else map_of ds k)"
  by (simp add: enum_device_def Let_def map_of_map_set)

lemma enumDevices_lookup:
  "map_of (enumDevices name mem n ds) (''cpu-'' @ decstr i) =
     (if i < n
      then Some ((case map_of ds (''cpu-'' @ decstr i) of Some d \<Rightarrow> d | None \<Rightarrow> new_DeviceDescriptor 0 0)
             \<lparr>dd_name := name, dd_uniqueId := ''cpu-'' @ decstr i, dd_type := DT_Cpu,
              dd_totalMemory := mem, dd_cpCpuNumer := int i\<rparr>)
      else map_of ds (''cpu-'' @ decstr i))"
  by (induction n) (auto simp: enumDevices_def enum_device_lookup decstr_inj less_Suc_eq)

section \<open>Properties\<close>

text \<open>
  C30: the test of a hash against the boundary, which compares four byte-swapped 64-bit words, is
  the comparison of the two 256-bit big-endian numbers.
\<close>

theorem boundary_test:
  assumes "length a = 32" and "length b = 32"
  shows "is_less_or_equal a b \<longleftrightarrow> be_val a \<le> be_val b"
  using is_less_or_equal_iff [OF assms] .

lemma boundary_test_witness:
  "is_less_or_equal (replicate 31 0 @ [1]) (replicate 30 0 @ [1, 0]) \<longleftrightarrow> (1 :: nat) \<le> 256"
  using boundary_test [of "replicate 31 0 @ [1]" "replicate 30 0 @ [1, 0]"] by (simp add: be_val_append)

text \<open>
  C5: every solution a search submits, whenever it is interrupted, is for the work given and
  this miner, its nonce hashes to at most the boundary, the mix hash is that hash, and the nonce
  lies within the blocks searched so far.
\<close>

theorem search_sound:
  assumes "hash_libs_ok lib rx" and "wp_wf w" and "30 * length ts \<le> 2 ^ 64"
    and "s \<in> set (fst (snd (search lib rx rnd w ts m)))"
  shows "solution_for lib rx w (mi_index m) s \<and>
         unat (sol_nonce s - wp_startNonce w) < 30 * length ts"
  using assms search_loop_solutions [OF assms(1-3)] by (auto simp: search_def split: if_splits)

text \<open>A library instance whose hashes are all zero, and one quiet turn.\<close>

definition zero_rx :: "bytes \<Rightarrow> bytes" where
  "zero_rx seed = h256_zero"

lemma sample_libs_ok: "hash_libs_ok sample_lib zero_rx"
  by (simp add: hash_libs_ok_def sample_lib_def zero_rx_def)

lemma sample_work_wf: "wp_wf sample_work"
  by (simp add: sample_work_def wp_wf_def new_WorkPackage_def)

lemma sample_good: "good_nonce sample_lib zero_rx sample_work n"
  by (simp add: good_nonce_def final_hash_def Let_def sample_lib_def zero_rx_def FixedHash_empty_def)

definition sample_ticks :: "Tick list" where
  "sample_ticks = [\<lparr>tk_new_work = False, tk_stop = False, tk_now = 0\<rparr>]"

abbreviation sample_miner :: Miner where
  "sample_miner \<equiv> new_CPUMiner 0 sample_device True 0"

lemma sample_search:
  "length (fst (snd (search sample_lib zero_rx rnd sample_work sample_ticks sample_miner))) = 30"
proof -
  have start: "unat (wp_startNonce sample_work) + 30 * length sample_ticks < 2 ^ 64"
    by (simp add: sample_work_def sample_ticks_def)
  have "\<not> mi_new_work sample_miner" "mi_vm sample_miner" "list_all quiet sample_ticks"
    by (simp_all add: new_CPUMiner_def sample_ticks_def quiet_def)
  note run = search_loop_complete [OF sample_libs_ok sample_work_wf this(3,1) start, of rnd]
  have "length (map sol_nonce (fst (snd (search_loop sample_lib zero_rx rnd sample_work sample_ticks
      (wp_startNonce sample_work) sample_miner)))) = 30"
    unfolding conjunct2 [OF run] by (simp add: sample_good sample_ticks_def)
  then show ?thesis using \<open>mi_vm sample_miner\<close> by (simp add: search_def)
qed

lemma search_sound_witness:
  "\<exists>s. s \<in> set (fst (snd (search sample_lib zero_rx (\<lambda>x. x) sample_work sample_ticks sample_miner))) \<and>
     solution_for sample_lib zero_rx sample_work 0 s"
proof -
  let ?sols = "fst (snd (search sample_lib zero_rx (\<lambda>x. x) sample_work sample_ticks sample_miner))"
  have "?sols \<noteq> []" using sample_search [of "\<lambda>x. x"] by auto
  then have "hd ?sols \<in> set ?sols" by simp
  moreover have "mi_index sample_miner = 0" by (simp add: new_CPUMiner_def)
  ultimately show ?thesis
    using search_sound [OF sample_libs_ok sample_work_wf, of sample_ticks "hd ?sols" "\<lambda>x. x" sample_miner]
    by (auto simp: sample_ticks_def)
qed

text \<open>
  C4: an uninterrupted search finds every solution: after \<open>k\<close> blocks the submitted nonces are
  exactly the good ones among the first \<open>30 k\<close> nonces from the start nonce on, in ascending
  order, provided the range does not run over the end of the 64-bit nonces.
\<close>

theorem search_complete:
  assumes "hash_libs_ok lib rx" and "wp_wf w" and "mi_vm m" and "\<not> mi_new_work m"
    and "list_all quiet ts" and "unat (wp_startNonce w) + 30 * length ts < 2 ^ 64"
  shows "map sol_nonce (fst (snd (search lib rx rnd w ts m))) =
    filter (good_nonce lib rx w)
      (map of_nat [unat (wp_startNonce w)..<unat (wp_startNonce w) + 30 * length ts])"
  using search_loop_complete [OF assms(1,2,5,4,6)] assms(3) by (simp add: search_def)

lemma search_complete_witness:
  "map sol_nonce (fst (snd (search sample_lib zero_rx (\<lambda>x. x) sample_work sample_ticks sample_miner))) =
     filter (good_nonce sample_lib zero_rx sample_work)
       (map of_nat [unat (wp_startNonce sample_work)..<unat (wp_startNonce sample_work) + 30 * length sample_ticks])"
  by (rule search_complete [OF sample_libs_ok sample_work_wf])
     (simp_all add: new_CPUMiner_def sample_ticks_def quiet_def sample_work_def)

text \<open>
  a block that reaches the end of the 64-bit nonces is skipped: its end wraps around below
  its start, so the inner loop does not run and none of its nonces is tried.
\<close>

theorem search_skips_wrapping_block:
  assumes "2 ^ 64 \<le> unat nonce + 30"
  shows "block_solutions lib rx index now w nonce = []"
  using block_nonces_wrap [OF assms] by (simp add: block_solutions_def Let_def)

lemma search_skips_wrapping_block_witness:
  "block_solutions sample_lib zero_rx 0 0 sample_work 0xfffffffffffffff0 = [] \<and>
   good_nonce sample_lib zero_rx sample_work 0xfffffffffffffff0"
  using search_skips_wrapping_block [of "0xfffffffffffffff0" sample_lib zero_rx 0 0 sample_work] sample_good
  by simp

section \<open>The thread of a miner and its owner\<close>

text \<open>
  The steps of a miner's thread, interleaved with the calls of its owner and with the other miners'
  progress in the serialised initialisation. The owner's calls follow each other; \<open>setWork\<close> and
  \<open>pause\<close> take two steps, the change of the work and the \<open>kick_miner\<close> behind it. The worker's own
  steps (theory \<open>Worker\<close>) lead into \<open>workLoop\<close>, and out of it once the loop has been left.
\<close>

definition set_worker :: "Worker \<Rightarrow> MinerThread \<Rightarrow> MinerThread" where
  "set_worker w t = t\<lparr>mt_miner := (mt_miner t)\<lparr>mi_worker := w\<rparr>\<rparr>"

definition before_kick :: "Miner \<Rightarrow> MinerThread \<Rightarrow> MinerThread" where
  "before_kick m t = t\<lparr>mt_miner := m\<lparr>mi_new_work := mi_new_work (mt_miner t)\<rparr>, mt_kick := True\<rparr>"

abbreviation thread_at :: "MinerThread \<Rightarrow> thread_pc option" where
  "thread_at t \<equiv> m_work (mi_worker (mt_miner t))"

inductive mining_step ::
  "('c, 'z) ethash_lib_scheme \<Rightarrow> (bytes \<Rightarrow> bytes) \<Rightarrow> (real \<Rightarrow> real) \<Rightarrow> MinerThread \<Rightarrow> MinerThread \<Rightarrow> bool"
  for lib rx rnd
where
  ms_setWork: "\<not> mt_kick t \<Longrightarrow> wp_wf w \<Longrightarrow> mining_step lib rx rnd t (before_kick (miner_setWork w (mt_miner t)) t)"
| ms_pause: "\<not> mt_kick t \<Longrightarrow> mining_step lib rx rnd t (before_kick (miner_pause f (mt_miner t)) t)"
| ms_kick: "mt_kick t \<Longrightarrow> mining_step lib rx rnd t (t\<lparr>mt_miner := kick_miner (mt_miner t), mt_kick := False\<rparr>)"
| ms_resume: "\<not> mt_kick t \<Longrightarrow> mining_step lib rx rnd t (t\<lparr>mt_miner := miner_resume f (mt_miner t)\<rparr>)"
| ms_setEpoch: "\<not> mt_kick t \<Longrightarrow> mining_step lib rx rnd t (t\<lparr>mt_miner := setEpoch ec (mt_miner t)\<rparr>)"
| ms_trigger: "\<not> mt_kick t \<Longrightarrow> mining_step lib rx rnd t (t\<lparr>mt_miner := TriggerHashRateUpdate (mt_miner t)\<rparr>)"
| ms_owner: "\<not> mt_kick t \<Longrightarrow> worker_step (mi_worker (mt_miner t)) w \<Longrightarrow>
    m_work w = thread_at t \<or> thread_at t = None \<or> thread_at t = Some Exited \<Longrightarrow>
    mining_step lib rx rnd t (set_worker w t)"
| ms_dag: "mining_step lib rx rnd t (t\<lparr>mt_dag := d\<rparr>)"
| ms_enter: "thread_at t = Some Entering \<Longrightarrow> thread_step False (mi_worker (mt_miner t)) = Some w \<Longrightarrow>
    mining_step lib rx rnd t (workLoop_enter (set_worker w t))"
| ms_thread: "thread_at t \<noteq> Some Entering \<Longrightarrow> thread_step False (mi_worker (mt_miner t)) = Some w \<Longrightarrow>
    mining_step lib rx rnd t (set_worker w t)"
| ms_return: "mt_phase t = WL_left e \<Longrightarrow> thread_at t = Some Working \<Longrightarrow>
    thread_step True (mi_worker (mt_miner t)) = Some w \<Longrightarrow> mining_step lib rx rnd t (set_worker w t)"
| ms_work: "thread_at t = Some Working \<Longrightarrow> mining_step lib rx rnd t (workLoop_step lib rx rnd now t)"

inductive_cases mining_stepE: "mining_step lib rx rnd t t'"
















text \<open>
  The steps of \<open>search\<close> are its loop: undisturbed, the thread submits the solutions of \<open>search_loop\<close>
  and leaves its miner.
\<close>

lemma thread_searches:
  assumes "mt_phase t = WL_search w n" and "mi_vm (mt_miner t)" and "\<not> mi_new_work (mt_miner t)" and "\<not> mt_stop t"
  shows "\<exists>t'. fold (\<lambda>now t. workLoop_step lib rx rnd now (workLoop_step lib rx rnd now t)) nows t = t' \<and>
    (False, mt_submitted t', mt_miner t') =
      (let (left, sols, n', m') = search_loop lib rx rnd w (map (\<lambda>now. \<lparr>tk_new_work = False, tk_stop = False, tk_now = now\<rparr>) nows) n (mt_miner t)
       in (left, mt_submitted t @ sols, m'))"
  using assms
proof (induction nows arbitrary: t n)
  case (Cons now nows)
  let ?t = "workLoop_step lib rx rnd now (workLoop_step lib rx rnd now t)"
  have t: "?t = search_block lib rx rnd now w n (t\<lparr>mt_phase := WL_block w n\<rparr>)"
    using Cons.prems by (simp add: workLoop_step_def search_test_def)
  have "mt_phase ?t = WL_search w (n + of_nat blocksize)" "mi_vm (mt_miner ?t)" "\<not> mi_new_work (mt_miner ?t)" "\<not> mt_stop ?t"
    using Cons.prems unfolding t by (simp_all add: search_block_def mt_stop_def updateHashRate_def Let_def)
  from Cons.IH [OF this] Cons.prems(3) show ?case
    unfolding fold_simps t by (auto simp: search_block_def Let_def split: prod.splits)
qed simp








text \<open>
  the threads that initialise the RandomY dataset cover every item exactly once, in order,
  for every number of items and threads.
\<close>

theorem dataset_partition:
  "concat (map range_items (dataset_ranges datasetItemCount initThreadCount)) = [0..<unat datasetItemCount]"
  by (rule dataset_ranges_items)

end
