(* ===== verification/Regex.thy ===== *)
theory Regex
  imports Cxx
begin

text \<open>
  The part of \<open>std::regex\<close> (ECMAScript grammar) that the URI parser uses: character classes,
  sequences, alternatives, greedy repetition, capturing groups and the two anchors. A matcher
  returns the possible matches in the order in which a backtracking matcher finds them, so the
  first one is the match of the library. A state is the number of characters consumed since the
  beginning of the subject and what is left of it.
\<close>

section \<open>Matching\<close>

datatype re =
  Cls "char \<Rightarrow> bool"
| Seq re re
| Alt re re
| Star re
| Grp nat re
| Bol
| Eol

type_synonym re_state = "nat \<times> string"

type_synonym captures = "(nat \<times> string) list"

text \<open>Greedy repetition: an iteration must consume something; \<open>n\<close> bounds the iterations.\<close>

fun iterate :: "(re_state \<Rightarrow> (captures \<times> re_state) list) \<Rightarrow> nat \<Rightarrow> re_state \<Rightarrow> (captures \<times> re_state) list" where
  "iterate f 0 st = [([], st)]"
| "iterate f (Suc n) st =
     concat (map (\<lambda>(c, st'). if fst st < fst st'
                 then map (\<lambda>(d, st''). (c @ d, st'')) (iterate f n st') else []) (f st)) @ [([], st)]"

primrec matches :: "re \<Rightarrow> re_state \<Rightarrow> (captures \<times> re_state) list" where
  "matches (Cls P) st =
     (case snd st of [] \<Rightarrow> [] | x # xs \<Rightarrow> if P x then [([], Suc (fst st), xs)] else [])"
| "matches (Seq r s) st =
     concat (map (\<lambda>(c, st'). map (\<lambda>(d, st''). (c @ d, st'')) (matches s st')) (matches r st))"
| "matches (Alt r s) st = matches r st @ matches s st"
| "matches (Star r) st = iterate (matches r) (length (snd st)) st"
| "matches (Grp k r) st =
     map (\<lambda>(c, st'). (c @ [(k, take (fst st' - fst st) (snd st))], st')) (matches r st)"
| "matches Bol st = (if fst st = 0 then [([], st)] else [])"
| "matches Eol st = (if snd st = [] then [([], st)] else [])"

text \<open>\<open>regex_search\<close> from a state on: the first start position with a match.\<close>

fun search_from :: "re \<Rightarrow> nat \<Rightarrow> string \<Rightarrow> (nat \<times> captures \<times> re_state) option" where
  "search_from r i s =
     (case matches r (i, s) of
        (c, st) # _ \<Rightarrow> Some (i, c, st)
      | [] \<Rightarrow> (case s of [] \<Rightarrow> None | _ # xs \<Rightarrow> search_from r (Suc i) xs))"

declare search_from.simps [simp del]

definition regex_search :: "re \<Rightarrow> string \<Rightarrow> captures option" where
  "regex_search r s = map_option (\<lambda>(_, c, _). c) (search_from r 0 s)"

definition regex_match :: "re \<Rightarrow> string \<Rightarrow> bool" where
  "regex_match r s = list_ex (\<lambda>(c, st). snd st = []) (matches r (0, s))"

text \<open>\<open>matches[k].str()\<close>: the last text captured by group \<open>k\<close>, empty when it did not take part.\<close>

definition group :: "captures \<Rightarrow> nat \<Rightarrow> string" where
  "group c k = (case map_of (rev c) k of Some s \<Rightarrow> s | None \<Rightarrow> [])"

text \<open>
  \<open>sregex_iterator\<close>: the captures of the successive matches. A match that consumes nothing ends
  the iteration here; the program iterates only over expressions that match at least two characters.
\<close>

function regex_iterate :: "re \<Rightarrow> nat \<Rightarrow> string \<Rightarrow> captures list" where
  "regex_iterate r i s =
     (case search_from r i s of
        None \<Rightarrow> []
      | Some (_, c, (j, s')) \<Rightarrow> if length s' < length s then c # regex_iterate r j s' else [c])"
  by auto
termination by (relation "measure (\<lambda>(r, i, s). length s)") auto

declare regex_iterate.simps [simp del]

section \<open>Abbreviations for expressions\<close>

definition chr :: "char \<Rightarrow> re" where
  "chr c = Cls (\<lambda>x. x = c)"

text \<open>\<open>.\<close> is every character but the line terminators.\<close>

definition is_dot :: "char \<Rightarrow> bool" where
  "is_dot c = (of_char c \<noteq> (10 :: nat) \<and> of_char c \<noteq> (13 :: nat))"

abbreviation dots :: re where
  "dots \<equiv> Star (Cls is_dot)"

primrec seq_list :: "re list \<Rightarrow> re" where
  "seq_list [] = Star (Cls (\<lambda>_. False))"
| "seq_list (r # rs) = (if rs = [] then r else Seq r (seq_list rs))"

text \<open>\<open>r{1,n}\<close> for a class.\<close>

primrec upto :: "nat \<Rightarrow> re \<Rightarrow> re" where
  "upto 0 r = Star (Cls (\<lambda>_. False))"
| "upto (Suc n) r = (if n = 0 then r else Alt (Seq r (upto n r)) r)"

section \<open>Greedy repetition of a class\<close>

lemma iterate_cls:
  "length s \<le> n \<Longrightarrow>
     iterate (matches (Cls P)) n (i, s) =
       map (\<lambda>j. ([], i + j, drop j s)) (rev [0..<Suc (length (takeWhile P s))])"
proof (induction s arbitrary: i n)
  case Nil
  then show ?case by (cases n) simp_all
next
  case (Cons x s)
  then obtain m where n: "n = Suc m" "length s \<le> m" by (cases n) auto
  show ?case
  proof (cases "P x")
    case True
    have "rev [0..<Suc (Suc k)] = map Suc (rev [0..<Suc k]) @ [0]" for k
      unfolding rev_map [symmetric] map_Suc_upt using upt_conv_Cons [of 0 "Suc (Suc k)"] by simp
    then show ?thesis using n True Cons.IH [of m "Suc i"] by (simp add: comp_def del: upt_Suc)
  qed (simp add: n)
qed

lemma star_cls:
  "matches (Star (Cls P)) (i, s) =
     map (\<lambda>j. ([], i + j, drop j s)) (rev [0..<Suc (length (takeWhile P s))])"
  by (simp add: iterate_cls)

lemma star_all:
  "list_all P s \<Longrightarrow>
     matches (Star (Cls P)) (i, s) = map (\<lambda>j. ([], i + j, drop j s)) (rev [0..<Suc (length s)])"
  using star_cls [of P i s] by (simp add: list_all_iff takeWhile_eq_all_conv [THEN iffD2])

lemma seq_chr:
  "matches (Seq (chr c) r) (i, s) =
     (case s of [] \<Rightarrow> [] | x # xs \<Rightarrow> if x = c then matches r (Suc i, xs) else [])"
  by (simp add: chr_def split: list.splits)

declare matches.simps(2) [simp del] matches.simps(4) [simp del]

text \<open>A captured run of a class followed by anything: the alternatives, longest run first.\<close>

lemma matches_seq:
  "matches (Seq r s) st =
     concat (map (\<lambda>(c, st'). map (\<lambda>(d, st''). (c @ d, st'')) (matches s st')) (matches r st))"
  by (rule matches.simps(2))

lemma seq_captured:
  assumes "list_all P s"
  shows "matches (Seq (Grp k (Star (Cls P))) r) (i, s) =
    concat (map (\<lambda>j. map (\<lambda>(d, st). ((k, take j s) # d, st)) (matches r (i + j, drop j s)))
      (rev [0..<Suc (length s)]))"
  by (simp add: matches_seq star_all [OF assms] comp_def case_prod_beta)

lemma concat_map_Nil: "(\<And>j. j \<in> set js \<Longrightarrow> g j = []) \<Longrightarrow> concat (map g js) = []"
  by (induction js) simp_all

lemma seq_captured_none:
  assumes "list_all P s" and "\<And>j. j \<le> length s \<Longrightarrow> matches r (i + j, drop j s) = []"
  shows "matches (Seq (Grp k (Star (Cls P))) r) (i, s) = []"
  unfolding seq_captured [OF assms(1)] by (rule concat_map_Nil) (use assms(2) in auto)

text \<open>The first match takes the longest run after which the rest matches.\<close>

lemma seq_captured_first:
  assumes "list_all P (a @ x)"
    and "\<And>j. 0 < j \<Longrightarrow> j \<le> length x \<Longrightarrow> matches r (i + length a + j, drop j x) = []"
    and "matches r (i + length a, x) = (d, st) # ms"
  shows "\<exists>rest. matches (Seq (Grp k (Star (Cls P))) r) (i, a @ x) = ((k, a) # d, st) # rest"
proof -
  let ?n = "length a" and ?m = "length (a @ x)"
  define g where "g = (\<lambda>j. map (\<lambda>(d, st). ((k, take j (a @ x)) # d, st)) (matches r (i + j, drop j (a @ x))))"
  have "[0..<Suc ?m] = [0..<?n] @ ?n # [Suc ?n..<Suc ?m]"
    using upt_add_eq_append [of 0 ?n "Suc (length x)"] upt_conv_Cons [of ?n "Suc ?m"] by simp
  then have "rev [0..<Suc ?m] = rev [Suc ?n..<Suc ?m] @ ?n # rev [0..<?n]" by simp
  then have "concat (map g (rev [0..<Suc ?m])) =
      concat (map g (rev [Suc ?n..<Suc ?m])) @ g ?n @ concat (map g (rev [0..<?n]))"
    by (simp del: upt_Suc)
  also have "concat (map g (rev [Suc ?n..<Suc ?m])) = []"
  proof (rule concat_map_Nil)
    fix j assume "j \<in> set (rev [Suc ?n..<Suc ?m])"
    then have "?n < j" "j \<le> ?m" by auto
    then show "g j = []" using assms(2) [of "j - ?n"] by (simp add: g_def)
  qed
  also have "g ?n = ((k, a) # d, st) # map (\<lambda>(d, st). ((k, a) # d, st)) ms"
    using assms(3) by (simp add: g_def)
  finally show ?thesis unfolding seq_captured [OF assms(1)] g_def [symmetric] by simp
qed

text \<open>A captured run that must reach the end of the subject.\<close>

lemma seq_captured_end:
  assumes "list_all P s"
  shows "matches (Seq (Grp k (Star (Cls P))) Eol) (i, s) = [([(k, s)], i + length s, [])]"
proof -
  have "rev [0..<Suc (length s)] = length s # rev [0..<length s]" by simp
  moreover have "concat (map (\<lambda>j. map (\<lambda>(d, st). ((k, take j s) # d, st)) (matches Eol (i + j, drop j s)))
      (rev [0..<length s])) = []" by auto
  ultimately show ?thesis unfolding seq_captured [OF assms] by simp
qed

section \<open>Anchored searches\<close>

lemma bol_later: "search_from (Seq Bol r) (Suc i) s = None"
proof (induction s arbitrary: i)
  case Nil
  then show ?case by (subst search_from.simps) (simp add: matches_seq)
next
  case (Cons x s)
  then show ?case by (subst search_from.simps) (simp add: matches_seq)
qed

lemma search_bol:
  "regex_search (Seq Bol r) s = (case matches r (0, s) of [] \<Rightarrow> None | (c, st) # _ \<Rightarrow> Some c)"
proof -
  have "matches (Seq Bol r) (0, s) = matches r (0, s)" by (simp add: matches_seq)
  then show ?thesis
    unfolding regex_search_def
    by (subst search_from.simps) (auto simp: bol_later split: list.splits)
qed

section \<open>Splitting at the last separator\<close>

lemma split_end:
  assumes "list_all is_dot b"
  shows "matches (Seq (chr c) (Seq (Grp k dots) Eol)) (i, c # b) = [([(k, b)], i + Suc (length b), [])]"
  using seq_captured_end [OF assms, of k "Suc i"] by (simp add: seq_chr)

lemma split_none: "c \<notin> set s \<Longrightarrow> j \<le> length s \<Longrightarrow> matches (Seq (chr c) r) (i, drop j s) = []"
  using set_drop_subset [of j s] by (cases "drop j s") (auto simp: seq_chr)

lemma search_split:
  assumes "list_all is_dot (a @ c # b)" and "c \<notin> set b"
  shows "regex_search (seq_list [Bol, Grp 1 dots, chr c, Grp 2 dots, Eol]) (a @ c # b) = Some [(1, a), (2, b)]"
proof -
  let ?r = "Seq (chr c) (Seq (Grp 2 dots) Eol)"
  have "matches ?r (0 + length a + j, drop j (c # b)) = []" if "0 < j" "j \<le> length (c # b)" for j
    using that split_none [OF assms(2), of "j - 1"] by (cases j) simp_all
  from seq_captured_first [OF assms(1) this, where k = 1] split_end [of b c 2] assms(1)
  show ?thesis by (fastforce simp: search_bol)
qed

lemma search_split_none:
  assumes "list_all is_dot s" and "c \<notin> set s"
  shows "regex_search (seq_list [Bol, Grp 1 dots, chr c, Grp 2 dots, Eol]) s = None"
  using seq_captured_none [OF assms(1) split_none [OF assms(2)], where i = 0 and k = 1]
  by (simp add: search_bol)

text \<open>Two separators: the first group ends at the last \<open>c\<close> that is followed by a \<open>d\<close>.\<close>

lemma search_split2:
  assumes "list_all is_dot (a @ c # b @ d # e)" and "d \<notin> set e" and "c \<notin> set b" and "c \<notin> set e" and "c \<noteq> d"
  shows "regex_search (seq_list [Bol, Grp 1 dots, chr c, Grp 2 dots, chr d, Grp 3 dots, Eol]) (a @ c # b @ d # e) =
    Some [(1, a), (2, b), (3, e)]"
proof -
  let ?t = "Seq (chr d) (Seq (Grp 3 dots) Eol)"
  let ?r = "Seq (chr c) (Seq (Grp 2 dots) ?t)"
  have none: "matches ?r (0 + length a + j, drop j (c # b @ d # e)) = []"
    if "0 < j" "j \<le> length (c # b @ d # e)" for j
    using that split_none [of c "b @ d # e" "j - 1"] assms by (cases j) simp_all
  have "matches ?t (Suc (length a) + length b + j, drop j (d # e)) = []" if "0 < j" "j \<le> length (d # e)" for j
    using that split_none [OF assms(2), of "j - 1"] by (cases j) simp_all
  then obtain rest where
    "matches (Seq (Grp 2 dots) ?t) (Suc (length a), b @ d # e) =
       ([(2, b), (3, e)], Suc (length a) + length b + Suc (length e), []) # rest"
    using seq_captured_first [of is_dot b "d # e" ?t "Suc (length a)" "[(3, e)]" _ "[]" 2]
      split_end [of e d 3 "Suc (length a) + length b"] assms(1) by auto
  then have "matches ?r (0 + length a, c # b @ d # e) =
       ([(2, b), (3, e)], Suc (length a) + length b + Suc (length e), []) # rest"
    by (simp add: seq_chr)
  from seq_captured_first [OF _ none this, where k = 1] assms(1) show ?thesis
    by (fastforce simp: search_bol)
qed

section \<open>Runs of a class with a least length\<close>

lemma seq_run_first:
  assumes "takeWhile P s = a" and "a \<noteq> []" and "matches r (i + length a, drop (length a) s) = (d, st) # ms"
  shows "\<exists>rest. matches (Seq (Grp k (Seq (Cls P) (Star (Cls P)))) r) (i, s) = ((k, a) # d, st) # rest"
proof -
  obtain x xs where s: "s = x # xs" "P x" "a = x # takeWhile P xs"
    using assms(1,2) by (cases s) (auto split: if_splits)
  have "rev [0..<Suc (length (takeWhile P xs))] = length (takeWhile P xs) # rev [0..<length (takeWhile P xs)]"
    by simp
  then have "\<exists>rest. matches (Seq (Cls P) (Star (Cls P))) (i, s) =
      ([], i + length a, drop (length a) s) # rest"
    using s by (simp add: matches_seq star_cls)
  moreover have "take (length a) s = a" using assms(1) takeWhile_eq_take by metis
  ultimately show ?thesis
    using assms(3) by (auto simp: matches_seq)
qed

lemma upto_runs:
  assumes "list_all P s" and "s \<noteq> []" and "0 < n"
  shows "matches (upto n (Cls P)) (i, s) =
    map (\<lambda>j. ([], i + j, drop j s)) (rev [1..<Suc (min n (length s))])"
  using assms
proof (induction n arbitrary: i s)
  case (Suc n)
  obtain x xs where s: "s = x # xs" "P x" "list_all P xs" using Suc.prems by (cases s) auto
  show ?case
  proof (cases "n = 0")
    case True
    then show ?thesis using s by simp
  next
    case False
    have step: "matches (upto (Suc n) (Cls P)) (i, s) =
        matches (upto n (Cls P)) (Suc i, xs) @ [([], Suc i, xs)]"
      using s False by (simp add: matches_seq)
    show ?thesis
    proof (cases xs)
      case Nil
      have "matches (upto n (Cls P)) (Suc i, []) = []"
        using False by (induction n) (auto simp: matches_seq)
      then show ?thesis using step Nil s by simp
    next
      case (Cons y ys)
      have "rev [1..<Suc (min (Suc n) (length s))] = map Suc (rev [1..<Suc (min n (length xs))]) @ [1]"
        unfolding rev_map [symmetric] map_Suc_upt
        using s upt_conv_Cons [of 1 "Suc (min (Suc n) (length s))"] by (simp del: upt_Suc)
      then show ?thesis
        using Suc.IH [OF s(3)] Cons False step s by (simp add: comp_def del: upt_Suc)
    qed
  qed
qed simp

lemma upto_end:
  assumes "list_all P s" and "s \<noteq> []" and "length s \<le> n"
  shows "\<exists>rest. matches (Seq (Grp k (upto n (Cls P))) Eol) (i, s) = ([(k, s)], i + length s, []) # rest"
proof -
  have "0 < length s" using assms(2) by simp
  then have "0 < n" using assms(3) by (rule order.strict_trans2)
  moreover have "min n (length s) = length s" using assms(3) by simp
  moreover have "rev [1..<Suc (length s)] = length s # rev [1..<length s]"
    using assms(2) by (cases s) simp_all
  ultimately show ?thesis
    using upto_runs [OF assms(1,2), of n i] by (simp add: matches_seq)
qed

lemma search_chr_none: "c \<notin> set s \<Longrightarrow> search_from (Seq (chr c) r) i s = None"
proof (induction s arbitrary: i)
  case Nil
  then show ?case by (subst search_from.simps) (simp add: seq_chr)
next
  case (Cons x s)
  then show ?case by (subst search_from.simps) (auto simp: seq_chr)
qed

end
