(* ===== verification/PoolURI.thy ===== *)
theory PoolURI
  imports Regex CommonData
begin

text \<open>
  The URIs of the pools (\<open>src/libpoolprotocols/PoolURI.h\<close>, \<open>src/libpoolprotocols/PoolURI.cpp\<close>).
  The string algorithms, the conversions and the address parser the constructor takes from boost
  are the fields of \<open>boost_lib\<close>. The constructor is cut where the source has its blocks; each
  block is a function on the record of the members.
\<close>

section \<open>Data\<close>

datatype SecureLevel = SL_NONE | SL_TLS12 | SL_TLS

datatype ProtocolFamily = GETWORK | STRATUM | SIMULATION

datatype UriHostNameType = HT_Unknown | HT_Basic | HT_Dns | HT_IPV4 | HT_IPV6

record SchemeAttributes =
  sch_family :: ProtocolFamily
  sch_secure :: SecureLevel
  sch_version :: nat

definition scheme :: "ProtocolFamily \<Rightarrow> SecureLevel \<Rightarrow> nat \<Rightarrow> SchemeAttributes" where
  "scheme f s v = \<lparr>sch_family = f, sch_secure = s, sch_version = v\<rparr>"

text \<open>The entries in key order.\<close>

definition s_schemes :: "(string \<times> SchemeAttributes) list" where
  "s_schemes =
    [(''getwork'', scheme GETWORK SL_NONE 0),
     (''http'', scheme GETWORK SL_NONE 0),
     (''simulation'', scheme SIMULATION SL_NONE 999),
     (''stratum'', scheme STRATUM SL_NONE 999),
     (''stratum+ssl'', scheme STRATUM SL_TLS12 0),
     (''stratum+tcp'', scheme STRATUM SL_NONE 0),
     (''stratum+tls'', scheme STRATUM SL_TLS 0),
     (''stratum+tls12'', scheme STRATUM SL_TLS12 0),
     (''stratum1+ssl'', scheme STRATUM SL_TLS12 1),
     (''stratum1+tcp'', scheme STRATUM SL_NONE 1),
     (''stratum1+tls'', scheme STRATUM SL_TLS 1),
     (''stratum1+tls12'', scheme STRATUM SL_TLS12 1),
     (''stratum2+ssl'', scheme STRATUM SL_TLS12 2),
     (''stratum2+tcp'', scheme STRATUM SL_NONE 2),
     (''stratum2+tls'', scheme STRATUM SL_TLS 2),
     (''stratum2+tls12'', scheme STRATUM SL_TLS12 2),
     (''stratum3+ssl'', scheme STRATUM SL_TLS12 3),
     (''stratum3+tcp'', scheme STRATUM SL_NONE 3),
     (''stratum3+tls'', scheme STRATUM SL_TLS 3),
     (''stratum3+tls12'', scheme STRATUM SL_TLS12 3),
     (''stratums'', scheme STRATUM SL_TLS 999),
     (''stratumss'', scheme STRATUM SL_TLS12 999)]"

text \<open>
  \<open>ur_isLoopBack\<close> is \<open>None\<close> and \<open>ur_totalDuration\<close> arbitrary until they are first assigned: the
  source gives them no initial value.
\<close>

record URI =
  ur_scheme :: string
  ur_authority :: string
  ur_userinfo :: string
  ur_urlinfo :: string
  ur_hostinfo :: string
  ur_pathinfo :: string
  ur_host :: string
  ur_path :: string
  ur_query :: string
  ur_fragment :: string
  ur_user :: string
  ur_password :: string
  ur_worker :: string
  ur_uri :: string
  ur_stratumMode :: u16
  ur_port :: u16
  ur_stratumModeConfirmed :: bool
  ur_unrecoverable :: bool
  ur_responds :: bool
  ur_hostType :: UriHostNameType
  ur_isLoopBack :: "bool option"
  ur_totalDuration :: u64

definition empty_URI :: "string \<Rightarrow> u64 \<Rightarrow> URI" where
  "empty_URI uri garbage =
     \<lparr>ur_scheme = [], ur_authority = [], ur_userinfo = [], ur_urlinfo = [], ur_hostinfo = [],
      ur_pathinfo = [], ur_host = [], ur_path = [], ur_query = [], ur_fragment = [],
      ur_user = [], ur_password = ''X'', ur_worker = [], ur_uri = uri, ur_stratumMode = 999,
      ur_port = 0, ur_stratumModeConfirmed = False, ur_unrecoverable = False, ur_responds = False,
      ur_hostType = HT_Unknown, ur_isLoopBack = None, ur_totalDuration = garbage\<rparr>"

section \<open>The boost library\<close>

text \<open>
  \<open>bo_address\<close> is \<open>ip::address::from_string\<close>: \<open>None\<close> on an error, otherwise whether the address is
  an IPv6 one and whether it is a loopback address. \<open>bo_replace_all s from to\<close> and
  \<open>bo_lexical_cast\<close> are the algorithms of the same name.
\<close>

record boost_lib =
  bo_to_lower :: "string \<Rightarrow> string"
  bo_replace_all :: "string \<Rightarrow> string \<Rightarrow> string \<Rightarrow> string"
  bo_lexical_cast_u16 :: "string \<Rightarrow> exn + u16"
  bo_address :: "string \<Rightarrow> (bool \<times> bool) option"

section \<open>Percent decoding\<close>

text \<open>
  \<open>is >> std::hex >> value\<close>: leading white space is skipped, a sign and a \<open>0x\<close> prefix are
  accepted, and reading stops at the first character that is no digit.
\<close>

definition scan_hex :: "string \<Rightarrow> int option" where
  "scan_hex s =
     (let s1 = dropWhile is_space s;
          neg = (take 1 s1 = ''-'');
          s2 = (if take 1 s1 = ''-'' \<or> take 1 s1 = ''+'' then drop 1 s1 else s1);
          s3 = (if take 2 s2 = ''0x'' \<or> take 2 s2 = ''0X'' then drop 2 s2 else s2);
          ds = takeWhile is_hexdigit s3
      in if ds = [] then None
         else Some (if neg then - int (hexnum ds) else int (hexnum ds)))"

text \<open>\<open>static_cast<char>(value)\<close>.\<close>

definition to_char :: "int \<Rightarrow> char" where
  "to_char v = char_of (nat (v mod 256))"

text \<open>\<open>None\<close> when the function returns \<open>false\<close>; its output is then not used.\<close>

fun url_decode :: "string \<Rightarrow> string option" where
  "url_decode [] = Some []"
| "url_decode (c # cs) =
     (if c = CHR ''%'' then
        (case cs of
           a # b # rest \<Rightarrow>
             (case scan_hex [a, b] of
                Some v \<Rightarrow> map_option (Cons (to_char v)) (url_decode rest)
              | None \<Rightarrow> None)
         | _ \<Rightarrow> None)
      else if c = CHR ''+'' then map_option (Cons (CHR '' '')) (url_decode cs)
      else map_option (Cons c) (url_decode cs))"

definition decoded :: "string \<Rightarrow> string" where
  "decoded s = (case url_decode s of Some t \<Rightarrow> t | None \<Rightarrow> s)"

section \<open>The regular expressions\<close>

definition is_scheme_char :: "char \<Rightarrow> bool" where
  "is_scheme_char c =
     (let n = (of_char c :: nat) in
      97 \<le> n \<and> n \<le> 122 \<or> 65 \<le> n \<and> n \<le> 90 \<or> 48 \<le> n \<and> n \<le> 57 \<or> c = CHR ''+'')"

definition is_decdigit :: "char \<Rightarrow> bool" where
  "is_decdigit c = (let n = (of_char c :: nat) in 48 \<le> n \<and> n \<le> 57)"

definition is_alnum :: "char \<Rightarrow> bool" where
  "is_alnum c =
     (let n = (of_char c :: nat) in 97 \<le> n \<and> n \<le> 122 \<or> 65 \<le> n \<and> n \<le> 90 \<or> 48 \<le> n \<and> n \<le> 57)"

definition re_sch_auth :: re where
  "re_sch_auth = seq_list [Bol, Grp 1 (Seq (Cls is_scheme_char) (Star (Cls is_scheme_char))),
     chr (CHR '':''), chr (CHR ''/''), chr (CHR ''/''), Grp 2 dots, Eol]"

definition re_usr_url :: re where
  "re_usr_url = seq_list [Bol, Grp 1 dots, chr (CHR ''@''), Grp 2 dots, Eol]"

definition re_btick :: re where
  "re_btick = seq_list [chr (CHR ''`''), Grp 1 (Star (Cls (\<lambda>c. c \<noteq> CHR ''`''))), chr (CHR ''`'')]"

definition re_user_worker_pass :: re where
  "re_user_worker_pass =
     seq_list [Bol, Grp 1 dots, chr (CHR ''.''), Grp 2 dots, chr (CHR '':''), Grp 3 dots, Eol]"

definition re_user_pass :: re where
  "re_user_pass = seq_list [Bol, Grp 1 dots, chr (CHR '':''), Grp 2 dots, Eol]"

definition re_user_worker :: re where
  "re_user_worker = seq_list [Bol, Grp 1 dots, chr (CHR ''.''), Grp 2 dots, Eol]"

definition re_host :: re where
  "re_host = seq_list [Bol, Grp 1 dots, chr (CHR '':''), Grp 2 (upto 5 (Cls is_decdigit)), Eol]"

definition re_path_query_fragment :: re where
  "re_path_query_fragment =
     seq_list [Grp 1 (Seq (chr (CHR ''/'')) dots), chr (CHR ''?''), Grp 2 dots, chr (CHR ''#''), Grp 3 dots, Eol]"

definition re_path_fragment :: re where
  "re_path_fragment = seq_list [Grp 1 (Seq (chr (CHR ''/'')) dots), chr (CHR ''#''), Grp 2 dots, Eol]"

definition re_path_query :: re where
  "re_path_query = seq_list [Grp 1 (Seq (chr (CHR ''/'')) dots), chr (CHR ''?''), Grp 2 dots, Eol]"

text \<open>A label of a host name: alphanumeric, or with hyphens strictly inside.\<close>

definition re_label :: re where
  "re_label = Alt (Cls is_alnum)
     (seq_list [Cls is_alnum, Star (Cls (\<lambda>c. is_alnum c \<or> c = CHR ''-'')), Cls is_alnum])"

definition re_hostName :: re where
  "re_hostName = seq_list [Bol, Star (Seq re_label (chr (CHR ''.''))), re_label, Eol]"

section \<open>The constructor\<close>

text \<open>The parts in backticks, under the tokens \<open>_0\<close>, \<open>_1\<close>, ... in the order of the map.\<close>

definition btick_blocks :: "string \<Rightarrow> (string \<times> string) list" where
  "btick_blocks authority =
     fold (\<lambda>(i, c) m. map_set (''_'' @ decstr i) (group c 1) m)
       (enumerate 0 (regex_iterate re_btick 0 authority)) []"

definition hide_bticks :: "boost_lib \<Rightarrow> (string \<times> string) list \<Rightarrow> string \<Rightarrow> string" where
  "hide_bticks bo blocks s =
     fold (\<lambda>(k, v) s. bo_replace_all bo s (''`'' @ v @ ''`'') (''`'' @ k @ ''`'')) blocks s"

definition restore_bticks :: "boost_lib \<Rightarrow> (string \<times> string) list \<Rightarrow> string \<Rightarrow> string" where
  "restore_bticks bo blocks s =
     fold (\<lambda>(k, v) s. bo_replace_all bo s (''`'' @ k @ ''`'') v) blocks s"

text \<open>Splitting of the user information; the default password is kept when none is given.\<close>

definition split_user :: "string \<Rightarrow> URI \<Rightarrow> URI" where
  "split_user info u =
     (case regex_search re_user_worker_pass info of
        Some c \<Rightarrow> u\<lparr>ur_user := group c 1, ur_worker := group c 2, ur_password := group c 3\<rparr>
      | None \<Rightarrow> (case regex_search re_user_pass info of
          Some c \<Rightarrow> u\<lparr>ur_user := group c 1, ur_password := group c 2\<rparr>
        | None \<Rightarrow> (case regex_search re_user_worker info of
            Some c \<Rightarrow> u\<lparr>ur_user := group c 1, ur_worker := group c 2\<rparr>
          | None \<Rightarrow> u\<lparr>ur_user := info\<rparr>)))"

definition parse_userinfo :: "boost_lib \<Rightarrow> URI \<Rightarrow> URI" where
  "parse_userinfo bo u =
     (if ur_userinfo u = [] then u
      else let blocks = btick_blocks (ur_authority u);
               info = hide_bticks bo blocks (ur_userinfo u);
               u1 = split_user info (u\<lparr>ur_userinfo := info\<rparr>);
               res = restore_bticks bo blocks
           in u1\<lparr>ur_userinfo := res (ur_userinfo u1), ur_user := res (ur_user u1),
                 ur_worker := res (ur_worker u1), ur_password := res (ur_password u1)\<rparr>)"

definition parse_hostinfo :: "boost_lib \<Rightarrow> URI \<Rightarrow> exn + URI" where
  "parse_hostinfo bo u =
     (let (h, p) = (case find_char (CHR ''/'') (ur_urlinfo u) of
                      Some k \<Rightarrow> (take k (ur_urlinfo u), drop k (ur_urlinfo u))
                    | None \<Rightarrow> (ur_urlinfo u, ur_pathinfo u));
          u1 = u\<lparr>ur_hostinfo := bo_to_lower bo h, ur_pathinfo := p\<rparr>
      in case regex_search re_host (ur_hostinfo u1) of
           Some c \<Rightarrow> map_sum id (\<lambda>n. u1\<lparr>ur_host := group c 1, ur_port := n\<rparr>)
                      (bo_lexical_cast_u16 bo (group c 2))
         | None \<Rightarrow> Inr (u1\<lparr>ur_host := ur_hostinfo u1\<rparr>))"

text \<open>
  The loop over the path patterns assigns the whole path information to \<open>m_path\<close> as long as no
  pattern has matched, so an earlier turn may set it before a later one matches.
\<close>

definition parse_pathinfo :: "URI \<Rightarrow> URI" where
  "parse_pathinfo u =
     (if ur_pathinfo u = [] then u
      else case regex_search re_path_query_fragment (ur_pathinfo u) of
        Some c \<Rightarrow> u\<lparr>ur_path := group c 1, ur_query := group c 2, ur_fragment := group c 3\<rparr>
      | None \<Rightarrow> (case regex_search re_path_fragment (ur_pathinfo u) of
          Some c \<Rightarrow> u\<lparr>ur_path := group c 1, ur_fragment := group c 2\<rparr>
        | None \<Rightarrow> (case regex_search re_path_query (ur_pathinfo u) of
            Some c \<Rightarrow> u\<lparr>ur_path := group c 1, ur_query := group c 2\<rparr>
          | None \<Rightarrow> u\<lparr>ur_path := ur_pathinfo u\<rparr>)))"

definition parse_hostType :: "boost_lib \<Rightarrow> URI \<Rightarrow> URI" where
  "parse_hostType bo u =
     (case bo_address bo (ur_host u) of
        Some (v6, loopback) \<Rightarrow> u\<lparr>ur_hostType := (if v6 then HT_IPV6 else HT_IPV4), ur_isLoopBack := Some loopback\<rparr>
      | None \<Rightarrow> u\<lparr>ur_hostType := (if regex_match re_hostName (ur_host u) then HT_Dns else HT_Basic)\<rparr>)"

definition strip_bticks :: "boost_lib \<Rightarrow> string \<Rightarrow> string" where
  "strip_bticks bo s = (if s \<noteq> [] then bo_replace_all bo s ''`'' [] else s)"

definition decode_all :: "boost_lib \<Rightarrow> URI \<Rightarrow> URI" where
  "decode_all bo u =
     u\<lparr>ur_userinfo := decoded (ur_userinfo u), ur_urlinfo := decoded (ur_urlinfo u),
       ur_hostinfo := decoded (ur_hostinfo u), ur_pathinfo := decoded (ur_pathinfo u),
       ur_path := decoded (ur_path u), ur_query := decoded (ur_query u),
       ur_fragment := decoded (ur_fragment u),
       ur_user := decoded (strip_bticks bo (ur_user u)),
       ur_password := decoded (strip_bticks bo (ur_password u)),
       ur_worker := decoded (strip_bticks bo (ur_worker u))\<rparr>"

definition split_authority :: "URI \<Rightarrow> URI" where
  "split_authority u =
     (case regex_search re_usr_url (ur_authority u) of
        Some d \<Rightarrow> u\<lparr>ur_userinfo := group d 1, ur_urlinfo := group d 2\<rparr>
      | None \<Rightarrow> u\<lparr>ur_urlinfo := ur_authority u\<rparr>)"

text \<open>\<open>garbage\<close> is the indeterminate value of \<open>m_totalDuration\<close>.\<close>

definition new_URI :: "boost_lib \<Rightarrow> u64 \<Rightarrow> string \<Rightarrow> bool \<Rightarrow> exn + URI" where
  "new_URI bo garbage uri sim =
     (case regex_search re_sch_auth uri of
        None \<Rightarrow> Inr (empty_URI uri garbage)
      | Some c \<Rightarrow>
          (let u1 = (empty_URI uri garbage)\<lparr>ur_scheme := bo_to_lower bo (group c 1), ur_authority := group c 2\<rparr>
           in if ur_authority u1 = [] then Inl (RuntimeError ''Invalid authority'')
              else if \<not> sim \<and> ur_scheme u1 = ''simulation'' then Inl (RuntimeError ''Invalid scheme'')
              else if map_of s_schemes (ur_scheme u1) = None then Inl (RuntimeError ''Invalid scheme'')
              else case parse_hostinfo bo (parse_userinfo bo (split_authority u1)) of
                     Inl e \<Rightarrow> Inl e
                   | Inr u3 \<Rightarrow>
                       if ur_host u3 = [] then Inl (RuntimeError ''Missing host'')
                       else Inr (decode_all bo (parse_hostType bo (parse_pathinfo u3)))))"

section \<open>Members\<close>

text \<open>\<open>s_schemes[m_scheme]\<close> inserts a zero-initialised entry for an unknown scheme.\<close>

definition attributes :: "URI \<Rightarrow> SchemeAttributes" where
  "attributes u = (case map_of s_schemes (ur_scheme u) of Some a \<Rightarrow> a | None \<Rightarrow> scheme GETWORK SL_NONE 0)"

definition Family :: "URI \<Rightarrow> ProtocolFamily" where
  "Family u = sch_family (attributes u)"

definition Version :: "URI \<Rightarrow> nat" where
  "Version u = sch_version (attributes u)"

definition SecLevel :: "URI \<Rightarrow> SecureLevel" where
  "SecLevel u = sch_secure (attributes u)"

definition UserDotWorker :: "URI \<Rightarrow> string" where
  "UserDotWorker u = ur_user u @ (if ur_worker u \<noteq> [] then ''.'' @ ur_worker u else [])"

definition KnownSchemes :: "ProtocolFamily \<Rightarrow> string" where
  "KnownSchemes family =
     concat (map (\<lambda>(k, a). if sch_family a = family \<and> sch_version a \<noteq> 999 then k @ '' '' else []) s_schemes)"

definition SetStratumMode :: "u16 \<Rightarrow> bool \<Rightarrow> URI \<Rightarrow> URI" where
  "SetStratumMode mode confirmed u = u\<lparr>ur_stratumMode := mode, ur_stratumModeConfirmed := confirmed\<rparr>"

definition SetStratumMode1 :: "u16 \<Rightarrow> URI \<Rightarrow> URI" where
  "SetStratumMode1 mode u = u\<lparr>ur_stratumMode := mode\<rparr>"

definition MarkUnrecoverable :: "URI \<Rightarrow> URI" where
  "MarkUnrecoverable u = u\<lparr>ur_unrecoverable := True\<rparr>"

definition Responds :: "bool \<Rightarrow> URI \<Rightarrow> URI" where
  "Responds v u = u\<lparr>ur_responds := v\<rparr>"

definition addDuration :: "u64 \<Rightarrow> URI \<Rightarrow> URI" where
  "addDuration minutes u = u\<lparr>ur_totalDuration := ur_totalDuration u + minutes\<rparr>"

section \<open>Percent decoding inverts percent encoding\<close>

text \<open>The specification of the encoder: any set of characters may be left as it is, except \<open>%\<close> and \<open>+\<close>.\<close>

definition percent :: "char \<Rightarrow> string" where
  "percent c = CHR ''%'' # hexfix 2 (of_char c)"

definition url_encode :: "(char \<Rightarrow> bool) \<Rightarrow> string \<Rightarrow> string" where
  "url_encode keep s =
     concat (map (\<lambda>c. if keep c \<and> c \<noteq> CHR ''%'' \<and> c \<noteq> CHR ''+'' then [c] else percent c) s)"

lemma hexdig_not_sign:
  assumes "n < 16"
  shows "hexdig n \<noteq> CHR ''-''" and "hexdig n \<noteq> CHR ''+''" and "hexdig n \<noteq> CHR ''x''"
    and "hexdig n \<noteq> CHR ''X''" and "\<not> is_space (hexdig n)"
proof -
  have "\<forall>n \<in> {0..<16}. hexdig n \<noteq> CHR ''-'' \<and> hexdig n \<noteq> CHR ''+'' \<and> hexdig n \<noteq> CHR ''x'' \<and>
    hexdig n \<noteq> CHR ''X'' \<and> \<not> is_space (hexdig n)"
    by code_simp
  then show "hexdig n \<noteq> CHR ''-''" and "hexdig n \<noteq> CHR ''+''" and "hexdig n \<noteq> CHR ''x''"
    and "hexdig n \<noteq> CHR ''X''" and "\<not> is_space (hexdig n)"
    using assms by simp_all
qed

lemma scan_hex_pair:
  assumes "n < 256"
  shows "scan_hex (hexfix 2 n) = Some (int n)"
proof -
  have h: "hexfix 2 n = [hexdig (n div 16 mod 16), hexdig (n mod 16)]" by (simp add: numeral_2_eq_2)
  have "n div 16 mod 16 < 16" "n mod 16 < 16" by simp_all
  note d = hexdig_not_sign [OF this(1)] hexdig_not_sign [OF this(2)] is_hexdigit_hexdig [OF this(1)]
    is_hexdigit_hexdig [OF this(2)]
  have "hexnum (hexfix 2 n) = n" using assms by simp
  with d show ?thesis
    unfolding h by (simp add: scan_hex_def Let_def)
qed

lemma to_char_of_char: "to_char (int (of_char c)) = c"
  by (simp add: to_char_def nat_mod_distrib)

lemma url_decode_percent: "url_decode (percent c @ s) = map_option (Cons c) (url_decode s)"
proof -
  obtain a b where ab: "hexfix 2 (of_char c) = [a, b]" by (simp add: numeral_2_eq_2)
  moreover have "scan_hex [a, b] = Some (int (of_char c))"
    using scan_hex_pair [of "of_char c"] ab by simp
  ultimately show ?thesis by (simp add: percent_def to_char_of_char)
qed

text \<open>Decoding undoes encoding, whatever set of characters the encoder leaves as it is.\<close>

lemma url_decode_encode: "url_decode (url_encode keep s) = Some s"
proof (induction s)
  case Nil
  show ?case by (simp add: url_encode_def)
next
  case (Cons c s)
  then show ?case
    using url_decode_percent [of c "url_encode keep s"] by (simp add: url_encode_def)
qed

lemma url_decode_plain: "CHR ''%'' \<notin> set s \<Longrightarrow> CHR ''+'' \<notin> set s \<Longrightarrow> url_decode s = Some s"
  by (induction s) auto

lemma decoded_plain: "CHR ''%'' \<notin> set s \<Longrightarrow> CHR ''+'' \<notin> set s \<Longrightarrow> decoded s = s"
  by (simp add: decoded_def url_decode_plain)

section \<open>What the constructor accepts\<close>

lemma parse_hostinfo_keeps:
  "parse_hostinfo bo u = Inr v \<Longrightarrow>
     ur_scheme v = ur_scheme u \<and> ur_uri v = ur_uri u \<and> ur_authority v = ur_authority u \<and>
     ur_stratumMode v = ur_stratumMode u \<and> ur_stratumModeConfirmed v = ur_stratumModeConfirmed u \<and>
     ur_unrecoverable v = ur_unrecoverable u"
  by (auto simp: parse_hostinfo_def Let_def map_sum_def split: option.splits sum.splits prod.splits)

lemma parse_userinfo_keeps [simp]:
  "ur_scheme (parse_userinfo bo u) = ur_scheme u" "ur_uri (parse_userinfo bo u) = ur_uri u"
  "ur_authority (parse_userinfo bo u) = ur_authority u"
  "ur_stratumMode (parse_userinfo bo u) = ur_stratumMode u"
  "ur_stratumModeConfirmed (parse_userinfo bo u) = ur_stratumModeConfirmed u"
  "ur_unrecoverable (parse_userinfo bo u) = ur_unrecoverable u"
  by (simp_all add: parse_userinfo_def split_user_def Let_def split: option.splits)

lemma late_stages_keep [simp]:
  "ur_scheme (decode_all bo (parse_hostType bo (parse_pathinfo u))) = ur_scheme u"
  "ur_uri (decode_all bo (parse_hostType bo (parse_pathinfo u))) = ur_uri u"
  "ur_authority (decode_all bo (parse_hostType bo (parse_pathinfo u))) = ur_authority u"
  "ur_host (decode_all bo (parse_hostType bo (parse_pathinfo u))) = ur_host u"
  "ur_port (decode_all bo (parse_hostType bo (parse_pathinfo u))) = ur_port u"
  "ur_stratumMode (decode_all bo (parse_hostType bo (parse_pathinfo u))) = ur_stratumMode u"
  "ur_stratumModeConfirmed (decode_all bo (parse_hostType bo (parse_pathinfo u))) = ur_stratumModeConfirmed u"
  "ur_unrecoverable (decode_all bo (parse_hostType bo (parse_pathinfo u))) = ur_unrecoverable u"
  by (simp_all add: decode_all_def parse_hostType_def parse_pathinfo_def split: option.splits prod.splits)

text \<open>The family, version and security level of the URI of a known scheme are those of the table.\<close>

definition uri_wf :: "bool \<Rightarrow> URI \<Rightarrow> bool" where
  "uri_wf sim u =
     (map_of s_schemes (ur_scheme u) = Some (attributes u) \<and> ur_authority u \<noteq> [] \<and> ur_host u \<noteq> [] \<and>
      (ur_scheme u = ''simulation'' \<longrightarrow> sim) \<and> ur_stratumMode u = 999 \<and>
      \<not> ur_stratumModeConfirmed u \<and> \<not> ur_unrecoverable u)"

lemma new_URI_cases:
  assumes "new_URI bo g s sim = Inr u"
  shows "regex_search re_sch_auth s = None \<and> u = empty_URI s g \<or>
    regex_search re_sch_auth s \<noteq> None \<and> uri_wf sim u \<and> ur_uri u = s"
proof (cases "regex_search re_sch_auth s")
  case (Some c)
  define u1 where "u1 = (empty_URI s g)\<lparr>ur_scheme := bo_to_lower bo (group c 1), ur_authority := group c 2\<rparr>"
  define u2 where "u2 = split_authority u1"
  have u2: "ur_scheme u2 = ur_scheme u1" "ur_authority u2 = ur_authority u1" "ur_uri u2 = s"
    "ur_stratumMode u2 = 999" "\<not> ur_stratumModeConfirmed u2" "\<not> ur_unrecoverable u2"
    by (simp_all add: u2_def u1_def split_authority_def empty_URI_def split: option.splits)
  from assms Some have "ur_authority u1 \<noteq> []" "sim \<or> ur_scheme u1 \<noteq> ''simulation''"
    "map_of s_schemes (ur_scheme u1) \<noteq> None"
    and ex: "\<exists>u3. parse_hostinfo bo (parse_userinfo bo u2) = Inr u3 \<and> ur_host u3 \<noteq> [] \<and>
      u = decode_all bo (parse_hostType bo (parse_pathinfo u3))"
    unfolding new_URI_def by (auto simp: u1_def u2_def Let_def split: if_splits sum.splits)
  then obtain u3 where "parse_hostinfo bo (parse_userinfo bo u2) = Inr u3" "ur_host u3 \<noteq> []"
      "u = decode_all bo (parse_hostType bo (parse_pathinfo u3))" by blast
  moreover note parse_hostinfo_keeps [OF this(1)]
  ultimately show ?thesis
    using u2 ex \<open>ur_authority u1 \<noteq> []\<close> \<open>sim \<or> _\<close> \<open>map_of _ _ \<noteq> None\<close> Some by (auto simp: uri_wf_def attributes_def)
qed (use assms in \<open>simp add: new_URI_def\<close>)

text \<open>
  An URI object is made only in two ways. A text without a scheme and an authority gives the
  empty URI (no exception). Otherwise the scheme is one of the table, in lower case, and the
  attributes the program reads are those of the table; the authority and the host are not empty;
  the simulation scheme needs the simulation option; and the stratum mode is still undetermined.
\<close>

theorem new_URI_accepts:
  assumes "new_URI bo g s sim = Inr u"
  shows "if regex_search re_sch_auth s = None then u = empty_URI s g
         else uri_wf sim u \<and> ur_uri u = s"
  using new_URI_cases [OF assms] by auto

section \<open>The canonical form is parsed into its parts\<close>

definition no_upper :: "string \<Rightarrow> bool" where
  "no_upper s = list_all (\<lambda>c. let n = (of_char c :: nat) in n < 65 \<or> 90 < n) s"

text \<open>
  The documented behaviour of the boost functions that the parse of a canonical URI relies on: a
  text without capitals is its own lower case form, a replacement of a text whose first character
  does not occur changes nothing, and \<open>lexical_cast\<close> reads what an output stream writes.
\<close>

definition boost_laws :: "boost_lib \<Rightarrow> bool" where
  "boost_laws bo \<longleftrightarrow>
     (\<forall>s. no_upper s \<longrightarrow> bo_to_lower bo s = s) \<and>
     (\<forall>s c f t. c \<notin> set s \<longrightarrow> bo_replace_all bo s (c # f) t = s) \<and>
     (\<forall>n < 2 ^ 16. bo_lexical_cast_u16 bo (decstr n) = Inr (of_nat n))"

text \<open>Texts in which no character has a meaning to the patterns for the user information.\<close>

definition safe :: "string \<Rightarrow> bool" where
  "safe s = list_all (\<lambda>c. is_dot c \<and> c \<notin> set ''.:@`'') s"

definition plain_host :: "string \<Rightarrow> bool" where
  "plain_host s = (s \<noteq> [] \<and> no_upper s \<and> list_all (\<lambda>c. is_dot c \<and> c \<notin> set '':@`%+/'') s)"

definition plain_scheme :: "string \<Rightarrow> bool" where
  "plain_scheme s = (s \<noteq> [] \<and> no_upper s \<and> list_all is_scheme_char s)"

text \<open>The text of a pool with its user, worker and password percent-encoded.\<close>

definition enc :: "string \<Rightarrow> string" where
  "enc = url_encode is_alnum"

definition userinfo_text :: "string \<Rightarrow> string \<Rightarrow> string \<Rightarrow> string" where
  "userinfo_text user worker pass = enc user @ CHR ''.'' # enc worker @ CHR '':'' # enc pass"

definition hostinfo_text :: "string \<Rightarrow> nat \<Rightarrow> string" where
  "hostinfo_text host port = host @ CHR '':'' # decstr port"

definition uri_text :: "string \<Rightarrow> string \<Rightarrow> string \<Rightarrow> string \<Rightarrow> string \<Rightarrow> nat \<Rightarrow> string" where
  "uri_text sch user worker pass host port =
     sch @ ''://'' @ userinfo_text user worker pass @ CHR ''@'' # hostinfo_text host port"

lemma decstr_digits: "set (decstr n) \<subseteq> hexdig ` {0..<10}"
proof (induction n rule: decstr.induct)
  case (1 n)
  then show ?case by (cases "n < 10") (simp_all add: decstr.simps [of n])
qed

lemma length_decstr: "n < 10 ^ k \<Longrightarrow> 0 < k \<Longrightarrow> length (decstr n) \<le> k"
proof (induction n arbitrary: k rule: decstr.induct)
  case (1 n)
  show ?case
  proof (cases "n < 10")
    case False
    with 1 obtain j where j: "k = Suc j" "0 < j" by (cases k; cases "k = 1") auto
    with 1(2) have "n div 10 < 10 ^ j" by (simp add: less_mult_imp_div_less mult.commute)
    with 1(1) [OF False this] j False show ?thesis by (subst decstr.simps) simp
  qed (use 1 in \<open>subst decstr.simps, simp\<close>)
qed

lemma decstr_not_Nil [simp]: "decstr n \<noteq> []"
  by (subst decstr.simps) simp

lemma decdigit_props:
  assumes "d \<in> {0..<10}"
  shows "is_decdigit (hexdig d)" "is_dot (hexdig d)" "hexdig d \<notin> set '':@`%+/.''" "no_upper [hexdig d]"
proof -
  have h: "hexdig d = char_of (48 + d)" using assms by (simp add: hexdig_def)
  have n: "of_char (hexdig d) = 48 + d" using assms by (simp add: of_char_hexdig)
  show "is_decdigit (hexdig d)" "is_dot (hexdig d)" "no_upper [hexdig d]"
    using assms n by (simp_all add: is_decdigit_def is_dot_def no_upper_def)
  have "hexdig d \<noteq> c" if "of_char c \<noteq> 48 + d" for c using that n by auto
  then show "hexdig d \<notin> set '':@`%+/.''" using assms by simp
qed

lemma decstr_char:
  assumes "c \<in> set (decstr n)"
  shows "is_decdigit c" "is_dot c" "c \<notin> set '':@`%+/.''" "no_upper [c]"
proof -
  from decstr_digits assms obtain d where "d \<in> {0..<10}" "c = hexdig d" by blast
  with decdigit_props [OF this(1)] show "is_decdigit c" "is_dot c" "c \<notin> set '':@`%+/.''" "no_upper [c]"
    by simp_all
qed

lemma decstr_chars:
  "list_all is_decdigit (decstr n)" "list_all is_dot (decstr n)" "no_upper (decstr n)"
  using decstr_char [of _ n] by (auto simp: list_all_iff no_upper_def)

lemma no_upper_append [simp]: "no_upper (s @ t) = (no_upper s \<and> no_upper t)"
  by (simp add: no_upper_def)

lemma search_sch_auth:
  assumes "plain_scheme s" and "list_all is_dot a"
  shows "regex_search re_sch_auth (s @ ''://'' @ a) = Some [(1, s), (2, a)]"
proof -
  have "\<not> is_scheme_char (CHR '':'')" by code_simp
  then have run: "takeWhile is_scheme_char (s @ ''://'' @ a) = s"
    using assms(1) by (simp add: plain_scheme_def list_all_iff takeWhile_append2)
  let ?r = "Seq (chr (CHR '':'')) (Seq (chr (CHR ''/'')) (Seq (chr (CHR ''/'')) (Seq (Grp 2 dots) Eol)))"
  obtain ms where "matches ?r (0 + length s, drop (length s) (s @ ''://'' @ a)) =
      ([(2, a)], 0 + length s + 3 + length a, []) # ms"
    using seq_captured_end [OF assms(2), of 2 "length s + 3"] by (auto simp: seq_chr numeral_3_eq_3)
  from seq_run_first [OF run _ this, of 1] assms(1) show ?thesis
    by (auto simp: re_sch_auth_def search_bol plain_scheme_def)
qed

lemma search_host:
  assumes "list_all is_dot h" and "n < 10 ^ 5"
  shows "regex_search re_host (hostinfo_text h n) = Some [(1, h), (2, decstr n)]"
proof -
  let ?r = "Seq (chr (CHR '':'')) (Seq (Grp 2 (upto 5 (Cls is_decdigit))) Eol)"
  have colon: "CHR '':'' \<notin> set (drop k (decstr n))" for k
    using decstr_char(3) [of "CHR '':''" n] by (auto dest: in_set_dropD)
  have none: "matches ?r (0 + length h + j, drop j (CHR '':'' # decstr n)) = []"
    if "0 < j" "j \<le> length (CHR '':'' # decstr n)" for j
    using that colon [of "j - 1"] by (cases j; cases "drop (j - 1) (decstr n)") (auto simp: seq_chr)
  have dot: "list_all is_dot (h @ CHR '':'' # decstr n)"
    using assms decstr_chars(2) by (simp add: is_dot_def)
  obtain ms where "matches ?r (0 + length h, CHR '':'' # decstr n) =
      ([(2, decstr n)], Suc (length h) + length (decstr n), []) # ms"
    using upto_end [OF decstr_chars(1) decstr_not_Nil length_decstr [OF assms(2)], where k = 2 and i = "Suc (length h)"]
    by (auto simp: seq_chr)
  from seq_captured_first [OF dot none this, where k = 1] show ?thesis
    by (auto simp: re_host_def hostinfo_text_def search_bol)
qed

definition safe_code :: "nat \<Rightarrow> bool" where
  "safe_code n = (n = 37 \<or> 48 \<le> n \<and> n \<le> 57 \<or> 65 \<le> n \<and> n \<noteq> 96)"

lemma safe_codes: "\<forall>c \<in> set s. safe_code (of_char c) \<Longrightarrow> safe s"
  by (fastforce simp: safe_def list_all_iff is_dot_def safe_code_def)

lemma safe_code_hexdig: "safe_code (of_char (hexdig (n mod 16)))"
  using of_char_hexdig [of "n mod 16"] by (auto simp: safe_code_def)

lemma safe_enc: "safe (enc s)"
proof (rule safe_codes, rule ballI)
  fix c assume "c \<in> set (enc s)"
  then obtain x where "is_alnum c \<or> c \<in> set (percent x)"
    by (auto simp: enc_def url_encode_def split: if_splits)
  then show "safe_code (of_char c)"
    using safe_code_hexdig by (auto simp: is_alnum_def Let_def percent_def numeral_2_eq_2 safe_code_def)
qed

lemma decoded_enc: "decoded (enc s) = s"
  by (simp add: decoded_def enc_def url_decode_encode)

lemma no_bticks: "CHR ''`'' \<notin> set a \<Longrightarrow> btick_blocks a = []"
  by (subst btick_blocks_def, subst regex_iterate.simps) (simp add: re_btick_def search_chr_none)

lemma safeD:
  assumes "safe s"
  shows "list_all is_dot s" "CHR ''.'' \<notin> set s" "CHR '':'' \<notin> set s" "CHR ''@'' \<notin> set s" "CHR ''`'' \<notin> set s"
  using assms by (auto simp: safe_def list_all_iff)

lemmas enc_chars = safeD [OF safe_enc]

lemma sep_dots [simp]: "is_dot (CHR ''.'')" "is_dot (CHR '':'')" "is_dot (CHR ''@'')"
  by (simp_all add: is_dot_def)

lemma split_userinfo_text:
  "split_user (userinfo_text a b c) u = u\<lparr>ur_user := enc a, ur_worker := enc b, ur_password := enc c\<rparr>"
proof -
  have "regex_search re_user_worker_pass (userinfo_text a b c) = Some [(1, enc a), (2, enc b), (3, enc c)]"
    unfolding re_user_worker_pass_def userinfo_text_def
    by (rule search_split2) (simp_all add: enc_chars)
  then show ?thesis by (simp add: split_user_def group_def)
qed

lemma plain_hostD:
  assumes "plain_host h"
  shows "list_all is_dot (hostinfo_text h n)" "no_upper (hostinfo_text h n)"
    "CHR ''/'' \<notin> set (hostinfo_text h n)" "CHR ''@'' \<notin> set (hostinfo_text h n)" "CHR ''`'' \<notin> set (hostinfo_text h n)"
    "list_all is_dot h" "h \<noteq> []"
  using assms decstr_chars [of n] decstr_char(3) [of _ n]
  by (auto simp: plain_host_def hostinfo_text_def list_all_iff no_upper_def)

lemma parse_hostinfo_text:
  assumes "boost_laws bo" and "plain_host h" and "n < 2 ^ 16"
    and "ur_urlinfo u = hostinfo_text h n" and "ur_pathinfo u = []"
  shows "parse_hostinfo bo u = Inr (u\<lparr>ur_hostinfo := hostinfo_text h n, ur_pathinfo := [], ur_host := h, ur_port := of_nat n\<rparr>)"
proof -
  have "regex_search re_host (hostinfo_text h n) = Some [(1, h), (2, decstr n)]"
    using plain_hostD [OF assms(2)] assms(3) by (intro search_host) simp_all
  moreover have none: "find_char (CHR ''/'') (hostinfo_text h n) = None"
    using plain_hostD [OF assms(2)] by simp
  moreover have "bo_to_lower bo (hostinfo_text h n) = hostinfo_text h n"
    "bo_lexical_cast_u16 bo (decstr n) = Inr (of_nat n)"
    using assms(1,3) plain_hostD [OF assms(2)] by (simp_all add: boost_laws_def)
  ultimately show ?thesis using assms(4,5) by (simp add: none parse_hostinfo_def Let_def group_def del: find_char_None)
qed

lemma hostType_decode:
  "ur_scheme (decode_all bo (parse_hostType bo u)) = ur_scheme u"
  "ur_host (decode_all bo (parse_hostType bo u)) = ur_host u"
  "ur_port (decode_all bo (parse_hostType bo u)) = ur_port u"
  "ur_path (decode_all bo (parse_hostType bo u)) = decoded (ur_path u)"
  "ur_user (decode_all bo (parse_hostType bo u)) = decoded (strip_bticks bo (ur_user u))"
  "ur_worker (decode_all bo (parse_hostType bo u)) = decoded (strip_bticks bo (ur_worker u))"
  "ur_password (decode_all bo (parse_hostType bo u)) = decoded (strip_bticks bo (ur_password u))"
  by (simp_all add: decode_all_def parse_hostType_def split: option.splits prod.splits)

lemma strip_safe: "boost_laws bo \<Longrightarrow> safe s \<Longrightarrow> strip_bticks bo s = s"
  using safeD(5) by (simp add: strip_bticks_def boost_laws_def)

section \<open>A concrete instance of the library\<close>

definition lower_char :: "char \<Rightarrow> char" where
  "lower_char c = (let n = (of_char c :: nat) in if 65 \<le> n \<and> n \<le> 90 then char_of (n + 32) else c)"

text \<open>\<open>skip\<close> counts the characters of the occurrence that has just been replaced.\<close>

fun replace_scan :: "nat \<Rightarrow> string \<Rightarrow> string \<Rightarrow> string \<Rightarrow> string" where
  "replace_scan skip [] from to = []"
| "replace_scan (Suc n) (c # cs) from to = replace_scan n cs from to"
| "replace_scan 0 (c # cs) from to =
     (if from \<noteq> [] \<and> take (length from) (c # cs) = from then to @ replace_scan (length from - 1) cs from to
      else c # replace_scan 0 cs from to)"

definition decnum :: "string \<Rightarrow> nat" where
  "decnum = foldl (\<lambda>a c. 10 * a + the (digit_val c)) 0"

definition sample_boost :: boost_lib where
  "sample_boost =
     \<lparr>bo_to_lower = map lower_char, bo_replace_all = replace_scan 0,
      bo_lexical_cast_u16 =
        (\<lambda>s. if s \<noteq> [] \<and> list_all is_decdigit s \<and> decnum s < 2 ^ 16 then Inr (of_nat (decnum s)) else Inl InvalidArgument),
      bo_address = (\<lambda>s. if s = ''127.0.0.1'' then Some (False, True) else None)\<rparr>"

lemma decnum_decstr: "decnum (decstr n) = n"
proof (induction n rule: decstr.induct)
  case (1 n)
  then show ?case by (cases "n < 10") (simp_all add: decstr.simps [of n] decnum_def)
qed

lemma replace_scan_none: "c \<notin> set s \<Longrightarrow> replace_scan 0 s (c # f) t = s"
  by (induction s) auto

lemma sample_boost_laws: "boost_laws sample_boost"
proof -
  have "map lower_char s = s" if "no_upper s" for s
    using that by (induction s) (auto simp: no_upper_def lower_char_def Let_def)
  then show ?thesis
    by (simp add: boost_laws_def sample_boost_def replace_scan_none decnum_decstr decstr_chars)
qed

section \<open>The round trip\<close>

text \<open>
  C22: The text of a pool is parsed into its parts. For every scheme of the table, any user,
  worker and password (percent-encoded, of any characters), any lower case host name without
  reserved characters and any port, the constructor succeeds and the members hold exactly these.
\<close>

theorem new_URI_canonical:
  assumes "boost_laws bo" and "plain_scheme sch" and "map_of s_schemes sch = Some att"
    and "sch = ''simulation'' \<Longrightarrow> sim" and "plain_host host" and "port < 2 ^ 16"
  shows "\<exists>u. new_URI bo g (uri_text sch user worker pass host port) sim = Inr u \<and>
    ur_scheme u = sch \<and> attributes u = att \<and> ur_user u = user \<and> ur_worker u = worker \<and>
    ur_password u = pass \<and> ur_host u = host \<and> ur_port u = of_nat port \<and> ur_path u = []"
proof -
  let ?a = "userinfo_text user worker pass @ CHR ''@'' # hostinfo_text host port"
  define u1 where "u1 = (empty_URI (uri_text sch user worker pass host port) g)\<lparr>ur_scheme := sch, ur_authority := ?a\<rparr>"
  have ui: "list_all is_dot (userinfo_text user worker pass)" "CHR ''`'' \<notin> set (userinfo_text user worker pass)"
    "userinfo_text user worker pass \<noteq> []"
    by (simp_all add: userinfo_text_def enc_chars)
  note h = plain_hostD(1-5) [OF assms(5), of port]
  have "regex_search re_sch_auth (uri_text sch user worker pass host port) = Some [(1, sch), (2, ?a)]"
    unfolding uri_text_def using ui h by (intro search_sch_auth [OF assms(2)]) simp
  moreover have "bo_to_lower bo sch = sch" using assms(1,2) by (simp add: boost_laws_def plain_scheme_def)
  moreover have "regex_search re_usr_url ?a =
      Some [(1, userinfo_text user worker pass), (2, hostinfo_text host port)]"
    unfolding re_usr_url_def using ui h by (intro search_split) simp_all
  then have "split_authority u1 =
      u1\<lparr>ur_userinfo := userinfo_text user worker pass, ur_urlinfo := hostinfo_text host port\<rparr>"
    by (simp add: split_authority_def u1_def group_def)
  moreover have "parse_userinfo bo (split_authority u1) = (split_authority u1)
      \<lparr>ur_user := enc user, ur_worker := enc worker, ur_password := enc pass\<rparr>"
    using calculation ui h
    by (simp add: parse_userinfo_def u1_def no_bticks hide_bticks_def restore_bticks_def Let_def
        split_userinfo_text)
  moreover define u3 where "u3 = (parse_userinfo bo (split_authority u1))
    \<lparr>ur_hostinfo := hostinfo_text host port, ur_pathinfo := [], ur_host := host, ur_port := of_nat port\<rparr>"
  moreover have "parse_hostinfo bo (parse_userinfo bo (split_authority u1)) = Inr u3"
    unfolding u3_def using calculation
    by (intro parse_hostinfo_text [OF assms(1,5,6)]) (simp_all add: u1_def empty_URI_def)
  moreover have "ur_scheme u1 = sch" "ur_authority u1 = ?a" "ur_path u1 = []"
    by (simp_all add: u1_def empty_URI_def)
  ultimately have "new_URI bo g (uri_text sch user worker pass host port) sim =
      Inr (decode_all bo (parse_hostType bo u3))"
    and "ur_scheme u3 = sch" "ur_user u3 = enc user" "ur_worker u3 = enc worker"
    "ur_password u3 = enc pass" "ur_host u3 = host" "ur_port u3 = of_nat port" "ur_path u3 = []"
    using assms(3,4) plain_hostD(7) [OF assms(5)]
    by (auto simp: new_URI_def Let_def group_def u1_def [symmetric] parse_pathinfo_def)
  then show ?thesis
    using assms(1,3) by (simp add: hostType_decode attributes_def strip_safe safe_enc decoded_enc decoded_plain)
qed

theorem new_URI_canonical_witness:
  "\<exists>u. new_URI sample_boost 0 (uri_text ''stratum1+tls'' ''cb57.b@d'' ''rig 1'' ''p:w'' ''eu.pool.example'' 4444) False = Inr u \<and>
    ur_scheme u = ''stratum1+tls'' \<and> attributes u = scheme STRATUM SL_TLS 1 \<and> ur_user u = ''cb57.b@d'' \<and>
    ur_worker u = ''rig 1'' \<and> ur_password u = ''p:w'' \<and> ur_host u = ''eu.pool.example'' \<and>
    ur_port u = of_nat 4444 \<and> ur_path u = []"
proof (rule new_URI_canonical)
  show "boost_laws sample_boost" by (rule sample_boost_laws)
  show "plain_scheme ''stratum1+tls''" "plain_host ''eu.pool.example''" by code_simp+
  show "map_of s_schemes ''stratum1+tls'' = Some (scheme STRATUM SL_TLS 1)" by (simp add: s_schemes_def)
qed simp_all

theorem new_URI_accepts_witness:
  "\<exists>u. new_URI sample_boost 0 ''http://a'' False = Inr u \<and> uri_wf False u \<and> ur_uri u = ''http://a''"
proof -
  have "case new_URI sample_boost 0 ''http://a'' False of Inr u \<Rightarrow> True | Inl e \<Rightarrow> False" by code_simp
  then obtain u where u: "new_URI sample_boost 0 ''http://a'' False = Inr u"
    by (auto split: sum.splits)
  have "regex_search re_sch_auth ''http://a'' = Some [(1, ''http''), (2, ''a'')]" by code_simp
  with new_URI_accepts [OF u] u show ?thesis by simp
qed

end
