(* ===== verification/Display.thy ===== *)
theory Display
  imports Farm PoolURI
begin

text \<open>
  Numbers shown to the user and exchanged with the pools: the boundary that belongs to a
  difficulty and back, scaled sizes (\<open>src/libdevcore/CommonData.cpp\<close>) and the status line
  (\<open>TelemetryType::str\<close> in \<open>src/libethcore/Miner.h\<close>). Floating point results are rounded by
  \<open>rnd\<close>, an argument; the printing of floating point numbers is an argument as well.
\<close>

section \<open>Multiprecision integers\<close>

text \<open>
  What the program uses of boost's \<open>cpp_int\<close>: integers of any size, built from a text (which may
  throw) or from a floating point number, their division (which throws on zero) and their output in
  hexadecimal. \<open>mp_lexical_double\<close> is \<open>lexical_cast<std::string>\<close> of a \<open>double\<close>.
\<close>

record multiprecision =
  mp_of_string :: "string \<Rightarrow> exn + int"
  mp_of_double :: "real \<Rightarrow> int"
  mp_div :: "int \<Rightarrow> int \<Rightarrow> exn + int"
  mp_to_double :: "int \<Rightarrow> real"
  mp_hex :: "int \<Rightarrow> string"
  mp_lexical_double :: "real \<Rightarrow> string"

section \<open>Difficulty and boundary\<close>

definition base_target :: string where
  "base_target = ''0x00000000ffff0000000000000000000000000000000000000000000000000000''"

definition max_target :: string where
  "max_target = ''0xffffffffffffffffffffffffffffffffffffffffffffffffffffffffffffffff''"

text \<open>
  The decimal places of the text of \<open>1 / diff\<close>, without leading zeros.
  \<open>find_first_not_of\<close> returns \<open>npos\<close> when there are only zeros, and everything is erased.
\<close>

definition decimal_product :: "multiprecision \<Rightarrow> int \<Rightarrow> string \<Rightarrow> nat \<Rightarrow> exn + int" where
  "decimal_product mp base sdiff offset =
     (let precision = (length sdiff - 1) - offset;
          decimals = dropWhile (\<lambda>c. c = CHR ''0'') (drop (offset + 1) sdiff);
          decimalDivisor = CHR ''1'' # replicate precision (CHR ''0'')
      in case mp_of_string mp decimals of
           Inl e \<Rightarrow> Inl e
         | Inr multiplier \<Rightarrow>
             (case mp_of_string mp decimalDivisor of
                Inl e \<Rightarrow> Inl e
              | Inr divisor \<Rightarrow> mp_div mp (base * multiplier) divisor))"

definition target_product :: "multiprecision \<Rightarrow> (real \<Rightarrow> real) \<Rightarrow> real \<Rightarrow> exn + int" where
  "target_product mp rnd diff =
     (if diff = 0 then mp_of_string mp max_target
      else let diff' = rnd (1 / diff) in
        case mp_of_string mp base_target of
          Inl e \<Rightarrow> Inl e
        | Inr base \<Rightarrow>
            (let product = base * mp_of_double mp diff';
                 sdiff = mp_lexical_double mp diff'
             in case find_char (CHR ''.'') sdiff of
                  None \<Rightarrow> Inr product
                | Some offset \<Rightarrow> map_sum id (\<lambda>d. product + d) (decimal_product mp base sdiff offset)))"

definition getTargetFromDiff ::
  "multiprecision \<Rightarrow> boost_lib \<Rightarrow> (real \<Rightarrow> real) \<Rightarrow> real \<Rightarrow> HexPrefix \<Rightarrow> exn + string" where
  "getTargetFromDiff mp bo rnd diff p =
     map_sum id (\<lambda>product. bo_to_lower bo (add_prefix p (setw 64 (CHR ''0'') (mp_hex mp product))))
       (target_product mp rnd diff)"

definition getHashesToTarget :: "multiprecision \<Rightarrow> string \<Rightarrow> exn + real" where
  "getHashesToTarget mp target =
     (case mp_of_string mp ''0xffff000000000000000000000000000000000000000000000000000000000000'' of
        Inl e \<Rightarrow> Inl e
      | Inr dividend \<Rightarrow>
          (case mp_of_string mp target of
             Inl e \<Rightarrow> Inl e
           | Inr divisor \<Rightarrow> map_sum id (mp_to_double mp) (mp_div mp dividend divisor)))"

section \<open>Scaled sizes\<close>

datatype ScaleSuffix = DontAddSuffix | AddSuffix

text \<open>The loop condition \<open>i <= _numsizes - 1\<close> bounds the number of turns by \<open>_numsizes\<close>.\<close>

function scale_loop :: "(real \<Rightarrow> real) \<Rightarrow> real \<Rightarrow> nat \<Rightarrow> real \<Rightarrow> nat \<Rightarrow> real \<times> nat" where
  "scale_loop rnd divisor numsizes v i =
     (if v > divisor \<and> i \<le> numsizes - 1 then scale_loop rnd divisor numsizes (rnd (v / divisor)) (i + 1)
      else (v, i))"
  by auto
termination by (relation "measure (\<lambda>(r, d, n, v, i). Suc n - i)") auto

declare scale_loop.simps [simp del]

text \<open>\<open>fmt p v\<close> is \<open>v\<close> printed with \<open>std::fixed\<close> and \<open>p\<close> decimals; \<open>_sizes[i]\<close> is unchecked.\<close>

definition getScaledSize ::
  "(real \<Rightarrow> real) \<Rightarrow> (int \<Rightarrow> real \<Rightarrow> string) \<Rightarrow> real \<Rightarrow> real \<Rightarrow> int \<Rightarrow> string list \<Rightarrow> nat \<Rightarrow> ScaleSuffix \<Rightarrow> exn + string" where
  "getScaledSize rnd fmt value divisor precision sizes numsizes suffix =
     (let (newvalue, i) = scale_loop rnd divisor numsizes value 0 in
      case suffix of
        DontAddSuffix \<Rightarrow> Inr (fmt precision newvalue)
      | AddSuffix \<Rightarrow> (if i < length sizes then Inr (fmt precision newvalue @ '' '' @ sizes ! i) else Inl UndefinedBehaviour))"

definition getFormattedHashes ::
  "(real \<Rightarrow> real) \<Rightarrow> (int \<Rightarrow> real \<Rightarrow> string) \<Rightarrow> real \<Rightarrow> ScaleSuffix \<Rightarrow> int \<Rightarrow> exn + string" where
  "getFormattedHashes rnd fmt hr suffix precision =
     getScaledSize rnd fmt hr 1000 precision [''h'', ''Kh'', ''Mh'', ''Gh''] 4 suffix"

definition getFormattedMemory ::
  "(real \<Rightarrow> real) \<Rightarrow> (int \<Rightarrow> real \<Rightarrow> string) \<Rightarrow> real \<Rightarrow> ScaleSuffix \<Rightarrow> int \<Rightarrow> exn + string" where
  "getFormattedMemory rnd fmt mem suffix precision =
     getScaledSize rnd fmt mem 1024 precision [''B'', ''KB'', ''MB'', ''GB''] 4 suffix"

section \<open>The status line\<close>

definition esc :: "string \<Rightarrow> string" where
  "esc s = char_of (27 :: nat) # CHR ''['' # s @ ''m''"

text \<open>
  \<open>now - tm_start\<close> is in milliseconds. \<open>pow1000 k\<close> is \<open>pow(1000.0f, k)\<close>. \<open>suffixes[magnitude]\<close> is
  unchecked.
\<close>

definition miner_status :: "(real \<Rightarrow> real) \<Rightarrow> (int \<Rightarrow> real \<Rightarrow> string) \<Rightarrow> (nat \<Rightarrow> real) \<Rightarrow> nat \<Rightarrow> nat \<Rightarrow> TelemetryAccountType \<Rightarrow> string" where
  "miner_status rnd fmt pow1000 magnitude i m =
     (if ta_paused m then esc ''91'' else []) @ ta_prefix m @ decstr i @ '' '' @ esc ''36'' @
     fmt 2 (if ta_hashrate m > 0 then rnd (ta_hashrate m / pow1000 magnitude) else ta_hashrate m) @ esc ''0''"

fun join :: "string \<Rightarrow> string list \<Rightarrow> string" where
  "join sep [] = []"
| "join sep [x] = x"
| "join sep (x # xs) = x @ sep @ join sep xs"

definition TelemetryType_str ::
  "(real \<Rightarrow> real) \<Rightarrow> (int \<Rightarrow> real \<Rightarrow> string) \<Rightarrow> (nat \<Rightarrow> real) \<Rightarrow> nat \<Rightarrow> TelemetryType \<Rightarrow> exn + string" where
  "TelemetryType_str rnd fmt pow1000 now t =
     (let d = now - tm_start t;
          hours = d div 3600000;
          minutes = (d mod 3600000) div 60000;
          (hr, magnitude) = scale_loop rnd 1000 4 (ta_hashrate (tm_farm t)) 0;
          suffixes = [''h'', ''Kh'', ''Mh'', ''Gh'']
      in if magnitude < length suffixes
         then Inr (esc ''32'' @ decstr hours @ '':'' @ setw 2 (CHR ''0'') (decstr minutes) @ esc ''0'' @
                   esc ''1;97'' @ '' '' @ SolutionAccount_str (ta_solutions (tm_farm t)) @ esc ''0'' @ '' '' @
                   esc ''1;36'' @ fmt 2 hr @ '' '' @ suffixes ! magnitude @ esc ''0'' @ '' - '' @
                   join '', '' (map (\<lambda>(i, m). miner_status rnd fmt pow1000 magnitude i m)
                     (enumerate 0 (tm_miners t))))
         else Inl UndefinedBehaviour)"

section \<open>The boundary of a difficulty\<close>

text \<open>
  Documented behaviour of the library: texts starting with \<open>0x\<close> are read as hexadecimal numerals,
  texts starting with another digit than 0 as decimal ones, and a character that is no digit is
  an error; division truncates and throws on zero; a nonnegative \<open>double\<close> is truncated; output in
  hexadecimal has lower case digits and no leading zeros.
\<close>

definition mp_laws :: "multiprecision \<Rightarrow> bool" where
  "mp_laws mp \<longleftrightarrow>
     (\<forall>hs. hs \<noteq> [] \<and> list_all is_hexdigit hs \<longrightarrow> mp_of_string mp (''0x'' @ hs) = Inr (int (hexnum hs))) \<and>
     (\<forall>c ds. c \<noteq> CHR ''0'' \<and> is_decdigit c \<longrightarrow> mp_of_string mp (c # ds) =
        (if list_all is_decdigit ds then Inr (int (decnum (c # ds))) else Inl (RuntimeError ''Unexpected content found while parsing character string.''))) \<and>
     (\<forall>a b. 0 \<le> a \<and> 0 \<le> b \<longrightarrow> mp_div mp a b = (if b = 0 then Inl (RuntimeError ''Division by zero.'') else Inr (a div b))) \<and>
     (\<forall>v \<ge> 0. mp_of_double mp v = \<lfloor>v\<rfloor>) \<and>
     (\<forall>n. mp_hex mp (int n) = hexstr n)"

definition base_value :: nat where
  "base_value = 0xffff * 16 ^ 52"

lemma hex_zeros: "hexnum (s @ replicate k (CHR ''0'')) = hexnum s * 16 ^ k"
  by (simp add: hexnum_append)

lemma base_target_value:
  assumes "mp_laws mp"
  shows "mp_of_string mp base_target = Inr (int base_value)"
proof -
  let ?hs = "''00000000ffff'' @ replicate 52 (CHR ''0'')"
  have "base_target = ''0x'' @ ?hs" by code_simp
  moreover have "list_all is_hexdigit ''00000000ffff''" "hexnum ''00000000ffff'' = 0xffff" "is_hexdigit (CHR ''0'')"
    by (simp_all add: is_hexdigit_def digit_val_def hexnum_def)
  then have "list_all is_hexdigit ?hs" "hexnum ?hs = base_value"
    unfolding base_value_def hex_zeros by (simp_all add: list_all_iff)
  ultimately show ?thesis using assms unfolding mp_laws_def by (metis append_is_Nil_conv list.distinct(1))
qed

lemma decnum_one_zeros: "decnum (CHR ''1'' # replicate k (CHR ''0'')) = 10 ^ k"
proof (induction k)
  case 0
  show ?case by (simp add: decnum_def digit_val_def)
next
  case (Suc k)
  have "CHR ''1'' # replicate (Suc k) (CHR ''0'') = (CHR ''1'' # replicate k (CHR ''0'')) @ [CHR ''0'']"
    by (simp flip: replicate_append_same)
  moreover have "decnum (s @ [CHR ''0'']) = 10 * decnum s" for s by (simp add: decnum_def digit_val_def)
  ultimately show ?case using Suc by (metis power_Suc)
qed

lemma power_of_ten_text:
  assumes "mp_laws mp"
  shows "mp_of_string mp (CHR ''1'' # replicate k (CHR ''0'')) = Inr (10 ^ k)"
proof -
  have "is_decdigit (CHR ''1'')" "is_decdigit (CHR ''0'')" by (simp_all add: is_decdigit_def)
  then show ?thesis
    using assms decnum_one_zeros [of k] unfolding mp_laws_def by (simp add: list_all_iff)
qed

lemma decnum_strip: "decnum (dropWhile (\<lambda>c. c = CHR ''0'') ds) = decnum ds"
  by (induction ds) (simp_all add: decnum_def digit_val_def)

text \<open>\<open>ds\<close> are the decimal places of the text; they contain another character than 0.\<close>

lemma decimal_product_eq:
  assumes "mp_laws mp" and "CHR ''.'' \<notin> set a" and "\<not> list_all (\<lambda>c. c = CHR ''0'') ds"
    and "is_decdigit (hd (dropWhile (\<lambda>c. c = CHR ''0'') ds))"
  shows "decimal_product mp (int base) (a @ CHR ''.'' # ds) (length a) =
    (if list_all is_decdigit (dropWhile (\<lambda>c. c = CHR ''0'') ds)
     then Inr (int (base * decnum ds div 10 ^ length ds))
     else Inl (RuntimeError ''Unexpected content found while parsing character string.''))"
proof -
  obtain c cs where c: "dropWhile (\<lambda>c. c = CHR ''0'') ds = c # cs" "c \<noteq> CHR ''0''"
    using assms(3) dropWhile_eq_Nil_conv [of "\<lambda>c. c = CHR ''0''" ds]
    by (cases "dropWhile (\<lambda>c. c = CHR ''0'') ds") (auto simp: list_all_iff dropWhile_eq_Cons_conv)
  then have d: "is_decdigit c" "decnum (c # cs) = decnum ds"
    using assms(4) decnum_strip [of ds] by simp_all
  have "mp_of_string mp (c # cs) = (if list_all is_decdigit cs then Inr (int (decnum ds))
      else Inl (RuntimeError ''Unexpected content found while parsing character string.''))"
    using assms(1) c(2) d unfolding mp_laws_def by simp
  moreover have "mp_div mp (int base * int (decnum ds)) (10 ^ length ds) =
      Inr (int (base * decnum ds div 10 ^ length ds))"
    using assms(1) unfolding mp_laws_def by (simp add: of_nat_div)
  ultimately show ?thesis
    using c d power_of_ten_text [OF assms(1), of "length ds"] by (simp add: decimal_product_def Let_def)
qed

lemma target_text:
  assumes "boost_laws bo" and "mp_laws mp" and "n < 2 ^ 256"
  shows "\<exists>h. h256_of (bo_to_lower bo (add_prefix p (setw 64 (CHR ''0'') (mp_hex mp (int n))))) = Inr h \<and>
    be_val h = n"
proof -
  have n: "n < 16 ^ 64" using assms(3) by simp
  have "mp_hex mp (int n) = hexstr n" using assms(2) by (simp add: mp_laws_def)
  with n have numeral: "setw 64 (CHR ''0'') (mp_hex mp (int n)) = hexfix 64 n" by (simp add: setw_hexstr)
  have dig: "is_hexdigit c \<and> no_upper [c]" if "c \<in> set (hexfix k m)" for c k m
    using that by (induction k arbitrary: m) (auto simp: no_upper_def of_char_hexdig)
  then have "no_upper (add_prefix p (hexfix 64 n))"
    by (cases p) (auto simp: add_prefix_def no_upper_def list_all_iff)
  then have lower: "bo_to_lower bo (add_prefix p (hexfix 64 n)) = add_prefix p (hexfix 64 n)"
    using assms(1) by (simp add: boost_laws_def)
  have "take 2 (hexfix 64 n) \<noteq> ''0x''"
  proof
    assume "take 2 (hexfix 64 n) = ''0x''"
    then have "CHR ''x'' \<in> set (hexfix 64 n)" by (metis in_set_takeD list.set_intros)
    with dig show False by force
  qed
  then have body: "hexbody (add_prefix p (hexfix 64 n)) = hexfix 64 n"
    by (cases p) (simp_all add: hexbody_def add_prefix_def)
  with dig obtain h where "h256_of (add_prefix p (hexfix 64 n)) = Inr h" "be_val h = hexnum (hexfix 64 n)"
    using FixedHash_string_value [of "add_prefix p (hexfix 64 n)" 32] by auto
  with n lower numeral show ?thesis by simp
qed

text \<open>
  C34: The boundary of a difficulty. When the reciprocal of the difficulty is printed as a decimal
  numeral with integer part \<open>a\<close> and decimal places \<open>ds\<close>, and the result fits into 256 bits, what
  \<open>getTargetFromDiff\<close> returns is read back as the hash of the value
  \<open>base * a + base * ds div 10 ^ |ds|\<close>, where \<open>base\<close> is the boundary of difficulty 1.
\<close>

theorem getTargetFromDiff_value:
  assumes "mp_laws mp" and "boost_laws bo" and "diff \<noteq> 0" and "0 \<le> rnd (1 / diff)"
    and "mp_lexical_double mp (rnd (1 / diff)) = decstr (nat \<lfloor>rnd (1 / diff)\<rfloor>) @ CHR ''.'' # ds"
    and "list_all is_decdigit ds" and "\<not> list_all (\<lambda>c. c = CHR ''0'') ds"
    and "base_value * nat \<lfloor>rnd (1 / diff)\<rfloor> + base_value * decnum ds div 10 ^ length ds < 2 ^ 256"
  shows "\<exists>t h. getTargetFromDiff mp bo rnd diff p = Inr t \<and> h256_of t = Inr h \<and>
    be_val h = base_value * nat \<lfloor>rnd (1 / diff)\<rfloor> + base_value * decnum ds div 10 ^ length ds"
proof -
  let ?a = "nat \<lfloor>rnd (1 / diff)\<rfloor>"
  have dot: "CHR ''.'' \<notin> set (decstr ?a)" using decstr_char(3) [of "CHR ''.''" ?a] by auto
  have dig: "list_all is_decdigit (dropWhile (\<lambda>c. c = CHR ''0'') ds)"
    using assms(6) by (auto simp: list_all_iff dest: set_dropWhileD)
  moreover from this have "is_decdigit (hd (dropWhile (\<lambda>c. c = CHR ''0'') ds))"
    using assms(7) by (cases "dropWhile (\<lambda>c. c = CHR ''0'') ds") (auto simp: list_all_iff)
  ultimately have "decimal_product mp (int base_value) (decstr ?a @ CHR ''.'' # ds) (length (decstr ?a)) =
      Inr (int (base_value * decnum ds div 10 ^ length ds))"
    using decimal_product_eq [OF assms(1) dot assms(7)] by simp
  moreover have "mp_of_double mp (rnd (1 / diff)) = int ?a" using assms(1,4) by (simp add: mp_laws_def)
  ultimately have "target_product mp rnd diff =
      Inr (int (base_value * ?a + base_value * decnum ds div 10 ^ length ds))"
    using assms(3,5) base_target_value [OF assms(1)] find_char_append [OF dot]
    by (simp add: target_product_def Let_def)
  then show ?thesis
    using target_text [OF assms(2,1,8)] by (simp add: getTargetFromDiff_def)
qed

text \<open>
  Difficulties whose reciprocal is printed in scientific notation (\<open>d.ddde-05\<close>: every
  difficulty above 10000) have no boundary: the exponent is taken for decimal places and the
  constructor of the integer throws.
\<close>

theorem getTargetFromDiff_scientific:
  assumes "mp_laws mp" and "diff \<noteq> 0"
    and "mp_lexical_double mp (rnd (1 / diff)) = [d, CHR ''.''] @ ds @ ''e-'' @ es"
    and "d \<noteq> CHR ''.''" and "list_all is_decdigit ds" and "\<not> list_all (\<lambda>c. c = CHR ''0'') ds"
  shows "getTargetFromDiff mp bo rnd diff p =
    Inl (RuntimeError ''Unexpected content found while parsing character string.'')"
proof -
  let ?ds = "ds @ ''e-'' @ es"
  have strip: "dropWhile (\<lambda>c. c = CHR ''0'') ?ds = dropWhile (\<lambda>c. c = CHR ''0'') ds @ ''e-'' @ es"
    using assms(6) by (auto simp: list_all_iff dropWhile_append1)
  have "\<not> is_decdigit (CHR ''e'')" by (simp add: is_decdigit_def)
  moreover have "is_decdigit (hd (dropWhile (\<lambda>c. c = CHR ''0'') ?ds))"
    using assms(5,6) unfolding strip
    by (cases "dropWhile (\<lambda>c. c = CHR ''0'') ds") (auto simp: list_all_iff dropWhile_eq_Nil_conv dest!: arg_cong [of _ _ set] set_dropWhileD)
  ultimately have "decimal_product mp (int base_value) ([d] @ CHR ''.'' # ?ds) (length [d]) =
      Inl (RuntimeError ''Unexpected content found while parsing character string.'')"
    using decimal_product_eq [OF assms(1), of "[d]" ?ds base_value] assms(4,6) strip by simp
  then show ?thesis
    using assms(2-4) base_target_value [OF assms(1)]
    by (simp add: getTargetFromDiff_def target_product_def Let_def)
qed

section \<open>Concrete instance\<close>

definition sample_mp :: multiprecision where
  "sample_mp =
     \<lparr>mp_of_string = (\<lambda>s. if take 2 s = ''0x'' \<and> drop 2 s \<noteq> [] \<and> list_all is_hexdigit (drop 2 s)
          then Inr (int (hexnum (drop 2 s)))
          else if s \<noteq> [] \<and> list_all is_decdigit s then Inr (int (decnum s))
          else Inl (RuntimeError ''Unexpected content found while parsing character string.'')),
      mp_of_double = floor,
      mp_div = (\<lambda>a b. if b = 0 then Inl (RuntimeError ''Division by zero.'') else Inr (a div b)),
      mp_to_double = real_of_int, mp_hex = (\<lambda>v. hexstr (nat v)),
      mp_lexical_double = (\<lambda>v. if v < 1 / 10000 then ''1.0000000000000001e-05'' else ''2.5'')\<rparr>"

lemma sample_mp_laws: "mp_laws sample_mp"
  by (auto simp: mp_laws_def sample_mp_def)

theorem getTargetFromDiff_value_witness:
  "\<exists>t h. getTargetFromDiff sample_mp sample_boost id (2 / 5) Add = Inr t \<and> h256_of t = Inr h \<and>
     be_val h = base_value * 2 + base_value * 5 div 10"
proof -
  have d: "decstr 2 = ''2''" by code_simp
  have n: "decnum ''5'' = 5" by (simp add: decnum_def digit_val_def)
  have "\<exists>t h. getTargetFromDiff sample_mp sample_boost id (2 / 5) Add = Inr t \<and> h256_of t = Inr h \<and>
     be_val h = base_value * nat \<lfloor>id (1 / (2 / 5 :: real))\<rfloor> + base_value * decnum ''5'' div 10 ^ length ''5''"
    by (rule getTargetFromDiff_value [OF sample_mp_laws sample_boost_laws])
       (simp_all add: sample_mp_def d n is_decdigit_def base_value_def)
  then show ?thesis by (simp add: n)
qed

theorem getTargetFromDiff_scientific_witness:
  "getTargetFromDiff sample_mp sample_boost id 100000 Add =
     Inl (RuntimeError ''Unexpected content found while parsing character string.'')"
  by (rule getTargetFromDiff_scientific [OF sample_mp_laws, where d = "CHR ''1''" and ds = "''0000000000000001''" and es = "''05''"])
     (simp_all add: sample_mp_def is_decdigit_def)

section \<open>Scaling\<close>

text \<open>Rounding is monotonic and leaves the powers of 1000 alone.\<close>

definition rounding :: "(real \<Rightarrow> real) \<Rightarrow> bool" where
  "rounding rnd \<longleftrightarrow> mono rnd \<and> (\<forall>k \<le> 4. rnd (1000 ^ k) = 1000 ^ k)"

lemma rounding_le: "rounding rnd \<Longrightarrow> v \<le> 1000 ^ Suc k \<Longrightarrow> k \<le> 4 \<Longrightarrow> rnd (v / 1000) \<le> 1000 ^ k"
  using monoD [of rnd "v / 1000" "1000 ^ k"] by (simp add: rounding_def)

lemma rounding_ge: "rounding rnd \<Longrightarrow> 1000 ^ Suc k \<le> v \<Longrightarrow> k \<le> 4 \<Longrightarrow> 1000 ^ k \<le> rnd (v / 1000)"
  using monoD [of rnd "1000 ^ k" "v / 1000"] by (simp add: rounding_def)

lemma scale_loop_le:
  "rounding rnd \<Longrightarrow> v \<le> 1000 ^ Suc k \<Longrightarrow> k + i \<le> 3 \<Longrightarrow> snd (scale_loop rnd 1000 4 v i) \<le> 3"
proof (induction k arbitrary: v i)
  case 0
  then show ?case by (subst scale_loop.simps) simp
next
  case (Suc k)
  then show ?case using rounding_le [of rnd v "Suc k"] by (subst scale_loop.simps) simp
qed

lemma scale_loop_ge:
  "rounding rnd \<Longrightarrow> 1000 ^ Suc (Suc k) \<le> v \<Longrightarrow> k + i = 3 \<Longrightarrow> snd (scale_loop rnd 1000 4 v i) = 4"
proof (induction k arbitrary: v i)
  case 0
  then have "v > 1000" by simp
  with 0 show ?case by (subst scale_loop.simps) (simp add: scale_loop.simps [of rnd 1000 4 _ 4])
next
  case (Suc k)
  have "(1000 :: real) ^ 2 \<le> 1000 ^ Suc (Suc (Suc k))" by (rule power_increasing) simp_all
  with Suc.prems have "v > 1000" by simp
  moreover have "1000 ^ Suc (Suc k) \<le> rnd (v / 1000)"
    using Suc.prems rounding_ge [of rnd "Suc (Suc k)" v] by simp
  ultimately show ?case using Suc by (subst scale_loop.simps) simp
qed

text \<open>
  The bound of the table of units. Hash rates up to 1000 Gh/s are formatted with one of the
  four units. From 1000 Th/s on the loop counts one unit too far, and the formatting and the status
  line read behind the end of their tables.
\<close>

theorem hashrate_units:
  assumes "rounding rnd"
  shows "(hr \<le> 1000 ^ 4 \<longrightarrow> (\<exists>s. getFormattedHashes rnd fmt hr AddSuffix p = Inr s)) \<and>
    (1000 ^ 5 \<le> hr \<longrightarrow> getFormattedHashes rnd fmt hr AddSuffix p = Inl UndefinedBehaviour) \<and>
    (1000 ^ 5 \<le> ta_hashrate (tm_farm t) \<longrightarrow> TelemetryType_str rnd fmt pw now t = Inl UndefinedBehaviour)"
proof -
  have e: "Suc 3 = 4" "Suc (Suc 3) = 5" by simp_all
  show ?thesis
    using scale_loop_le [OF assms, of hr 3 0] scale_loop_ge [OF assms, of 3 hr 0]
      scale_loop_ge [OF assms, of 3 "ta_hashrate (tm_farm t)" 0] unfolding e
    by (simp add: getFormattedHashes_def getScaledSize_def TelemetryType_str_def Let_def case_prod_beta) linarith
qed

theorem hashrate_units_witness:
  "(\<exists>s. getFormattedHashes id (\<lambda>_ _. ''1.00'') 1000 AddSuffix 2 = Inr s) \<and>
   getFormattedHashes id (\<lambda>_ _. ''1.00'') (1000 ^ 5) AddSuffix 2 = Inl UndefinedBehaviour \<and>
   TelemetryType_str id (\<lambda>_ _. ''1.00'') (\<lambda>k. 1000 ^ k) 0
     \<lparr>tm_start = 0, tm_farm = (new_TelemetryAccount 0)\<lparr>ta_hashrate := 1000 ^ 5\<rparr>, tm_miners = []\<rparr> =
     Inl UndefinedBehaviour"
proof -
  have r: "rounding id" by (simp add: rounding_def mono_def)
  show ?thesis
    using hashrate_units [OF r, of 1000 "\<lambda>_ _. ''1.00''" 2]
      hashrate_units [OF r, of "1000 ^ 5" "\<lambda>_ _. ''1.00''" 2
        "\<lparr>tm_start = 0, tm_farm = (new_TelemetryAccount 0)\<lparr>ta_hashrate := 1000 ^ 5\<rparr>, tm_miners = []\<rparr>" "\<lambda>k. 1000 ^ k" 0]
    by simp
qed

end
