(* ===== verification/Json.thy ===== *)
theory Json
  imports Prelude Complex_Main
begin

text \<open>
  JSON as the program uses it. \<open>jout\<close> is a \<open>Json::Value\<close> as the program builds it to send it:
  the members of an object are listed in the order of the assignments. \<open>jsonlib\<close> collects the
  operations of the jsoncpp library on values that were received; they are arguments of the
  definitions that use them. Conversions throw when the value has another type.
\<close>

datatype jout =
    JNull
  | JBool bool
  | JInt int
  | JReal real
  | JStr string
  | JArr "jout list"
  | JObj "(string \<times> jout) list"

datatype jtype = JTboolean | JTstring | JTarray | JTobject

text \<open>
  \<open>js_get v k\<close> is \<open>v[k]\<close> for a member name and \<open>js_idx v i\<close> for an index, \<open>js_getd\<close> and
  \<open>js_idxd\<close> are \<open>get\<close> with a default value; \<open>js_items\<close> are the names and values of an iteration,
  \<open>js_of\<close> turns a value built by the program into one of the library, \<open>js_write\<close> is
  \<open>Json::writeString\<close>. Accessors throw when the value is neither null nor of the right type.
\<close>

record 'j jsonlib =
  js_parse :: "string \<Rightarrow> 'j option"
  js_of :: "jout \<Rightarrow> 'j"
  js_write :: "jout \<Rightarrow> string"
  js_isMember :: "'j \<Rightarrow> string \<Rightarrow> exn + bool"
  js_get :: "'j \<Rightarrow> string \<Rightarrow> exn + 'j"
  js_getd :: "'j \<Rightarrow> string \<Rightarrow> jout \<Rightarrow> exn + 'j"
  js_idx :: "'j \<Rightarrow> nat \<Rightarrow> exn + 'j"
  js_idxd :: "'j \<Rightarrow> nat \<Rightarrow> jout \<Rightarrow> exn + 'j"
  js_size :: "'j \<Rightarrow> nat"
  js_empty :: "'j \<Rightarrow> bool"
  js_items :: "'j \<Rightarrow> (string \<times> 'j) list"
  js_convertible :: "'j \<Rightarrow> jtype \<Rightarrow> bool"
  js_isNull :: "'j \<Rightarrow> bool"
  js_isBool :: "'j \<Rightarrow> bool"
  js_isUInt64 :: "'j \<Rightarrow> bool"
  js_isUInt :: "'j \<Rightarrow> bool"
  js_isInt :: "'j \<Rightarrow> bool"
  js_isString :: "'j \<Rightarrow> bool"
  js_isArray :: "'j \<Rightarrow> bool"
  js_isObject :: "'j \<Rightarrow> bool"
  js_asBool :: "'j \<Rightarrow> exn + bool"
  js_asInt :: "'j \<Rightarrow> exn + int"
  js_asUInt :: "'j \<Rightarrow> exn + u32"
  js_asUInt64 :: "'j \<Rightarrow> exn + u64"
  js_asDouble :: "'j \<Rightarrow> exn + real"
  js_asString :: "'j \<Rightarrow> exn + string"

section \<open>Reading\<close>

text \<open>Sequencing of accesses that may throw.\<close>

definition ebind :: "exn + 'a \<Rightarrow> ('a \<Rightarrow> exn + 'b) \<Rightarrow> exn + 'b" where
  "ebind r k = (case r of Inl e \<Rightarrow> Inl e | Inr v \<Rightarrow> k v)"

lemma ebind_simps [simp]: "ebind (Inl e) k = Inl e" "ebind (Inr v) k = k v"
  by (simp_all add: ebind_def)

text \<open>\<open>v.get(k, d).asString()\<close> for a member and for an index.\<close>

definition str_member :: "'j jsonlib \<Rightarrow> 'j \<Rightarrow> string \<Rightarrow> string \<Rightarrow> exn + string" where
  "str_member js v k d = ebind (js_getd js v k (JStr d)) (js_asString js)"

definition str_item :: "'j jsonlib \<Rightarrow> 'j \<Rightarrow> nat \<Rightarrow> exn + string" where
  "str_item js v i = ebind (js_idxd js v i (JStr [])) (js_asString js)"

section \<open>A concrete instance\<close>

text \<open>
  Values are the trees themselves. Texts are not parsed: the instance reads only the messages of
  the table it is given.
\<close>

fun jmember :: "jout \<Rightarrow> string \<Rightarrow> exn + jout option" where
  "jmember (JObj ms) k = Inr (map_of (rev ms) k)"
| "jmember JNull k = Inr None"
| "jmember _ k = Inl LogicError"

fun jitem :: "jout \<Rightarrow> nat \<Rightarrow> exn + jout option" where
  "jitem (JArr xs) i = Inr (if i < length xs then Some (xs ! i) else None)"
| "jitem JNull i = Inr None"
| "jitem _ i = Inl LogicError"

fun jstring :: "jout \<Rightarrow> exn + string" where
  "jstring (JStr s) = Inr s"
| "jstring JNull = Inr []"
| "jstring (JBool b) = Inr (if b then ''true'' else ''false'')"
| "jstring _ = Inl LogicError"

fun jempty :: "jout \<Rightarrow> bool" where
  "jempty JNull = True"
| "jempty (JArr xs) = (xs = [])"
| "jempty (JObj ms) = (ms = [])"
| "jempty _ = False"

fun jconvertible :: "jout \<Rightarrow> jtype \<Rightarrow> bool" where
  "jconvertible (JStr s) t = (t = JTstring)"
| "jconvertible (JArr xs) t = (t = JTarray)"
| "jconvertible (JObj ms) t = (t = JTobject)"
| "jconvertible JNull t = True"
| "jconvertible _ t = (t = JTstring \<or> t = JTboolean)"

fun jint :: "jout \<Rightarrow> exn + int" where
  "jint (JInt i) = Inr i"
| "jint JNull = Inr 0"
| "jint (JBool b) = Inr (if b then 1 else 0)"
| "jint _ = Inl LogicError"

definition sample_json :: "(string \<times> jout) list \<Rightarrow> jout jsonlib" where
  "sample_json table =
     \<lparr>js_parse = map_of table, js_of = id, js_write = (\<lambda>_. ''{}''),
      js_isMember = (\<lambda>v k. ebind (jmember v k) (\<lambda>m. Inr (m \<noteq> None))),
      js_get = (\<lambda>v k. ebind (jmember v k) (\<lambda>m. Inr (case m of Some x \<Rightarrow> x | None \<Rightarrow> JNull))),
      js_getd = (\<lambda>v k d. ebind (jmember v k) (\<lambda>m. Inr (case m of Some x \<Rightarrow> x | None \<Rightarrow> d))),
      js_idx = (\<lambda>v i. ebind (jitem v i) (\<lambda>m. Inr (case m of Some x \<Rightarrow> x | None \<Rightarrow> JNull))),
      js_idxd = (\<lambda>v i d. ebind (jitem v i) (\<lambda>m. Inr (case m of Some x \<Rightarrow> x | None \<Rightarrow> d))),
      js_size = (\<lambda>v. case v of JArr xs \<Rightarrow> length xs | JObj ms \<Rightarrow> length ms | _ \<Rightarrow> 0),
      js_empty = jempty,
      js_items = (\<lambda>v. case v of JArr xs \<Rightarrow> map (\<lambda>x. ([], x)) xs | JObj ms \<Rightarrow> ms | _ \<Rightarrow> []),
      js_convertible = jconvertible,
      js_isNull = (\<lambda>v. v = JNull),
      js_isBool = (\<lambda>v. case v of JBool _ \<Rightarrow> True | _ \<Rightarrow> False),
      js_isUInt64 = (\<lambda>v. case v of JInt i \<Rightarrow> 0 \<le> i \<and> i < 2 ^ 64 | _ \<Rightarrow> False),
      js_isUInt = (\<lambda>v. case v of JInt i \<Rightarrow> 0 \<le> i \<and> i < 2 ^ 32 | _ \<Rightarrow> False),
      js_isInt = (\<lambda>v. case v of JInt i \<Rightarrow> - (2 ^ 31) \<le> i \<and> i < 2 ^ 31 | _ \<Rightarrow> False),
      js_isString = (\<lambda>v. case v of JStr _ \<Rightarrow> True | _ \<Rightarrow> False),
      js_isArray = (\<lambda>v. case v of JArr _ \<Rightarrow> True | _ \<Rightarrow> False),
      js_isObject = (\<lambda>v. case v of JObj _ \<Rightarrow> True | _ \<Rightarrow> False),
      js_asBool = (\<lambda>v. case v of JBool b \<Rightarrow> Inr b | JNull \<Rightarrow> Inr False | JInt i \<Rightarrow> Inr (i \<noteq> 0) | _ \<Rightarrow> Inl LogicError),
      js_asInt = jint,
      js_asUInt = (\<lambda>v. ebind (jint v) (\<lambda>i. if 0 \<le> i \<and> i < 2 ^ 32 then Inr (of_int i) else Inl LogicError)),
      js_asUInt64 = (\<lambda>v. ebind (jint v) (\<lambda>i. if 0 \<le> i \<and> i < 2 ^ 64 then Inr (of_int i) else Inl LogicError)),
      js_asDouble = (\<lambda>v. case v of JReal r \<Rightarrow> Inr r | JInt i \<Rightarrow> Inr (real_of_int i) | _ \<Rightarrow> Inl LogicError),
      js_asString = jstring\<rparr>"

end
