(* ===== verification/PoolClient.thy ===== *)
theory PoolClient
  imports Work PoolURI
begin

text \<open>
  The base of the pool clients (\<open>src/libpoolprotocols/PoolClient.h\<close>): the session of a
  connection and the members and handlers the clients share. A \<open>shared_ptr<URI>\<close> is the index of
  the object in a store of URI objects, so that the manager and its client see each other's
  changes. A call of one of the manager's handlers is an event; the clock is in milliseconds.
\<close>

section \<open>Session\<close>

record Session =
  se_start :: nat
  se_subscribed :: bool
  se_authorized :: bool
  se_extraNonce :: u64
  se_extraNonceSizeBytes :: u32
  se_nextWorkBoundary :: h256
  se_firstMiningSet :: bool
  se_timeout :: u32
  se_sessionId :: string
  se_workerId :: string
  se_algo :: string
  se_epoch :: u32
  se_lastTxStamp :: nat

text \<open>The boundary \<open>0x00000000ffff00...00\<close>.\<close>

definition default_boundary :: h256 where
  "default_boundary = [0, 0, 0, 0, 0xff, 0xff] @ replicate 26 0"

definition new_Session :: "nat \<Rightarrow> Session" where
  "new_Session now =
     \<lparr>se_start = now, se_subscribed = False, se_authorized = False, se_extraNonce = 0,
      se_extraNonceSizeBytes = 0, se_nextWorkBoundary = default_boundary, se_firstMiningSet = False,
      se_timeout = 30, se_sessionId = [], se_workerId = [], se_algo = ''ethash'', se_epoch = 0,
      se_lastTxStamp = now\<rparr>"

text \<open>In minutes.\<close>

definition session_duration :: "nat \<Rightarrow> Session \<Rightarrow> u64" where
  "session_duration now s = of_nat ((now - se_start s) div 60000)"

section \<open>Client\<close>

datatype client_event =
    OnConnected
  | OnDisconnected
  | OnWorkReceived WorkPackage
  | OnSolutionAccepted nat u32 bool
  | OnSolutionRejected nat u32

text \<open>\<open>pc_endpoint\<close> is the text of \<open>m_endpoint\<close>.\<close>

record PoolClient =
  pc_session :: "Session option"
  pc_connected :: bool
  pc_endpoint :: string
  pc_conn :: "nat option"

definition new_PoolClient :: PoolClient where
  "new_PoolClient = \<lparr>pc_session = None, pc_connected = False, pc_endpoint = [], pc_conn = None\<rparr>"

text \<open>The store after a change of the object an index denotes.\<close>

definition upd_uri :: "(URI \<Rightarrow> URI) \<Rightarrow> nat \<Rightarrow> URI list \<Rightarrow> URI list" where
  "upd_uri f i uris = uris[i := f (uris ! i)]"

definition setConnection :: "nat \<Rightarrow> URI list \<Rightarrow> ('a PoolClient_scheme) \<Rightarrow> URI list \<times> 'a PoolClient_scheme" where
  "setConnection conn uris c = (upd_uri (Responds False) conn uris, c\<lparr>pc_conn := Some conn\<rparr>)"

definition unsetConnection :: "'a PoolClient_scheme \<Rightarrow> 'a PoolClient_scheme" where
  "unsetConnection c = c\<lparr>pc_conn := None\<rparr>"

definition isSubscribed :: "'a PoolClient_scheme \<Rightarrow> bool" where
  "isSubscribed c = (case pc_session c of Some s \<Rightarrow> se_subscribed s | None \<Rightarrow> False)"

definition isAuthorized :: "'a PoolClient_scheme \<Rightarrow> bool" where
  "isAuthorized c = (case pc_session c of Some s \<Rightarrow> se_authorized s | None \<Rightarrow> False)"

definition ActiveEndPoint :: "'a PoolClient_scheme \<Rightarrow> string" where
  "ActiveEndPoint c = (if pc_connected c then '' ['' @ pc_endpoint c @ '']'' else [])"

lemma length_upd_uri [simp]: "length (upd_uri f i uris) = length uris"
  by (simp add: upd_uri_def)

lemma upd_uri_nth: "i < length uris \<Longrightarrow> upd_uri f i uris ! j = (if j = i then f (uris ! i) else uris ! j)"
  by (simp add: upd_uri_def nth_list_update)

text \<open>The literal of the source denotes the default boundary.\<close>

lemma default_boundary_text:
  "h256_of ''0x00000000ffff0000000000000000000000000000000000000000000000000000'' = Inr default_boundary"
  by code_simp

end
