(* ===== verification/PoolManager.thy ===== *)
theory PoolManager
  imports PoolClient Display Json
begin

text \<open>
  The pool manager (\<open>src/libpoolprotocols/PoolManager.h\<close>, \<open>src/libpoolprotocols/PoolManager.cpp\<close>):
  it selects the pool, reacts to the client's events, drives the farm and rotates among the
  configured connections. Each handler, timer callback and public member is a function on the
  record of the manager, which holds the farm. What a handler asks of the client or posts to the
  io service is appended to \<open>pm_calls\<close>, in order; every such call is the last thing the
  source does with the client in that handler.
\<close>

section \<open>State\<close>

record PoolSettings =
  ps_connections :: "nat list"
  ps_getWorkPollInterval :: u32
  ps_noWorkTimeout :: u32
  ps_noResponseTimeout :: u32
  ps_poolFailoverTimeout :: u32
  ps_reportHashrate :: bool
  ps_hashRateInterval :: u32
  ps_hashRateId :: string
  ps_connectionMaxRetries :: u32
  ps_delayBeforeRetry :: u32
  ps_benchmarkBlock :: u32

text \<open>The initial values of the members; \<open>hashRateId\<close> is drawn at random.\<close>

definition default_PoolSettings :: "string \<Rightarrow> PoolSettings" where
  "default_PoolSettings hashRateId =
     \<lparr>ps_connections = [], ps_getWorkPollInterval = 500, ps_noWorkTimeout = 180, ps_noResponseTimeout = 2,
      ps_poolFailoverTimeout = 0, ps_reportHashrate = False, ps_hashRateInterval = 60,
      ps_hashRateId = hashRateId, ps_connectionMaxRetries = 3, ps_delayBeforeRetry = 0, ps_benchmarkBlock = 0\<rparr>"

text \<open>
  What the manager sees of its client: the base class, which protocol it speaks and whether it is
  in a pending state. \<open>isConnected\<close> is overridden by the stratum client.
\<close>

record ClientView = PoolClient +
  cv_family :: ProtocolFamily
  cv_pending :: bool

definition isConnected :: "ClientView \<Rightarrow> bool" where
  "isConnected c = (pc_connected c \<and> (cv_family c = STRATUM \<longrightarrow> \<not> cv_pending c))"

definition view_ActiveEndPoint :: "ClientView \<Rightarrow> string" where
  "view_ActiveEndPoint c = (if cv_family c = SIMULATION then [] else ActiveEndPoint c)"

datatype pm_call =
    Cl_connect
  | Cl_disconnect
  | Cl_submitHashrate u64 string
  | Cl_submitSolution Solution
  | Post_rotateConnect
  | Raise_SIGTERM

text \<open>
  A timer is \<open>Some d\<close> while a wait of \<open>d\<close> (minutes or seconds) is pending. \<open>pm_stop_waits\<close> says that
  \<open>stop\<close> is in its wait loop.
\<close>

record PoolManager =
  pm_Settings :: PoolSettings
  pm_uris :: "URI list"
  pm_running :: bool
  pm_stopping :: bool
  pm_async_pending :: bool
  pm_connectionAttempt :: u32
  pm_selectedHost :: string
  pm_connectionSwitches :: u32
  pm_activeConnectionIdx :: u32
  pm_currentWp :: WorkPackage
  pm_failovertimer :: "u32 option"
  pm_submithrtimer :: "u32 option"
  pm_reconnecttimer :: "u32 option"
  pm_client :: "ClientView option"
  pm_epochChanges :: u32
  pm_farm :: Farm
  pm_calls :: "pm_call list"
  pm_stop_waits :: bool

definition new_PoolManager :: "PoolSettings \<Rightarrow> URI list \<Rightarrow> Farm \<Rightarrow> PoolManager" where
  "new_PoolManager settings uris farm =
     \<lparr>pm_Settings = settings, pm_uris = uris, pm_running = False, pm_stopping = False,
      pm_async_pending = False, pm_connectionAttempt = 0, pm_selectedHost = [],
      pm_connectionSwitches = 0, pm_activeConnectionIdx = 0, pm_currentWp = new_WorkPackage,
      pm_failovertimer = None, pm_submithrtimer = None, pm_reconnecttimer = None, pm_client = None,
      pm_epochChanges = 0, pm_farm = farm, pm_calls = [], pm_stop_waits = False\<rparr>"

abbreviation pm_connections :: "PoolManager \<Rightarrow> nat list" where
  "pm_connections p \<equiv> ps_connections (pm_Settings p)"

definition set_connections :: "nat list \<Rightarrow> PoolManager \<Rightarrow> PoolManager" where
  "set_connections cs p = p\<lparr>pm_Settings := (pm_Settings p)\<lparr>ps_connections := cs\<rparr>\<rparr>"

definition call :: "pm_call \<Rightarrow> PoolManager \<Rightarrow> PoolManager" where
  "call c p = p\<lparr>pm_calls := pm_calls p @ [c]\<rparr>"

text \<open>
  The libraries and the number formatting the manager depends on; \<open>en_iequals\<close> is boost's
  comparison of texts regardless of case.
\<close>

record 'c pm_env =
  en_ethash :: "'c ethash_lib"
  en_mp :: multiprecision
  en_rnd :: "real \<Rightarrow> real"
  en_fmt :: "int \<Rightarrow> real \<Rightarrow> string"
  en_boost :: boost_lib
  en_iequals :: "string \<Rightarrow> string \<Rightarrow> bool"

text \<open>What a call draws from its surroundings: the clock, a random number, whether a machine is obtained.\<close>

record draw =
  dr_now :: nat
  dr_random :: u64
  dr_vm :: bool

section \<open>Handlers of the farm\<close>

definition shut_down_miners :: "PoolManager \<Rightarrow> PoolManager" where
  "shut_down_miners p = (if fm_isMining (pm_farm p) then p\<lparr>pm_farm := farm_stop (pm_farm p)\<rparr> else p)"

definition spin_up_miners :: "draw \<Rightarrow> PoolManager \<Rightarrow> PoolManager" where
  "spin_up_miners d p = p\<lparr>pm_farm := snd (farm_start (dr_vm d) (dr_now d) (pm_farm p))\<rparr>"

definition onMinerRestart :: "draw \<Rightarrow> PoolManager \<Rightarrow> PoolManager" where
  "onMinerRestart d p = spin_up_miners d (shut_down_miners p)"

definition client_connected :: "PoolManager \<Rightarrow> bool" where
  "client_connected p = (case pm_client p of Some c \<Rightarrow> isConnected c | None \<Rightarrow> False)"

definition onSolutionFound :: "Solution \<Rightarrow> PoolManager \<Rightarrow> PoolManager" where
  "onSolutionFound sol p = (if client_connected p then call (Cl_submitSolution sol) p else p)"

section \<open>Handlers of the client\<close>

text \<open>
  The source dereferences the client and its connection without a check: \<open>with_conn\<close> is undefined
  behaviour when either is a null pointer.
\<close>

definition with_conn :: "PoolManager \<Rightarrow> (ClientView \<Rightarrow> URI \<Rightarrow> exn option \<times> PoolManager) \<Rightarrow> exn option \<times> PoolManager" where
  "with_conn p k =
     (case pm_client p of
        None \<Rightarrow> (Some UndefinedBehaviour, p)
      | Some c \<Rightarrow> (case pc_conn c of
          None \<Rightarrow> (Some UndefinedBehaviour, p)
        | Some i \<Rightarrow> k c (pm_uris p ! i)))"

definition reset_work :: "PoolManager \<Rightarrow> PoolManager" where
  "reset_work p = p\<lparr>pm_currentWp := (pm_currentWp p)\<lparr>wp_job := [], wp_header := h256_zero\<rparr>\<rparr>"

definition shuffle_if_needed :: "draw \<Rightarrow> PoolManager \<Rightarrow> PoolManager" where
  "shuffle_if_needed d p =
     (if fs_ergodicity (fm_settings (pm_farm p)) = 1 then p\<lparr>pm_farm := shuffle (dr_random d) (pm_farm p)\<rparr> else p)"

definition arm_failover :: "PoolManager \<Rightarrow> PoolManager" where
  "arm_failover p =
     (if pm_activeConnectionIdx p \<noteq> 0 \<and> ps_poolFailoverTimeout (pm_Settings p) \<noteq> 0
      then p\<lparr>pm_failovertimer := Some (ps_poolFailoverTimeout (pm_Settings p))\<rparr>
      else p\<lparr>pm_failovertimer := None\<rparr>)"

definition start_or_resume :: "draw \<Rightarrow> PoolManager \<Rightarrow> PoolManager" where
  "start_or_resume d p =
     (if \<not> fm_isMining (pm_farm p) then spin_up_miners d p
      else if fm_paused (pm_farm p) then p\<lparr>pm_farm := farm_resume (pm_farm p)\<rparr> else p)"

definition arm_submithr :: "PoolManager \<Rightarrow> PoolManager" where
  "arm_submithr p =
     (if ps_reportHashrate (pm_Settings p)
      then p\<lparr>pm_submithrtimer := Some (ps_hashRateInterval (pm_Settings p))\<rparr> else p)"

definition onConnected :: "draw \<Rightarrow> PoolManager \<Rightarrow> exn option \<times> PoolManager" where
  "onConnected d p =
     with_conn p (\<lambda>c u.
       let ep = view_ActiveEndPoint c;
           p1 = (if (ur_hostType u = HT_Dns \<or> ur_hostType u = HT_Basic) \<and> ep \<noteq> []
                 then p\<lparr>pm_selectedHost := ur_host u @ ep\<rparr> else p);
           p2 = reset_work (p1\<lparr>pm_connectionAttempt := 0\<rparr>);
           p3 = arm_submithr (start_or_resume d (arm_failover (shuffle_if_needed d p2)))
       in (None, p3\<lparr>pm_async_pending := False\<rparr>))"

definition onDisconnected :: "PoolManager \<Rightarrow> exn option \<times> PoolManager" where
  "onDisconnected p =
     (case pm_client p of
        None \<Rightarrow> (Some UndefinedBehaviour, p)
      | Some c \<Rightarrow>
          (let p1 = p\<lparr>pm_client := Some (unsetConnection c),
                      pm_currentWp := (pm_currentWp p)\<lparr>wp_header := h256_zero\<rparr>,
                      pm_failovertimer := None, pm_submithrtimer := None\<rparr>
           in (None,
               if pm_stopping p1 then (shut_down_miners p1)\<lparr>pm_running := False\<rparr>
               else call Post_rotateConnect
                      (p1\<lparr>pm_async_pending := True, pm_farm := farm_pause (pm_farm p1)\<rparr>))))"

text \<open>The difficulty and its text are computed for the log; either computation can fail.\<close>

definition showMiningAt :: "'c pm_env \<Rightarrow> PoolManager \<Rightarrow> exn option" where
  "showMiningAt env p =
     (if \<not> wp_valid (pm_currentWp p) then None
      else case getHashesToTarget (en_mp env) (h_hex (wp_boundary (pm_currentWp p)) Add) of
             Inl e \<Rightarrow> Some e
           | Inr d \<Rightarrow> (case getFormattedHashes (en_rnd env) (en_fmt env) d AddSuffix 2 of
               Inl e \<Rightarrow> Some e | Inr _ \<Rightarrow> None))"

definition is_new_epoch :: "URI \<Rightarrow> WorkPackage \<Rightarrow> WorkPackage \<Rightarrow> bool" where
  "is_new_epoch u cur wp =
     (wp_epoch cur = - 1 \<or>
      (if ur_stratumMode u = 3 then wp_epoch wp \<noteq> wp_epoch cur else wp_seed wp \<noteq> wp_seed cur))"

definition work_epoch :: "'c ethash_lib \<Rightarrow> WorkPackage \<Rightarrow> int" where
  "work_epoch lib wp =
     (if wp_epoch wp \<noteq> - 1 then wp_epoch wp
      else if wp_block wp \<ge> 0 then wp_block wp div 30000
      else et_find_epoch_number lib (et_hash256_from_bytes lib (wp_seed wp)))"

text \<open>The new current work, and its delivery to the farm after the log line.\<close>

definition take_work :: "'c ethash_lib \<Rightarrow> bool \<Rightarrow> WorkPackage \<Rightarrow> PoolManager \<Rightarrow> PoolManager" where
  "take_work lib newEpoch wp p =
     (if newEpoch
      then p\<lparr>pm_currentWp := wp\<lparr>wp_epoch := work_epoch lib wp\<rparr>, pm_epochChanges := pm_epochChanges p + 1\<rparr>
      else p\<lparr>pm_currentWp := wp\<lparr>wp_epoch := wp_epoch (pm_currentWp p)\<rparr>\<rparr>)"

definition deliver_work :: "'c pm_env \<Rightarrow> draw \<Rightarrow> bool \<Rightarrow> PoolManager \<Rightarrow> exn option \<times> PoolManager" where
  "deliver_work env d changed p =
     (case (if changed then showMiningAt env p else None) of
        Some e \<Rightarrow> (Some e, p)
      | None \<Rightarrow>
          (let (e, f) = farm_setWork (en_ethash env) (dr_random d) (pm_currentWp p) (pm_farm p)
           in (e, p\<lparr>pm_farm := f\<rparr>)))"

definition onWorkReceived :: "'c pm_env \<Rightarrow> draw \<Rightarrow> WorkPackage \<Rightarrow> PoolManager \<Rightarrow> exn option \<times> PoolManager" where
  "onWorkReceived env d wp p =
     (if \<not> wp_valid wp then (None, p)
      else let cur = pm_currentWp p;
               newDiff = (wp_boundary wp \<noteq> wp_boundary cur);
               go = (\<lambda>newEpoch. deliver_work env d (newDiff \<or> newEpoch) (take_work (en_ethash env) newEpoch wp p))
           in if wp_epoch cur = - 1 then go True
              else with_conn p (\<lambda>c u. go (is_new_epoch u cur wp)))"

definition account_response :: "SolutionAccountingEnum \<Rightarrow> draw \<Rightarrow> u32 \<Rightarrow> PoolManager \<Rightarrow> exn option \<times> PoolManager" where
  "account_response a d minerIdx p =
     (let (e, f) = accountSolution minerIdx a (dr_now d) (pm_farm p) in (e, p\<lparr>pm_farm := f\<rparr>))"

definition onSolutionAccepted :: "draw \<Rightarrow> u32 \<Rightarrow> PoolManager \<Rightarrow> exn option \<times> PoolManager" where
  "onSolutionAccepted d minerIdx p = account_response Accepted d minerIdx p"

definition onSolutionRejected :: "draw \<Rightarrow> u32 \<Rightarrow> PoolManager \<Rightarrow> exn option \<times> PoolManager" where
  "onSolutionRejected d minerIdx p = account_response Rejected d minerIdx p"

section \<open>Start and stop\<close>

definition pm_start :: "PoolManager \<Rightarrow> PoolManager" where
  "pm_start p =
     call Post_rotateConnect
       (p\<lparr>pm_running := True, pm_async_pending := True, pm_connectionSwitches := pm_connectionSwitches p + 1\<rparr>)"

text \<open>\<open>stop\<close> up to its wait for the client, and what follows when \<open>m_running\<close> has become false.\<close>

definition pm_stop :: "PoolManager \<Rightarrow> PoolManager" where
  "pm_stop p =
     (if pm_running p
      then let p1 = p\<lparr>pm_async_pending := True, pm_stopping := True\<rparr> in
           if client_connected p1 then (call Cl_disconnect p1)\<lparr>pm_stop_waits := True\<rparr>
           else shut_down_miners
                  (p1\<lparr>pm_failovertimer := None, pm_submithrtimer := None, pm_reconnecttimer := None\<rparr>)
      else p)"

definition pm_stop_finish :: "PoolManager \<Rightarrow> PoolManager" where
  "pm_stop_finish p =
     (if pm_stop_waits p \<and> \<not> pm_running p then p\<lparr>pm_stop_waits := False, pm_client := None\<rparr> else p)"

section \<open>Connections\<close>

text \<open>\<open>addConnection\<close> with a text allocates the new object at the end of the store.\<close>

definition addConnection_str :: "boost_lib \<Rightarrow> u64 \<Rightarrow> string \<Rightarrow> PoolManager \<Rightarrow> exn option \<times> PoolManager" where
  "addConnection_str bo garbage connstring p =
     withv (new_URI bo garbage connstring False) p (\<lambda>u.
       (None, set_connections (pm_connections p @ [length (pm_uris p)]) (p\<lparr>pm_uris := pm_uris p @ [u]\<rparr>)))"

definition addConnection :: "nat \<Rightarrow> PoolManager \<Rightarrow> PoolManager" where
  "addConnection uri p = set_connections (pm_connections p @ [uri]) p"

definition removeConnection :: "u32 \<Rightarrow> PoolManager \<Rightarrow> exn option \<times> PoolManager" where
  "removeConnection idx p =
     (if pm_async_pending p then (Some (RuntimeError ''Outstanding operations. Retry ...''), p)
      else if length (pm_connections p) \<le> unat idx then (Some (RuntimeError ''Index out-of bounds.''), p)
      else if idx = pm_activeConnectionIdx p then (Some (RuntimeError ''Can't remove active connection''), p)
      else let p1 = set_connections (erase_at (unat idx) (pm_connections p)) p
           in (None, if idx < pm_activeConnectionIdx p1
                     then p1\<lparr>pm_activeConnectionIdx := pm_activeConnectionIdx p1 - 1\<rparr> else p1))"

definition setActiveConnectionCommon :: "u32 \<Rightarrow> PoolManager \<Rightarrow> exn option \<times> PoolManager" where
  "setActiveConnectionCommon idx p =
     (if pm_async_pending p then (Some (RuntimeError ''Outstanding operations. Retry ...''), p)
      else if idx \<noteq> pm_activeConnectionIdx p
      then let p1 = p\<lparr>pm_async_pending := True, pm_connectionSwitches := pm_connectionSwitches p + 1,
                      pm_activeConnectionIdx := idx, pm_connectionAttempt := 0\<rparr>
           in if pm_client p1 = None then (Some UndefinedBehaviour, p1) else (None, call Cl_disconnect p1)
      else (None, p))"

definition setActiveConnection :: "u32 \<Rightarrow> PoolManager \<Rightarrow> exn option \<times> PoolManager" where
  "setActiveConnection idx p =
     (if length (pm_connections p) \<le> unat idx then (Some (RuntimeError ''Index out-of bounds.''), p)
      else setActiveConnectionCommon idx p)"

fun find_connection :: "(string \<Rightarrow> string \<Rightarrow> bool) \<Rightarrow> URI list \<Rightarrow> string \<Rightarrow> nat \<Rightarrow> nat list \<Rightarrow> nat option" where
  "find_connection eq uris connstring idx [] = None"
| "find_connection eq uris connstring idx (c # cs) =
     (if eq (ur_uri (uris ! c)) connstring then Some idx else find_connection eq uris connstring (idx + 1) cs)"

definition setActiveConnection_str :: "(string \<Rightarrow> string \<Rightarrow> bool) \<Rightarrow> string \<Rightarrow> PoolManager \<Rightarrow> exn option \<times> PoolManager" where
  "setActiveConnection_str eq connstring p =
     (case find_connection eq (pm_uris p) connstring 0 (pm_connections p) of
        Some idx \<Rightarrow> setActiveConnectionCommon (of_nat idx) p
      | None \<Rightarrow> (Some (RuntimeError ''Not found.''), p))"

definition getActiveConnection :: "PoolManager \<Rightarrow> nat option" where
  "getActiveConnection p =
     (case vec_at (pm_connections p) (unat (pm_activeConnectionIdx p)) of Inl _ \<Rightarrow> None | Inr c \<Rightarrow> Some c)"

definition getConnectionsJson :: "PoolManager \<Rightarrow> jout" where
  "getConnectionsJson p =
     (if pm_connections p = [] then JNull
      else JArr (map (\<lambda>(i, c). JObj [(''index'', JInt (int i)),
                                     (''active'', JBool (i = unat (pm_activeConnectionIdx p))),
                                     (''uri'', JStr (ur_uri (pm_uris p ! c)))])
                   (enumerate 0 (pm_connections p))))"

section \<open>Rotation\<close>

definition count_switch :: "PoolManager \<Rightarrow> PoolManager" where
  "count_switch p = p\<lparr>pm_connectionSwitches := pm_connectionSwitches p + 1\<rparr>"

text \<open>\<open>if (m_activeConnectionIdx >= m_Settings.connections.size()) m_activeConnectionIdx = 0;\<close>\<close>

definition wrap_index :: "PoolManager \<Rightarrow> PoolManager" where
  "wrap_index p =
     (if length (pm_connections p) \<le> unat (pm_activeConnectionIdx p) then p\<lparr>pm_activeConnectionIdx := 0\<rparr> else p)"

text \<open>Discarding the active connection, or moving on to the next one; the active index is in bounds.\<close>

definition discard_or_rotate :: "PoolManager \<Rightarrow> PoolManager" where
  "discard_or_rotate p =
     (let i = unat (pm_activeConnectionIdx p) in
      if ur_unrecoverable (pm_uris p ! (pm_connections p ! i))
      then count_switch (wrap_index
             ((set_connections (erase_at i (pm_connections p)) p)\<lparr>pm_connectionAttempt := 0\<rparr>))
      else if ps_connectionMaxRetries (pm_Settings p) \<le> pm_connectionAttempt p
      then if length (pm_connections p) = 1 then set_connections (erase_at i (pm_connections p)) p
           else count_switch (wrap_index
                  (p\<lparr>pm_connectionAttempt := 0, pm_activeConnectionIdx := pm_activeConnectionIdx p + 1\<rparr>))
      else p)"

definition new_client :: "ProtocolFamily \<Rightarrow> ClientView" where
  "new_client f = PoolClient.extend new_PoolClient \<lparr>cv_family = f, cv_pending = False\<rparr>"

definition begin_connect :: "PoolManager \<Rightarrow> PoolManager" where
  "begin_connect p =
     (let conn = pm_connections p ! unat (pm_activeConnectionIdx p);
          u = pm_uris p ! conn;
          (uris, c) = setConnection conn (pm_uris p) (new_client (Family u));
          p1 = p\<lparr>pm_client := Some c, pm_uris := uris, pm_connectionAttempt := pm_connectionAttempt p + 1,
                 pm_selectedHost := ur_host u @ '':'' @ decstr (unat (ur_port u))\<rparr>
      in if 1 < pm_connectionAttempt p1 \<and> 0 < ps_delayBeforeRetry (pm_Settings p1)
         then p1\<lparr>pm_reconnecttimer := Some (ps_delayBeforeRetry (pm_Settings p1))\<rparr>
         else call Cl_connect p1)"

definition give_up :: "PoolManager \<Rightarrow> PoolManager" where
  "give_up p = call Raise_SIGTERM ((shut_down_miners p)\<lparr>pm_running := False\<rparr>)"

definition rotateConnect :: "PoolManager \<Rightarrow> exn option \<times> PoolManager" where
  "rotateConnect p =
     (if client_connected p then (None, p)
      else let p1 = wrap_index p in
        if pm_connections p1 = [] then (Some OutOfRange, p1)
        else let p2 = discard_or_rotate p1 in
          (None,
           if pm_connections p2 \<noteq> [] \<and>
              ur_host (pm_uris p2 ! (pm_connections p2 ! unat (pm_activeConnectionIdx p2))) \<noteq> ''exit''
           then begin_connect p2 else give_up p2))"

section \<open>Timers\<close>

definition failovertimer_elapsed :: "bool \<Rightarrow> PoolManager \<Rightarrow> exn option \<times> PoolManager" where
  "failovertimer_elapsed ec p =
     (if \<not> ec \<and> pm_running p \<and> pm_activeConnectionIdx p \<noteq> 0
      then let p1 = count_switch (p\<lparr>pm_activeConnectionIdx := 0, pm_connectionAttempt := 0\<rparr>)
           in if pm_client p1 = None then (Some UndefinedBehaviour, p1) else (None, call Cl_disconnect p1)
      else (None, p))"

text \<open>\<open>(uint32_t)\<close> of a hash rate that is too large is undefined.\<close>

definition to_uint32 :: "real \<Rightarrow> exn + u64" where
  "to_uint32 x = (if 0 \<le> x \<and> x < 2 ^ 32 then Inr (of_int \<lfloor>x\<rfloor>) else Inl UndefinedBehaviour)"

definition submithrtimer_elapsed :: "bool \<Rightarrow> PoolManager \<Rightarrow> exn option \<times> PoolManager" where
  "submithrtimer_elapsed ec p =
     (if \<not> ec \<and> pm_running p
      then let rearm = (\<lambda>q. q\<lparr>pm_submithrtimer := Some (ps_hashRateInterval (pm_Settings q))\<rparr>) in
           if client_connected p
           then withv (to_uint32 (ta_hashrate (tm_farm (fm_telemetry (pm_farm p))))) p (\<lambda>rate.
                  (None, rearm (call (Cl_submitHashrate rate (ps_hashRateId (pm_Settings p))) p)))
           else (None, rearm p)
      else (None, p))"

definition reconnecttimer_elapsed :: "bool \<Rightarrow> PoolManager \<Rightarrow> PoolManager" where
  "reconnecttimer_elapsed ec p =
     (if \<not> ec \<and> pm_running p \<and> pm_client p \<noteq> None \<and> \<not> client_connected p then call Cl_connect p else p)"

section \<open>Queries\<close>

definition getCurrentEpoch :: "PoolManager \<Rightarrow> int" where
  "getCurrentEpoch p = wp_epoch (pm_currentWp p)"

definition getCurrentDifficulty :: "multiprecision \<Rightarrow> PoolManager \<Rightarrow> exn + real" where
  "getCurrentDifficulty mp p =
     (if \<not> wp_valid (pm_currentWp p) then Inr 0
      else getHashesToTarget mp (h_hex (wp_boundary (pm_currentWp p)) Add))"

definition getConnectionSwitches :: "PoolManager \<Rightarrow> u32" where
  "getConnectionSwitches p = pm_connectionSwitches p"

definition getEpochChanges :: "PoolManager \<Rightarrow> u32" where
  "getEpochChanges p = pm_epochChanges p"

section \<open>Invariant\<close>

text \<open>The configured connections and the active one.\<close>

definition conns_ok :: "PoolManager \<Rightarrow> bool" where
  "conns_ok p \<longleftrightarrow>
     list_all (\<lambda>c. c < length (pm_uris p)) (pm_connections p) \<and> length (pm_connections p) < 2 ^ 32 \<and>
     (if pm_connections p = [] then pm_activeConnectionIdx p = 0
      else unat (pm_activeConnectionIdx p) < length (pm_connections p))"

definition client_ok :: "PoolManager \<Rightarrow> bool" where
  "client_ok p \<longleftrightarrow> (\<forall>i. Option.bind (pm_client p) pc_conn = Some i \<longrightarrow> i < length (pm_uris p))"

definition pm_inv :: "PoolManager \<Rightarrow> bool" where
  "pm_inv p \<longleftrightarrow> conns_ok p \<and> client_ok p \<and> farm_inv (pm_farm p) \<and> wp_wf (pm_currentWp p)"

lemmas pm_inv_defs = pm_inv_def conns_ok_def client_ok_def

lemma void_header_wf [simp]: "wp_wf w \<Longrightarrow> wp_wf (w\<lparr>wp_header := h256_zero\<rparr>)"
  by (simp add: wp_wf_def)

lemma call_inv [inv_rules]: "pm_inv p \<Longrightarrow> pm_inv (call c p)"
  by (simp add: call_def pm_inv_defs)

lemma shut_down_inv [inv_rules]: "pm_inv p \<Longrightarrow> pm_inv (shut_down_miners p)"
  by (simp add: shut_down_miners_def pm_inv_defs farm_stop_inv)

lemma spin_up_inv [inv_rules]: "pm_inv p \<Longrightarrow> pm_inv (spin_up_miners d p)"
  using farm_start_inv [of "pm_farm p" "dr_vm d" "dr_now d"]
  by (simp add: spin_up_miners_def pm_inv_defs) (metis prod.collapse)

lemma onMinerRestart_inv [inv_rules]: "pm_inv p \<Longrightarrow> pm_inv (onMinerRestart d p)"
  by (simp add: onMinerRestart_def inv_rules)

lemma onSolutionFound_inv [inv_rules]: "pm_inv p \<Longrightarrow> pm_inv (onSolutionFound sol p)"
  by (simp add: onSolutionFound_def inv_rules)

lemma reset_work_inv [inv_rules]: "pm_inv p \<Longrightarrow> pm_inv (reset_work p)"
  by (simp add: reset_work_def pm_inv_defs wp_wf_def)

lemma shuffle_if_needed_inv [inv_rules]: "pm_inv p \<Longrightarrow> pm_inv (shuffle_if_needed d p)"
  by (simp add: shuffle_if_needed_def pm_inv_defs shuffle_inv)

lemma arm_failover_inv [inv_rules]: "pm_inv p \<Longrightarrow> pm_inv (arm_failover p)"
  by (simp add: arm_failover_def pm_inv_defs)

lemma arm_submithr_inv [inv_rules]: "pm_inv p \<Longrightarrow> pm_inv (arm_submithr p)"
  by (simp add: arm_submithr_def pm_inv_defs)

lemma start_or_resume_inv [inv_rules]: "pm_inv p \<Longrightarrow> pm_inv (start_or_resume d p)"
  using spin_up_inv [of p d] by (simp add: start_or_resume_def pm_inv_defs farm_resume_inv)

lemma flags_inv [inv_rules]:
  "pm_inv p \<Longrightarrow> pm_inv (p\<lparr>pm_selectedHost := h\<rparr>)"
  "pm_inv p \<Longrightarrow> pm_inv (p\<lparr>pm_connectionAttempt := a\<rparr>)"
  "pm_inv p \<Longrightarrow> pm_inv (p\<lparr>pm_async_pending := b\<rparr>)"
  "pm_inv p \<Longrightarrow> pm_inv (p\<lparr>pm_stopping := b\<rparr>)"
  "pm_inv p \<Longrightarrow> pm_inv (p\<lparr>pm_running := b\<rparr>)"
  "pm_inv p \<Longrightarrow> pm_inv (p\<lparr>pm_stop_waits := b\<rparr>)"
  "pm_inv p \<Longrightarrow> pm_inv (p\<lparr>pm_failovertimer := t\<rparr>)"
  "pm_inv p \<Longrightarrow> pm_inv (p\<lparr>pm_submithrtimer := t\<rparr>)"
  "pm_inv p \<Longrightarrow> pm_inv (p\<lparr>pm_reconnecttimer := t\<rparr>)"
  "pm_inv p \<Longrightarrow> pm_inv (p\<lparr>pm_connectionSwitches := n\<rparr>)"
  "pm_inv p \<Longrightarrow> pm_inv (p\<lparr>pm_epochChanges := n\<rparr>)"
  "pm_inv p \<Longrightarrow> pm_inv (p\<lparr>pm_calls := cs\<rparr>)"
  "pm_inv p \<Longrightarrow> pm_inv (p\<lparr>pm_client := None\<rparr>)"
  by (simp_all add: pm_inv_defs)

lemma farm_field_inv [inv_rules]: "pm_inv p \<Longrightarrow> farm_inv f \<Longrightarrow> pm_inv (p\<lparr>pm_farm := f\<rparr>)"
  by (simp add: pm_inv_defs)

lemma work_field_inv [inv_rules]: "pm_inv p \<Longrightarrow> wp_wf w \<Longrightarrow> pm_inv (p\<lparr>pm_currentWp := w\<rparr>)"
  by (simp add: pm_inv_defs)

lemma pm_inv_parts:
  assumes "pm_inv p"
  shows "conns_ok p" "client_ok p" "farm_inv (pm_farm p)" "wp_wf (pm_currentWp p)"
  using assms by (simp_all add: pm_inv_def)

lemma with_conn_inv:
  assumes "pm_inv p" and "\<And>c u. pm_inv (snd (k c u))"
  shows "pm_inv (snd (with_conn p k))"
  using assms by (simp add: with_conn_def split: option.splits)

lemma onConnected_inv [inv_rules]: "pm_inv p \<Longrightarrow> pm_inv (snd (onConnected d p))"
  unfolding onConnected_def by (rule with_conn_inv) (simp_all add: Let_def inv_rules)

lemma onDisconnected_inv [inv_rules]:
  assumes "pm_inv p"
  shows "pm_inv (snd (onDisconnected p))"
proof (cases "pm_client p")
  case (Some c)
  define p1 where "p1 = p\<lparr>pm_client := Some (unsetConnection c),
      pm_currentWp := (pm_currentWp p)\<lparr>wp_header := h256_zero\<rparr>,
      pm_failovertimer := None, pm_submithrtimer := None\<rparr>"
  have "pm_inv p1" using assms by (simp add: p1_def pm_inv_defs unsetConnection_def wp_wf_def)
  then show ?thesis
    using Some pm_inv_parts(3)
    by (simp add: onDisconnected_def Let_def p1_def [symmetric] inv_rules)
qed (use assms in \<open>simp add: onDisconnected_def\<close>)

lemma take_work_inv [inv_rules]: "pm_inv p \<Longrightarrow> wp_wf wp \<Longrightarrow> pm_inv (take_work lib b wp p)"
  by (simp add: take_work_def inv_rules wp_wf_def)

lemma deliver_work_inv [inv_rules]:
  assumes "pm_inv p"
  shows "pm_inv (snd (deliver_work env d b p))"
  using farm_setWork_inv [OF pm_inv_parts(3,4) [OF assms], of "en_ethash env" "dr_random d"] assms
  by (simp add: deliver_work_def inv_rules split: option.splits prod.splits)

lemma onWorkReceived_inv [inv_rules]:
  assumes "pm_inv p" and "wp_wf wp"
  shows "pm_inv (snd (onWorkReceived env d wp p))"
  using assms by (simp add: onWorkReceived_def Let_def inv_rules with_conn_inv)

lemma account_response_inv [inv_rules]:
  assumes "pm_inv p" and "unat i < length (tm_miners (fm_telemetry (pm_farm p)))"
  shows "pm_inv (snd (account_response a d i p))"
  using accountSolution_inv [OF pm_inv_parts(3) [OF assms(1)] assms(2), of a "dr_now d"] assms(1)
  by (simp add: account_response_def inv_rules split: prod.splits)

lemma pm_start_inv [inv_rules]: "pm_inv p \<Longrightarrow> pm_inv (pm_start p)"
  by (simp add: pm_start_def inv_rules)

lemma pm_stop_inv [inv_rules]: "pm_inv p \<Longrightarrow> pm_inv (pm_stop p)"
  by (simp add: pm_stop_def Let_def inv_rules)

lemma pm_stop_finish_inv [inv_rules]: "pm_inv p \<Longrightarrow> pm_inv (pm_stop_finish p)"
  by (simp add: pm_stop_finish_def inv_rules)

lemma set_connections_simps [simp]:
  "pm_connections (set_connections cs p) = cs"
  "pm_uris (set_connections cs p) = pm_uris p"
  "pm_activeConnectionIdx (set_connections cs p) = pm_activeConnectionIdx p"
  "pm_client (set_connections cs p) = pm_client p"
  "pm_farm (set_connections cs p) = pm_farm p"
  "pm_currentWp (set_connections cs p) = pm_currentWp p"
  "ps_connectionMaxRetries (pm_Settings (set_connections cs p)) = ps_connectionMaxRetries (pm_Settings p)"
  "ps_delayBeforeRetry (pm_Settings (set_connections cs p)) = ps_delayBeforeRetry (pm_Settings p)"
  "pm_connectionAttempt (set_connections cs p) = pm_connectionAttempt p"
  "pm_running (set_connections cs p) = pm_running p"
  "pm_stopping (set_connections cs p) = pm_stopping p"
  "pm_calls (set_connections cs p) = pm_calls p"
  by (simp_all add: set_connections_def)

text \<open>An operation on the list of connections keeps the invariant when the active index stays valid.\<close>

lemma pm_inv_connections:
  assumes "pm_inv p" and "set (pm_connections q) \<subseteq> set (pm_connections p)"
    and "length (pm_connections q) \<le> length (pm_connections p)"
    and "if pm_connections q = [] then pm_activeConnectionIdx q = 0
         else unat (pm_activeConnectionIdx q) < length (pm_connections q)"
    and "pm_uris q = pm_uris p" "pm_client q = pm_client p" "pm_farm q = pm_farm p" "pm_currentWp q = pm_currentWp p"
  shows "pm_inv q"
proof -
  have "length (pm_connections q) < 2 ^ 32" using assms(1,3) by (simp add: pm_inv_defs)
  then show ?thesis
    using assms unfolding pm_inv_defs by (auto simp: list_all_iff)
qed

lemma addConnection_inv [inv_rules]:
  assumes "pm_inv p" and "c < length (pm_uris p)" and "Suc (length (pm_connections p)) < 2 ^ 32"
  shows "pm_inv (addConnection c p)"
  using assms by (auto simp: addConnection_def pm_inv_defs split: if_splits)

lemma addConnection_str_inv [inv_rules]:
  assumes "pm_inv p" and "Suc (length (pm_connections p)) < 2 ^ 32"
  shows "pm_inv (snd (addConnection_str bo g s p))"
  using assms
  by (cases "new_URI bo g s False")
     (auto simp: addConnection_str_def withv_def pm_inv_defs list_all_iff less_SucI split: if_splits)

lemma unat_pred: "x \<noteq> 0 \<Longrightarrow> unat (x - 1 :: u32) = unat x - 1"
  by (simp add: unat_minus_one)

lemma removeConnection_inv [inv_rules]:
  assumes "pm_inv p"
  shows "pm_inv (snd (removeConnection idx p))"
proof (cases "\<not> pm_async_pending p \<and> unat idx < length (pm_connections p) \<and> idx \<noteq> pm_activeConnectionIdx p")
  case True
  then have a: "unat (pm_activeConnectionIdx p) < length (pm_connections p)"
    using pm_inv_parts(1) [OF assms] by (auto simp: conns_ok_def split: if_splits)
  have ne: "unat idx \<noteq> unat (pm_activeConnectionIdx p)" using True by (metis unsigned_word_eqI)
  have l: "length (erase_at (unat idx) (pm_connections p)) = length (pm_connections p) - 1" using True by simp
  have nonempty: "erase_at (unat idx) (pm_connections p) \<noteq> []" using l a ne True
    by (auto simp flip: length_greater_0_conv)
  have pos: "idx < pm_activeConnectionIdx p \<Longrightarrow> pm_activeConnectionIdx p \<noteq> 0" by auto
  show ?thesis
    using True a ne l nonempty pos
    by (intro pm_inv_connections [OF assms])
       (auto simp: removeConnection_def Let_def unat_pred word_less_nat_alt set_erase_at_subset [THEN subsetD])
qed (use assms in \<open>auto simp: removeConnection_def\<close>)

lemma setActiveConnectionCommon_inv:
  assumes "pm_inv p" and "unat idx < length (pm_connections p)"
  shows "pm_inv (snd (setActiveConnectionCommon idx p))"
  using assms
  by (auto simp: setActiveConnectionCommon_def Let_def call_def intro!: pm_inv_connections [OF assms(1)])

lemma setActiveConnection_inv [inv_rules]: "pm_inv p \<Longrightarrow> pm_inv (snd (setActiveConnection idx p))"
  by (simp add: setActiveConnection_def setActiveConnectionCommon_inv)

lemma find_connection_bound:
  "find_connection eq uris s i cs = Some j \<Longrightarrow> i \<le> j \<and> j < i + length cs"
  by (induction cs arbitrary: i) (fastforce split: if_splits)+

lemma setActiveConnection_str_inv [inv_rules]:
  assumes "pm_inv p"
  shows "pm_inv (snd (setActiveConnection_str eq s p))"
proof (cases "find_connection eq (pm_uris p) s 0 (pm_connections p)")
  case (Some j)
  then have "j < length (pm_connections p)" using find_connection_bound by fastforce
  moreover from this have "unat (of_nat j :: u32) = j"
    using assms by (intro unat_of_nat_u32) (simp add: pm_inv_defs)
  ultimately show ?thesis using Some assms by (simp add: setActiveConnection_str_def setActiveConnectionCommon_inv)
qed (use assms in \<open>simp add: setActiveConnection_str_def\<close>)

lemma failovertimer_inv [inv_rules]: "pm_inv p \<Longrightarrow> pm_inv (snd (failovertimer_elapsed ec p))"
  by (auto simp: failovertimer_elapsed_def Let_def count_switch_def call_def conns_ok_def
      intro!: pm_inv_connections [of p] split: if_splits dest: pm_inv_parts(1))

lemma submithrtimer_inv [inv_rules]: "pm_inv p \<Longrightarrow> pm_inv (snd (submithrtimer_elapsed ec p))"
  by (cases "to_uint32 (ta_hashrate (tm_farm (fm_telemetry (pm_farm p))))")
     (simp_all add: submithrtimer_elapsed_def Let_def withv_def inv_rules)

lemma reconnecttimer_inv [inv_rules]: "pm_inv p \<Longrightarrow> pm_inv (reconnecttimer_elapsed ec p)"
  by (simp add: reconnecttimer_elapsed_def inv_rules)

lemma wrap_index_conns [simp]:
  "pm_connections (wrap_index p) = pm_connections p" "pm_uris (wrap_index p) = pm_uris p"
  "pm_client (wrap_index p) = pm_client p" "pm_farm (wrap_index p) = pm_farm p"
  "pm_currentWp (wrap_index p) = pm_currentWp p"
  by (simp_all add: wrap_index_def)

lemma wrap_index_valid:
  "if pm_connections p = [] then pm_activeConnectionIdx (wrap_index p) = 0
   else unat (pm_activeConnectionIdx (wrap_index p)) < length (pm_connections p)"
  by (simp add: wrap_index_def)

lemma wrap_index_id: "conns_ok p \<Longrightarrow> wrap_index p = p"
  by (auto simp: wrap_index_def conns_ok_def split: if_splits)

lemma count_switch_simps [simp]:
  "pm_connections (count_switch p) = pm_connections p" "pm_uris (count_switch p) = pm_uris p"
  "pm_client (count_switch p) = pm_client p" "pm_farm (count_switch p) = pm_farm p"
  "pm_currentWp (count_switch p) = pm_currentWp p"
  "pm_activeConnectionIdx (count_switch p) = pm_activeConnectionIdx p"
  by (simp_all add: count_switch_def)

lemma discard_or_rotate_inv [inv_rules]:
  assumes "pm_inv p" and "pm_connections p \<noteq> []"
  shows "pm_inv (discard_or_rotate p)"
proof -
  let ?i = "unat (pm_activeConnectionIdx p)"
  have i: "?i < length (pm_connections p)" using assms by (simp add: pm_inv_defs)
  then have l: "length (erase_at ?i (pm_connections p)) \<le> length (pm_connections p)" by simp
  consider "ur_unrecoverable (pm_uris p ! (pm_connections p ! ?i))"
    | "\<not> ur_unrecoverable (pm_uris p ! (pm_connections p ! ?i))" "length (pm_connections p) = 1"
    | "\<not> ur_unrecoverable (pm_uris p ! (pm_connections p ! ?i))" "length (pm_connections p) \<noteq> 1" by blast
  then show ?thesis
  proof cases
    case 1
    let ?q = "(set_connections (erase_at ?i (pm_connections p)) p)\<lparr>pm_connectionAttempt := 0\<rparr>"
    show ?thesis
      using 1 l wrap_index_valid [of ?q]
      by (intro pm_inv_connections [OF assms(1)])
         (auto simp: discard_or_rotate_def Let_def set_erase_at_subset [THEN subsetD] split: if_splits)
  next
    case 2
    then have "?i = 0" "erase_at ?i (pm_connections p) = []" using i by (auto simp: erase_at_def length_Suc_conv)
    then show ?thesis
      using 2 assms(1)
      by (auto simp: discard_or_rotate_def Let_def unat_eq_0 intro!: pm_inv_connections [OF assms(1)])
  next
    case 3
    let ?q = "p\<lparr>pm_connectionAttempt := 0, pm_activeConnectionIdx := pm_activeConnectionIdx p + 1\<rparr>"
    show ?thesis
      using 3 assms(1) wrap_index_valid [of ?q]
      by (cases "ps_connectionMaxRetries (pm_Settings p) \<le> pm_connectionAttempt p")
         (auto simp: discard_or_rotate_def Let_def intro!: pm_inv_connections [OF assms(1)])
  qed
qed

lemma begin_connect_inv [inv_rules]:
  assumes "pm_inv p" and "pm_connections p \<noteq> []"
  shows "pm_inv (begin_connect p)"
proof -
  have "pm_connections p ! unat (pm_activeConnectionIdx p) < length (pm_uris p)"
    using assms by (auto simp: pm_inv_defs list_all_length)
  then show ?thesis
    using assms by (auto simp: begin_connect_def Let_def setConnection_def call_def pm_inv_defs)
qed

lemma give_up_inv [inv_rules]: "pm_inv p \<Longrightarrow> pm_inv (give_up p)"
  by (simp add: give_up_def inv_rules)

lemma rotateConnect_eq:
  assumes "pm_inv p" and "\<not> client_connected p"
  shows "rotateConnect p =
    (if pm_connections p = [] then (Some OutOfRange, p)
     else let q = discard_or_rotate p in
       (None, if pm_connections q \<noteq> [] \<and>
                ur_host (pm_uris q ! (pm_connections q ! unat (pm_activeConnectionIdx q))) \<noteq> ''exit''
              then begin_connect q else give_up q))"
  using assms(2) wrap_index_id [OF pm_inv_parts(1) [OF assms(1)]] by (simp add: rotateConnect_def Let_def)

lemma rotateConnect_inv [inv_rules]:
  assumes "pm_inv p"
  shows "pm_inv (snd (rotateConnect p))"
proof (cases "client_connected p \<or> pm_connections p = []")
  case True
  then show ?thesis
    using assms by (cases "client_connected p") (simp_all add: rotateConnect_def [of p] rotateConnect_eq wrap_index_id pm_inv_parts)
next
  case False
  then show ?thesis using assms by (simp add: rotateConnect_eq Let_def inv_rules)
qed

section \<open>Runs\<close>

text \<open>
  The events of the client, the farm's callbacks, the timers, the posted handlers and the calls of
  the API; in between the client changes its own state and marks its URI, and the farm
  makes its own steps. Responses name an existing miner, work packages have full hashes.
\<close>

inductive pm_step :: "'c pm_env \<Rightarrow> PoolManager \<Rightarrow> PoolManager \<Rightarrow> bool" for env :: "'c pm_env" where
  ps_connected: "pm_step env p (snd (onConnected d p))"
| ps_disconnected: "pm_step env p (snd (onDisconnected p))"
| ps_work: "wp_wf wp \<Longrightarrow> pm_step env p (snd (onWorkReceived env d wp p))"
| ps_accepted: "unat i < length (tm_miners (fm_telemetry (pm_farm p))) \<Longrightarrow>
    pm_step env p (snd (onSolutionAccepted d i p))"
| ps_rejected: "unat i < length (tm_miners (fm_telemetry (pm_farm p))) \<Longrightarrow>
    pm_step env p (snd (onSolutionRejected d i p))"
| ps_restart: "pm_step env p (onMinerRestart d p)"
| ps_found: "pm_step env p (onSolutionFound sol p)"
| ps_start: "pm_step env p (pm_start p)"
| ps_stop: "pm_step env p (pm_stop p)"
| ps_stop_finish: "pm_step env p (pm_stop_finish p)"
| ps_add: "c < length (pm_uris p) \<Longrightarrow> Suc (length (pm_connections p)) < 2 ^ 32 \<Longrightarrow> pm_step env p (addConnection c p)"
| ps_add_str: "Suc (length (pm_connections p)) < 2 ^ 32 \<Longrightarrow>
    pm_step env p (snd (addConnection_str (en_boost env) g s p))"
| ps_remove: "pm_step env p (snd (removeConnection idx p))"
| ps_active: "pm_step env p (snd (setActiveConnection idx p))"
| ps_active_str: "pm_step env p (snd (setActiveConnection_str (en_iequals env) s p))"
| ps_rotate: "pm_step env p (snd (rotateConnect p))"
| ps_failover: "pm_step env p (snd (failovertimer_elapsed ec (p\<lparr>pm_failovertimer := None\<rparr>)))"
| ps_submithr: "pm_step env p (snd (submithrtimer_elapsed ec (p\<lparr>pm_submithrtimer := None\<rparr>)))"
| ps_reconnect: "pm_step env p (reconnecttimer_elapsed ec (p\<lparr>pm_reconnecttimer := None\<rparr>))"
| ps_client: "pm_client p = Some c \<Longrightarrow> pc_conn c' = pc_conn c \<Longrightarrow> pm_step env p (p\<lparr>pm_client := Some c'\<rparr>)"
| ps_uri: "pm_step env p (p\<lparr>pm_uris := upd_uri f i (pm_uris p)\<rparr>)"
| ps_farm: "farm_step (en_ethash env) (pm_farm p) f \<Longrightarrow> pm_step env p (p\<lparr>pm_farm := f\<rparr>)"
| ps_served: "pm_step env p (p\<lparr>pm_calls := cs\<rparr>)"

lemma pm_step_inv:
  assumes "pm_step env p q" and "pm_inv p"
  shows "pm_inv q"
  using assms(1)
proof cases
  case (ps_client c c')
  then show ?thesis using assms(2) by (simp add: pm_inv_defs)
next
  case (ps_uri f i)
  then show ?thesis using assms(2) by (simp add: pm_inv_defs)
next
  case (ps_farm f)
  then have "farm_inv f" using assms(2) farm_step_inv pm_inv_parts(3) by blast
  with ps_farm assms(2) show ?thesis by (simp add: inv_rules)
qed (use assms(2) in \<open>simp_all add: inv_rules onSolutionAccepted_def onSolutionRejected_def\<close>)

definition pm_init :: "PoolManager \<Rightarrow> bool" where
  "pm_init p \<longleftrightarrow> (\<exists>st uris fst ds r now. p = new_PoolManager st uris (new_Farm fst ds r now) \<and>
     list_all (\<lambda>c. c < length uris) (ps_connections st) \<and> length (ps_connections st) < 2 ^ 32)"

lemma pm_init_inv: "pm_init p \<Longrightarrow> pm_inv p"
  by (auto simp: pm_init_def new_PoolManager_def pm_inv_defs new_Farm_inv)

interpretation manager: machine pm_init "pm_step env" pm_inv
  by unfold_locales (auto intro: pm_init_inv pm_step_inv)

section \<open>The order of the attempts\<close>

text \<open>
  The manager against pools that all fail. A step executes what the manager has left pending, and
  nothing else: the posted \<open>rotateConnect\<close>; the \<open>connect()\<close> it has called on its client, which is
  the only thing that makes an attempt, observed with the connection the client holds, and which
  the client answers with \<open>onDisconnected\<close>; or, when nothing is left to run, the armed reconnect
  timer. A manager that throws, or that has nothing pending and no timer armed, is stuck.
\<close>

definition failing_step :: "PoolManager \<Rightarrow> (nat list \<times> PoolManager) option" where
  "failing_step p =
     (case pm_calls p of
        [] \<Rightarrow> if pm_reconnecttimer p = None then None
              else Some ([], reconnecttimer_elapsed False (p\<lparr>pm_reconnecttimer := None\<rparr>))
      | Post_rotateConnect # rest \<Rightarrow>
          (case rotateConnect (p\<lparr>pm_calls := rest\<rparr>) of (None, q) \<Rightarrow> Some ([], q) | (Some e, q) \<Rightarrow> None)
      | Cl_connect # rest \<Rightarrow>
          (case (Option.bind (pm_client p) pc_conn, onDisconnected (p\<lparr>pm_calls := rest\<rparr>)) of
             (Some c, None, q) \<Rightarrow> Some ([c], q) | _ \<Rightarrow> None)
      | _ \<Rightarrow> None)"

fun failing_run :: "nat \<Rightarrow> PoolManager \<Rightarrow> (nat list \<times> PoolManager) option" where
  "failing_run 0 p = Some ([], p)"
| "failing_run (Suc n) p =
     (case failing_run n p of
        None \<Rightarrow> None
      | Some (cs, q) \<Rightarrow> (case failing_step q of None \<Rightarrow> None | Some (c, r) \<Rightarrow> Some (cs @ c, r)))"

text \<open>
  \<open>trying cs m i t p\<close>: the manager waits for the \<open>t\<close>-th attempt on the \<open>i\<close>-th of the
  connections \<open>cs\<close>, none of which is marked unrecoverable or ends the program.
\<close>

definition usable :: "URI list \<Rightarrow> nat \<Rightarrow> bool" where
  "usable uris c \<longleftrightarrow> c < length uris \<and> \<not> ur_unrecoverable (uris ! c) \<and> ur_host (uris ! c) \<noteq> ''exit''"

definition ready :: "nat list \<Rightarrow> nat \<Rightarrow> nat \<Rightarrow> nat \<Rightarrow> PoolManager \<Rightarrow> bool" where
  "ready cs m i t p \<longleftrightarrow>
     pm_connections p = cs \<and> list_all (usable (pm_uris p)) cs \<and> length cs < 2 ^ 32 \<and> i < length cs \<and>
     unat (ps_connectionMaxRetries (pm_Settings p)) = m \<and> unat (pm_activeConnectionIdx p) = i \<and>
     unat (pm_connectionAttempt p) = t \<and> \<not> pm_stopping p \<and> \<not> client_connected p"

definition trying :: "nat list \<Rightarrow> nat \<Rightarrow> nat \<Rightarrow> nat \<Rightarrow> PoolManager \<Rightarrow> bool" where
  "trying cs m i t p \<longleftrightarrow> ready cs m i t p \<and> (\<exists>c. pm_client p = Some c \<and> pc_conn c = Some (cs ! i))"

lemma usable_upd [simp]: "usable (upd_uri (Responds b) j uris) = usable uris"
proof
  fix c
  have "c < length uris \<Longrightarrow> upd_uri (Responds b) j uris ! c = (if j = c then Responds b (uris ! c) else uris ! c)"
    by (simp add: upd_uri_def)
  then show "usable (upd_uri (Responds b) j uris) c = usable uris c" by (cases "j = c") (auto simp: usable_def Responds_def)
qed

lemma ready_wrap: "ready cs m i t p \<Longrightarrow> wrap_index p = p"
  by (auto simp: ready_def wrap_index_def)

lemma ready_active:
  assumes "ready cs m i t p"
  shows "\<not> ur_unrecoverable (pm_uris p ! (cs ! i))" "ur_host (pm_uris p ! (cs ! i)) \<noteq> ''exit''"
    "cs ! i < length (pm_uris p)"
  using assms by (auto simp: ready_def list_all_length usable_def)

lemma begin_connect_trying:
  assumes "ready cs m i t p" and "Suc t < 2 ^ 32"
  shows "trying cs m i (Suc t) (begin_connect p)"
proof -
  have "unat (pm_connectionAttempt p + 1) = Suc t"
    using assms by (simp add: ready_def unat_word_ariths(1))
  then show ?thesis
    using assms(1)
    by (auto simp: begin_connect_def Let_def setConnection_def call_def trying_def ready_def client_connected_def
        isConnected_def new_client_def new_PoolClient_def PoolClient.defs)
qed

lemma rotate_next:
  assumes "ready cs m i t p" and "t = m" and "1 < length cs"
  shows "ready cs m (Suc i mod length cs) 0 (discard_or_rotate p)"
proof -
  have r: "unat (pm_activeConnectionIdx p) = i" "i < length cs" "length cs < 2 ^ 32" "pm_connections p = cs"
    using assms(1) by (simp_all add: ready_def)
  have "unat (pm_activeConnectionIdx p + 1) = Suc i" using r by (simp add: unat_word_ariths(1))
  moreover have "Suc i mod length cs = (if length cs \<le> Suc i then 0 else Suc i)" using r by (simp add: mod_Suc)
  moreover have "ps_connectionMaxRetries (pm_Settings p) \<le> pm_connectionAttempt p"
    using assms(1,2) by (simp add: ready_def word_le_nat_alt)
  ultimately show ?thesis
    using assms(1,3) r ready_active [OF assms(1)]
    by (auto simp: discard_or_rotate_def Let_def count_switch_def wrap_index_def ready_def client_connected_def)
qed

lemma rotate_stay: "ready cs m i t p \<Longrightarrow> t < m \<Longrightarrow> discard_or_rotate p = p"
  using ready_active(1) [of cs m i t p]
  by (auto simp: discard_or_rotate_def Let_def ready_def word_le_nat_alt)

lemma attempts_bound: "ready cs m i t p \<Longrightarrow> m < 2 ^ 32"
  using unsigned_less [where 'b = 32 and 'a = nat] by (auto simp: ready_def)

lemma rotateConnect_begins:
  assumes "ready cs m i t p" and "t < m \<or> t = m \<and> 0 < m \<and> 1 < length cs"
  shows "rotateConnect p = (None, begin_connect (discard_or_rotate p)) \<and>
    trying cs m (if t < m then i else Suc i mod length cs) (if t < m then Suc t else 1)
      (begin_connect (discard_or_rotate p))"
proof -
  note m = attempts_bound [OF assms(1)]
  have p: "\<not> client_connected p" "pm_connections p \<noteq> []" using assms(1) by (auto simp: ready_def)
  define q where "q = discard_or_rotate p"
  have q: "ready cs m (if t < m then i else Suc i mod length cs) (if t < m then t else 0) q"
    using assms rotate_next [OF assms(1)] rotate_stay [OF assms(1)] by (auto simp: q_def)
  have "pm_connections q \<noteq> []" "ur_host (pm_uris q ! (pm_connections q ! unat (pm_activeConnectionIdx q))) \<noteq> ''exit''"
    using q ready_active(2) [OF q] by (auto simp: ready_def)
  then have "rotateConnect p = (None, begin_connect q)"
    using p by (simp add: rotateConnect_def ready_wrap [OF assms(1)] Let_def q_def [symmetric])
  then show ?thesis using begin_connect_trying [OF q] m by (cases "t < m") (simp_all add: q_def)
qed

lemma onDisconnected_ready: "trying cs m i t p \<Longrightarrow> ready cs m i t (snd (onDisconnected p))"
  by (auto simp: trying_def ready_def onDisconnected_def Let_def unsetConnection_def call_def client_connected_def
      isConnected_def)

text \<open>
  What is pending between two steps: the posted handler after the \<open>t\<close>-th attempt on the \<open>i\<close>-th
  connection, the timer before an attempt, or the call that makes it.
\<close>

definition posted :: "nat list \<Rightarrow> nat \<Rightarrow> nat \<Rightarrow> nat \<Rightarrow> PoolManager \<Rightarrow> bool" where
  "posted cs m i t p \<longleftrightarrow>
     ready cs m i t p \<and> pm_running p \<and> pm_calls p = [Post_rotateConnect] \<and> pm_reconnecttimer p = None"

definition waiting :: "nat list \<Rightarrow> nat \<Rightarrow> nat \<Rightarrow> nat \<Rightarrow> PoolManager \<Rightarrow> bool" where
  "waiting cs m i t p \<longleftrightarrow> trying cs m i t p \<and> pm_running p \<and> pm_calls p = [] \<and> pm_reconnecttimer p \<noteq> None"

definition connecting :: "nat list \<Rightarrow> nat \<Rightarrow> nat \<Rightarrow> nat \<Rightarrow> PoolManager \<Rightarrow> bool" where
  "connecting cs m i t p \<longleftrightarrow>
     trying cs m i t p \<and> pm_running p \<and> pm_calls p = [Cl_connect] \<and> pm_reconnecttimer p = None"

lemma ready_upd [simp]:
  "ready cs m i t (p\<lparr>pm_calls := c\<rparr>) = ready cs m i t p"
  "ready cs m i t (p\<lparr>pm_reconnecttimer := d\<rparr>) = ready cs m i t p"
  "trying cs m i t (p\<lparr>pm_calls := c\<rparr>) = trying cs m i t p"
  "trying cs m i t (p\<lparr>pm_reconnecttimer := d\<rparr>) = trying cs m i t p"
  by (simp_all add: ready_def trying_def client_connected_def)

lemma discard_or_rotate_frame [simp]:
  "pm_running (discard_or_rotate p) = pm_running p" "pm_calls (discard_or_rotate p) = pm_calls p"
  "pm_reconnecttimer (discard_or_rotate p) = pm_reconnecttimer p"
  by (simp_all add: discard_or_rotate_def Let_def count_switch_def wrap_index_def set_connections_def)

lemma begin_connect_pending:
  assumes "pm_running p" and "pm_calls p = []" and "pm_reconnecttimer p = None"
  shows "pm_running (begin_connect p) \<and>
    (pm_calls (begin_connect p) = [] \<and> pm_reconnecttimer (begin_connect p) \<noteq> None \<or>
     pm_calls (begin_connect p) = [Cl_connect] \<and> pm_reconnecttimer (begin_connect p) = None)"
  using assms by (simp add: begin_connect_def Let_def setConnection_def call_def)

lemma posted_step:
  assumes "posted cs m i t p" and "t < m \<or> t = m \<and> 0 < m \<and> 1 < length cs"
  shows "\<exists>q i' t'. failing_step p = Some ([], q) \<and> i' = (if t < m then i else Suc i mod length cs) \<and>
    t' = (if t < m then Suc t else 1) \<and> (waiting cs m i' t' q \<or> connecting cs m i' t' q)"
proof -
  let ?p = "p\<lparr>pm_calls := []\<rparr>"
  have r: "ready cs m i t ?p" and p: "pm_running ?p" "pm_calls ?p = []" "pm_reconnecttimer ?p = None"
    using assms(1) by (simp_all add: posted_def)
  obtain q where q: "rotateConnect ?p = (None, begin_connect q)" "q = discard_or_rotate ?p"
    "trying cs m (if t < m then i else Suc i mod length cs) (if t < m then Suc t else 1) (begin_connect q)"
    using rotateConnect_begins [OF r assms(2)] by auto
  then have "failing_step p = Some ([], begin_connect q)"
    using assms(1) by (simp add: posted_def failing_step_def)
  with q(3) begin_connect_pending [of q] p show ?thesis
    by (auto simp: q(2) waiting_def connecting_def simp del: ready_upd split del: if_split)
qed

lemma waiting_step:
  assumes "waiting cs m i t p"
  shows "\<exists>q. failing_step p = Some ([], q) \<and> connecting cs m i t q"
proof -
  let ?p = "p\<lparr>pm_reconnecttimer := None\<rparr>"
  have "pm_client ?p \<noteq> None" "\<not> client_connected ?p" "pm_running ?p" "pm_calls ?p = []" "trying cs m i t ?p"
    using assms by (auto simp: waiting_def trying_def ready_def client_connected_def)
  then show ?thesis
    using assms by (auto simp: failing_step_def reconnecttimer_elapsed_def waiting_def connecting_def call_def)
qed

lemma connecting_step:
  assumes "connecting cs m i t p"
  shows "\<exists>q. failing_step p = Some ([cs ! i], q) \<and> posted cs m i t q"
proof -
  let ?p = "p\<lparr>pm_calls := []\<rparr>"
  have t: "trying cs m i t ?p" using assms by (simp add: connecting_def)
  then obtain c where c: "pm_client p = Some c" "pc_conn c = Some (cs ! i)" "\<not> pm_stopping p"
    by (auto simp: trying_def ready_def)
  have "pm_running (snd (onDisconnected ?p))" "pm_calls (snd (onDisconnected ?p)) = [Post_rotateConnect]"
    "pm_reconnecttimer (snd (onDisconnected ?p)) = None" "fst (onDisconnected ?p) = None"
    using assms c by (simp_all add: onDisconnected_def connecting_def call_def)
  moreover have "failing_step p = Some ([cs ! i], snd (onDisconnected ?p))"
    using assms c calculation(4) by (auto simp: failing_step_def connecting_def split: prod.split)
  ultimately show ?thesis using onDisconnected_ready [OF t] by (simp add: posted_def)
qed

text \<open>From a posted handler the next attempt is made within three steps.\<close>

lemma next_attempt:
  assumes "failing_run n s = Some (tr, p)" and "posted cs m i t p" and "t < m \<or> t = m \<and> 0 < m \<and> 1 < length cs"
  shows "\<exists>n' q i'. failing_run n' s = Some (tr @ [cs ! i'], q) \<and> i' = (if t < m then i else Suc i mod length cs) \<and>
    posted cs m i' (if t < m then Suc t else 1) q"
proof -
  define i' t' where "i' = (if t < m then i else Suc i mod length cs)" and "t' = (if t < m then Suc t else 1)"
  obtain q where q: "failing_run (Suc n) s = Some (tr, q)" "waiting cs m i' t' q \<or> connecting cs m i' t' q"
    using posted_step [OF assms(2,3)] assms(1) by (auto simp: i'_def t'_def)
  have go: "\<exists>n' q. failing_run n' s = Some (tr @ [cs ! i'], q) \<and> posted cs m i' t' q"
    if "failing_run k s = Some (tr, r)" "connecting cs m i' t' r" for k r
    using connecting_step [OF that(2)] that(1) by (intro exI [of _ "Suc k"]) auto
  from q(2) show ?thesis
  proof
    assume "waiting cs m i' t' q"
    then obtain r where "failing_run (Suc (Suc n)) s = Some (tr, r)" "connecting cs m i' t' r"
      using waiting_step q(1) by fastforce
    from go [OF this] show ?thesis unfolding i'_def [symmetric] t'_def [symmetric] by blast
  qed (use go [OF q(1)] in \<open>unfold i'_def [symmetric] t'_def [symmetric], blast\<close>)
qed

lemma start_posted:
  assumes "ready cs m a 0 p" and "pm_calls p = []" and "pm_reconnecttimer p = None"
  shows "posted cs m a 0 (pm_start p)"
  using assms by (simp add: posted_def pm_start_def call_def ready_def client_connected_def)

lemma schedule_step:
  fixes k m a n :: nat
  assumes "0 < m"
  shows "(if k mod m + 1 < m then (a + k div m) mod n else Suc ((a + k div m) mod n) mod n) = (a + Suc k div m) mod n"
    and "(if k mod m + 1 < m then Suc (k mod m + 1) else 1) = Suc k mod m + 1"
proof -
  have "k mod m + 1 < m \<longleftrightarrow> Suc (k mod m) \<noteq> m" using assms mod_less_divisor [of m k] by linarith
  then show "(if k mod m + 1 < m then (a + k div m) mod n else Suc ((a + k div m) mod n) mod n) = (a + Suc k div m) mod n"
    and "(if k mod m + 1 < m then Suc (k mod m + 1) else 1) = Suc k mod m + 1"
    by (auto simp: div_Suc mod_Suc mod_Suc_eq)
qed

text \<open>The \<open>k\<close>-th attempt, counted from 0, goes to the pool \<open>(a + k div m) mod n\<close>, as its attempt \<open>k mod m + 1\<close>.\<close>

definition schedule :: "nat list \<Rightarrow> nat \<Rightarrow> nat \<Rightarrow> nat \<Rightarrow> nat" where
  "schedule cs m a k = (a + k div m) mod length cs"

definition after_attempts :: "nat list \<Rightarrow> nat \<Rightarrow> nat \<Rightarrow> nat \<Rightarrow> PoolManager \<Rightarrow> bool" where
  "after_attempts cs m a k p \<longleftrightarrow>
     (case k of 0 \<Rightarrow> posted cs m a 0 p | Suc j \<Rightarrow> posted cs m (schedule cs m a j) (j mod m + 1) p)"

lemma next_scheduled:
  assumes "after_attempts cs m a k p" and "0 < m" and "1 < length cs"
  obtains i t where "posted cs m i t p" "t < m \<or> t = m \<and> 0 < m \<and> 1 < length cs"
    "schedule cs m a k = (if t < m then i else Suc i mod length cs)" "k mod m + 1 = (if t < m then Suc t else 1)"
proof (cases k)
  case 0
  with assms have "posted cs m a 0 p" "schedule cs m a k = a" by (simp_all add: after_attempts_def schedule_def posted_def ready_def)
  with that [of a 0] assms(2) 0 show ?thesis by simp
next
  case (Suc j)
  have le: "j mod m + 1 \<le> m" using assms(2) mod_less_divisor [of m j] by linarith
  show ?thesis
  proof (rule that [of "schedule cs m a j" "j mod m + 1"])
    show "posted cs m (schedule cs m a j) (j mod m + 1) p" using assms(1) Suc by (simp add: after_attempts_def)
    show "j mod m + 1 < m \<or> j mod m + 1 = m \<and> 0 < m \<and> 1 < length cs" using le assms(2,3) by linarith
  qed (simp_all only: Suc schedule_def schedule_step [OF assms(2)])
qed

lemma schedule_reached:
  assumes "failing_run 0 s = Some ([], p)" and "after_attempts cs m a 0 p" and "0 < m" and "1 < length cs"
  shows "\<exists>n q. failing_run n s = Some (map (\<lambda>j. cs ! schedule cs m a j) [0..<k], q) \<and> after_attempts cs m a k q"
proof (induction k)
  case 0
  then show ?case using assms(1,2) by (intro exI [of _ 0]) auto
next
  case (Suc k)
  then obtain n q where q: "failing_run n s = Some (map (\<lambda>j. cs ! schedule cs m a j) [0..<k], q)" "after_attempts cs m a k q"
    by blast
  obtain i t where "posted cs m i t q" "t < m \<or> t = m \<and> 0 < m \<and> 1 < length cs"
    "schedule cs m a k = (if t < m then i else Suc i mod length cs)" "k mod m + 1 = (if t < m then Suc t else 1)"
    using next_scheduled [OF q(2) assms(3,4)] by blast
  with next_attempt [OF q(1)] show ?case by (auto simp: after_attempts_def split del: if_split)
qed

lemma failing_run_le: "failing_run (n + d) p = Some (tr, q) \<Longrightarrow> \<exists>tr' q' tr''. failing_run n p = Some (tr', q') \<and> tr = tr' @ tr''"
proof (induction d arbitrary: tr q)
  case (Suc d)
  then obtain tr1 q1 c where "failing_run (n + d) p = Some (tr1, q1)" "tr = tr1 @ c"
    by (auto split: option.splits)
  with Suc.IH [of tr1 q1] show ?case by auto
qed auto

lemma failing_run_length: "failing_run n p = Some (tr, q) \<Longrightarrow> length tr \<le> n"
proof (induction n arbitrary: tr q)
  case (Suc n)
  then obtain tr1 q1 c where c: "failing_run n p = Some (tr1, q1)" "tr = tr1 @ c" "failing_step q1 = Some (c, q)"
    by (auto split: option.splits)
  from c(3) have "length c \<le> 1"
    by (auto simp: failing_step_def split: list.splits pm_call.splits prod.splits option.splits if_splits)
  with Suc.IH [OF c(1)] c(2) show ?case by simp
qed auto

text \<open>
  C9: The order of the attempts. A manager with at least two pools and at least one retry allowed is
  started, and every attempt to connect fails. Executing only what the manager has itself posted,
  called or armed, it is never stuck; the attempts it has made after any number of steps are an
  initial part of the schedule that tries every pool \<open>connectionMaxRetries\<close> times in a row and then
  goes to the next one, in the configured order and round and round; and every attempt of the
  schedule is made. So no pool is left out, and the manager never gives up.
\<close>

theorem rotation_schedule:
  assumes "ready cs m a 0 p" and "pm_calls p = []" and "pm_reconnecttimer p = None"
    and "0 < m" and "1 < length cs"
  shows "(\<forall>n. \<exists>k q. failing_run n (pm_start p) = Some (map (\<lambda>j. cs ! ((a + j div m) mod length cs)) [0..<k], q)) \<and>
    (\<forall>k. \<exists>n q. failing_run n (pm_start p) = Some (map (\<lambda>j. cs ! ((a + j div m) mod length cs)) [0..<k], q))"
proof -
  let ?s = "pm_start p" and ?f = "\<lambda>j. cs ! ((a + j div m) mod length cs)"
  have all: "\<exists>n q. failing_run n ?s = Some (map ?f [0..<k], q)" for k
    using schedule_reached [of ?s ?s cs m a k] start_posted [OF assms(1-3)] assms(4,5)
    by (auto simp: after_attempts_def schedule_def)
  have "\<exists>k q. failing_run n ?s = Some (map ?f [0..<k], q)" for n
  proof -
    obtain N q where N: "failing_run N ?s = Some (map ?f [0..<n], q)" using all [of n] by blast
    then have "n \<le> N" using failing_run_length by fastforce
    then obtain tr q' tr' where tr: "failing_run n ?s = Some (tr, q')" "map ?f [0..<n] = tr @ tr'"
      using failing_run_le [of n "N - n"] N by fastforce
    have "tr = take (length tr) (map ?f [0..<n])" unfolding tr(2) by simp
    also have "\<dots> = map ?f [0..<min n (length tr)]" by (simp add: take_map min_def)
    finally show ?thesis using tr(1) by metis
  qed
  with all show ?thesis by blast
qed

lemma last_retry:
  assumes "ready cs m 0 m p" and "length cs = 1"
  shows "fst (rotateConnect p) = None \<and> pm_connections (snd (rotateConnect p)) = [] \<and>
    \<not> pm_running (snd (rotateConnect p)) \<and> \<not> fm_isMining (pm_farm (snd (rotateConnect p))) \<and>
    last (pm_calls (snd (rotateConnect p))) = Raise_SIGTERM"
proof -
  obtain c where c: "cs = [c]" using assms(2) by (auto simp: length_Suc_conv)
  have i: "unat (pm_activeConnectionIdx p) = 0" "pm_connections p = cs" "\<not> client_connected p"
    and max: "ps_connectionMaxRetries (pm_Settings p) \<le> pm_connectionAttempt p"
    using assms(1) by (simp_all add: ready_def word_le_nat_alt)
  have "pm_connections (discard_or_rotate p) = []"
    using c i max ready_active(1) [OF assms(1)] by (simp add: discard_or_rotate_def Let_def erase_at_def)
  then show ?thesis
    using i c by (simp add: rotateConnect_def ready_wrap [OF assms(1)] Let_def give_up_def call_def
        shut_down_miners_def farm_stop_def)
qed

text \<open>
  A single pool. The manager makes \<open>connectionMaxRetries\<close> attempts on it; after the last one
  has failed it forgets the pool, stops the miners and raises \<open>SIGTERM\<close>.
\<close>

lemma single_pool_attempts:
  assumes "posted [c] m 0 0 s" and "k \<le> m"
  shows "\<exists>n q. failing_run n s = Some (replicate k c, q) \<and> posted [c] m 0 k q"
  using assms(2)
proof (induction k)
  case 0
  then show ?case using assms(1) by (intro exI [of _ 0]) auto
next
  case (Suc k)
  then obtain n q where "failing_run n s = Some (replicate k c, q)" "posted [c] m 0 k q" by auto
  from next_attempt [OF this] Suc.prems show ?case by (auto simp: replicate_append_same)
qed

theorem single_pool_exits:
  assumes "ready [c] m 0 0 p" and "pm_calls p = []" and "pm_reconnecttimer p = None"
  shows "\<exists>n q. failing_run n (pm_start p) = Some (replicate m c, q) \<and>
    pm_connections q = [] \<and> \<not> pm_running q \<and> \<not> fm_isMining (pm_farm q) \<and> last (pm_calls q) = Raise_SIGTERM"
proof -
  obtain n q where q: "failing_run n (pm_start p) = Some (replicate m c, q)" "posted [c] m 0 m q"
    using single_pool_attempts [OF start_posted [OF assms], of m] by auto
  let ?r = "rotateConnect (q\<lparr>pm_calls := []\<rparr>)"
  have r: "ready [c] m 0 m (q\<lparr>pm_calls := []\<rparr>)" using q(2) by (simp add: posted_def)
  note last = last_retry [OF r]
  then have "failing_step q = Some ([], snd ?r)" using q(2) by (auto simp: failing_step_def posted_def split: prod.split)
  with q(1) last show ?thesis by (intro exI [of _ "Suc n"] exI [of _ "snd ?r"]) simp
qed

text \<open>
  No retries. The option accepts 0 retries; then the first attempt on the only pool is never
  made, and with several pools the first one is skipped.
\<close>

theorem no_retries_skips_pool:
  assumes "ready cs 0 0 0 p"
  shows "if length cs = 1
         then \<not> pm_running (snd (rotateConnect p)) \<and> last (pm_calls (snd (rotateConnect p))) = Raise_SIGTERM
         else trying cs 0 1 1 (snd (rotateConnect p))"
proof (cases "length cs = 1")
  case False
  then have n: "1 < length cs" using assms by (cases cs) (auto simp: ready_def)
  note q = rotate_next [OF assms refl n]
  have "rotateConnect p = (None, begin_connect (discard_or_rotate p))"
    using assms q ready_active(2) [OF q] ready_wrap [OF assms]
    by (auto simp: rotateConnect_def Let_def ready_def)
  with begin_connect_trying [OF q] n False show ?thesis by simp
qed (use last_retry [OF assms] in simp)

definition sample_uri :: "string \<Rightarrow> URI" where
  "sample_uri h = (empty_URI h 0)\<lparr>ur_scheme := ''stratum1+tcp'', ur_host := h, ur_hostType := HT_Dns\<rparr>"

definition sample_manager :: "nat list \<Rightarrow> u32 \<Rightarrow> PoolManager" where
  "sample_manager cs retries =
     new_PoolManager ((default_PoolSettings ''id'')\<lparr>ps_connections := cs, ps_connectionMaxRetries := retries\<rparr>)
       [sample_uri ''eu'', sample_uri ''us''] (new_Farm \<lparr>fs_dagLoadMode = 0, fs_noEval = False, fs_ergodicity = 0\<rparr>
        [(''cpu-0'', sample_device), (''cpu-1'', sample_device)] 7 0)"

lemma sample_ready:
  "cs = [0, 1] \<or> cs = [0] \<Longrightarrow> ready cs (unat r) 0 0 (sample_manager cs r)"
  by (auto simp: ready_def sample_manager_def new_PoolManager_def usable_def sample_uri_def empty_URI_def
      client_connected_def)

lemma sample_idle: "pm_calls (sample_manager cs r) = []" "pm_reconnecttimer (sample_manager cs r) = None"
  by (simp_all add: sample_manager_def new_PoolManager_def)

theorem rotation_schedule_witness:
  "\<exists>n q. failing_run n (pm_start (sample_manager [0, 1] 3)) = Some ([0, 0, 0, 1, 1, 1, 0, 0], q)"
proof -
  have "ready [0, 1] 3 0 0 (sample_manager [0, 1] 3)" using sample_ready [of "[0, 1]" 3] by simp
  from rotation_schedule [OF this sample_idle] 
  have "\<forall>k. \<exists>n q. failing_run n (pm_start (sample_manager [0, 1] 3)) =
      Some (map (\<lambda>j. [0, 1] ! (j div 3 mod 2)) [0..<k], q)"
    by (simp add: numeral_2_eq_2)
  from spec [OF this, of 8] show ?thesis by (simp add: upt_rec)
qed

theorem no_retries_skips_pool_witness:
  "\<not> pm_running (snd (rotateConnect (sample_manager [0] 0))) \<and>
   trying [0, 1] 0 1 1 (snd (rotateConnect (sample_manager [0, 1] 0)))"
  using no_retries_skips_pool [of "[0]" "sample_manager [0] 0"] no_retries_skips_pool [of "[0, 1]" "sample_manager [0, 1] 0"]
    sample_ready [of "[0]" 0] sample_ready [of "[0, 1]" 0] by simp

section \<open>Properties of reachable managers\<close>

text \<open>
  C11: The active connection. In every reachable state in which a connection is configured the
  active index denotes one of them, so \<open>getActiveConnection\<close> returns it; \<open>rotateConnect\<close>
  throws only when no connection is left, and \<open>removeConnection\<close> never removes the active one.
\<close>

theorem active_connection:
  assumes "reach pm_init (pm_step env) p"
  shows "(pm_connections p \<noteq> [] \<longrightarrow> (\<exists>c < length (pm_uris p). getActiveConnection p = Some c \<and> c \<in> set (pm_connections p))) \<and>
    fst (rotateConnect p) = (if client_connected p \<or> pm_connections p \<noteq> [] then None else Some OutOfRange) \<and>
    (fst (removeConnection idx p) = None \<longrightarrow> getActiveConnection (snd (removeConnection idx p)) = getActiveConnection p)"
proof -
  have inv: "pm_inv p" by (rule manager.reach_inv [OF assms])
  have act: "pm_connections p \<noteq> [] \<longrightarrow> (\<exists>c < length (pm_uris p). getActiveConnection p = Some c \<and> c \<in> set (pm_connections p))"
    using inv by (auto simp: pm_inv_defs getActiveConnection_def vec_at_def list_all_length)
  have rot: "fst (rotateConnect p) = (if client_connected p \<or> pm_connections p \<noteq> [] then None else Some OutOfRange)"
    using rotateConnect_eq [OF inv] by (cases "client_connected p") (simp_all add: rotateConnect_def [of p] Let_def)
  have rem: "getActiveConnection (snd (removeConnection idx p)) = getActiveConnection p"
    if ok: "fst (removeConnection idx p) = None"
  proof -
    from ok have i: "unat idx < length (pm_connections p)" "idx \<noteq> pm_activeConnectionIdx p" "\<not> pm_async_pending p"
      by (auto simp: removeConnection_def Let_def split: if_splits)
    then have a: "unat (pm_activeConnectionIdx p) < length (pm_connections p)"
      using inv by (auto simp: pm_inv_defs split: if_splits)
    have ne: "unat idx \<noteq> unat (pm_activeConnectionIdx p)" using i by (metis unsigned_word_eqI)
    have pos: "idx < pm_activeConnectionIdx p \<Longrightarrow> pm_activeConnectionIdx p \<noteq> 0" by auto
    show ?thesis
      using i a ne pos
      by (auto simp: removeConnection_def Let_def getActiveConnection_def vec_at_def unat_pred word_less_nat_alt
          nth_erase_at not_less split: if_splits)
  qed
  show ?thesis using act rot rem by simp
qed

lemma sample_init: "set cs \<subseteq> {0, 1} \<Longrightarrow> length cs < 2 ^ 32 \<Longrightarrow> pm_init (sample_manager cs r)"
  unfolding pm_init_def sample_manager_def by (fastforce simp: list_all_iff)

theorem active_connection_witness:
  "getActiveConnection (sample_manager [0, 1] 3) = Some 0 \<and> fst (rotateConnect (sample_manager [0, 1] 3)) = None \<and>
   getActiveConnection (snd (removeConnection 1 (sample_manager [0, 1] 3))) = Some 0"
proof -
  have "reach pm_init (pm_step env) (sample_manager [0, 1] 3)" for env :: "unit pm_env"
    by (rule reach_init) (simp add: sample_init)
  from active_connection [OF this, of 1]
  show ?thesis
    by (auto simp: sample_manager_def new_PoolManager_def getActiveConnection_def removeConnection_def vec_at_def)
qed

section \<open>Mining follows the connection\<close>

lemma onConnected_None:
  assumes "onConnected d p = (None, q)"
  shows "\<exists>r. q = (arm_submithr (start_or_resume d (arm_failover (shuffle_if_needed d (reset_work r)))))\<lparr>pm_async_pending := False\<rparr> \<and>
    pm_farm r = pm_farm p \<and> pm_currentWp r = pm_currentWp p \<and> pm_connectionAttempt r = 0"
  using assms by (auto simp: onConnected_def with_conn_def Let_def split: option.splits if_splits)

abbreviation unpaused :: "Farm \<Rightarrow> bool" where
  "unpaused f \<equiv> list_all (\<lambda>m. \<not> pauseTest PauseDueToFarmPaused m) (fm_miners f)"

lemma start_device_unpaused: "unpaused f \<Longrightarrow> unpaused (start_device vm now dd f)"
  by (simp add: start_device_def miner_startWorking_def new_CPUMiner_def pauseTest_def)

lemma start_devices_unpaused: "unpaused f \<Longrightarrow> unpaused (foldl (\<lambda>g kd. start_device vm now (snd kd) g) f ds)"
  by (induction ds arbitrary: f) (simp_all add: start_device_unpaused)

lemma start_or_resume_mining:
  assumes "farm_inv (pm_farm p)"
  shows "fm_isMining (pm_farm (start_or_resume d p)) \<and> unpaused (pm_farm (start_or_resume d p))"
proof (cases "fm_isMining (pm_farm p)")
  case True
  have "\<not> fm_paused (pm_farm p) \<Longrightarrow> unpaused (pm_farm p)"
    using assms by (auto simp: farm_inv_def list_all_iff miner_ok_def)
  with True show ?thesis
    by (auto simp: start_or_resume_def farm_resume_def list_all_iff pauses.test_lower)
next
  case False
  then have "fm_miners (pm_farm p) = []" using assms by (auto simp: farm_inv_def)
  with False start_devices_unpaused [of "pm_farm p"] show ?thesis
    by (simp add: start_or_resume_def spin_up_miners_def farm_start_def Let_def)
qed

lemma connect_frame [simp]:
  "pm_farm (arm_failover p) = pm_farm p" "pm_farm (reset_work p) = pm_farm p" "pm_farm (arm_submithr p) = pm_farm p"
  "pm_currentWp (arm_failover p) = pm_currentWp p" "pm_currentWp (shuffle_if_needed d p) = pm_currentWp p"
  "pm_currentWp (start_or_resume d p) = pm_currentWp p" "pm_currentWp (arm_submithr p) = pm_currentWp p"
  "pm_connectionAttempt (arm_failover p) = pm_connectionAttempt p"
  "pm_connectionAttempt (shuffle_if_needed d p) = pm_connectionAttempt p"
  "pm_connectionAttempt (start_or_resume d p) = pm_connectionAttempt p"
  "pm_connectionAttempt (arm_submithr p) = pm_connectionAttempt p"
  "pm_connectionAttempt (reset_work p) = pm_connectionAttempt p"
  by (simp_all add: arm_failover_def reset_work_def arm_submithr_def shuffle_if_needed_def start_or_resume_def
      spin_up_miners_def)

lemma connected_mines:
  assumes "pm_inv p" and "onConnected d p = (None, q)"
  shows "fm_isMining (pm_farm q) \<and> unpaused (pm_farm q) \<and> \<not> wp_valid (pm_currentWp q) \<and>
    pm_connectionAttempt q = 0 \<and> \<not> pm_async_pending q"
proof -
  obtain r where q: "q = (arm_submithr (start_or_resume d (arm_failover (shuffle_if_needed d (reset_work r)))))\<lparr>pm_async_pending := False\<rparr>"
    and r: "pm_farm r = pm_farm p" "pm_connectionAttempt r = 0"
    using onConnected_None [OF assms(2)] by auto
  have "farm_inv (pm_farm (shuffle_if_needed d (reset_work r)))"
    using pm_inv_parts(3) [OF assms(1)] r by (simp add: shuffle_if_needed_def shuffle_inv)
  then show ?thesis
    using start_or_resume_mining [of "arm_failover (shuffle_if_needed d (reset_work r))" d] r
    by (simp add: q) (simp add: reset_work_def wp_valid_def h256_fast_eq_def)
qed

lemma pause_voids: "miner_inv m \<Longrightarrow> miner_paused (miner_pause f m) \<and> \<not> wp_valid (mi_work (miner_pause f m))"
  by (simp add: miner_pause_def miner_paused_def kick_miner_def)

text \<open>
  C10: Mining follows the connection. When the client reports a connection, the farm is mining
  afterwards, no miner is held back by a pause of the farm, the work of the previous pool is void
  and the API may change the connection again. When the client reports the end of a connection and
  the manager is not stopping, every miner is paused and holds no work, and a new attempt is posted.
\<close>

theorem mining_follows_connection:
  assumes "reach pm_init (pm_step env) p"
  shows "(onConnected d p = (None, q) \<longrightarrow>
      fm_isMining (pm_farm q) \<and> list_all (\<lambda>m. \<not> pauseTest PauseDueToFarmPaused m) (fm_miners (pm_farm q)) \<and>
      \<not> wp_valid (pm_currentWp q) \<and> pm_connectionAttempt q = 0 \<and> \<not> pm_async_pending q) \<and>
    (onDisconnected p = (None, q) \<and> \<not> pm_stopping p \<longrightarrow>
      list_all (\<lambda>m. miner_paused m \<and> \<not> wp_valid (mi_work m)) (fm_miners (pm_farm q)) \<and>
      length (fm_miners (pm_farm q)) = length (fm_miners (pm_farm p)) \<and>
      pm_async_pending q \<and> last (pm_calls q) = Post_rotateConnect)"
proof -
  have inv: "pm_inv p" by (rule manager.reach_inv [OF assms])
  then have "list_all miner_inv (fm_miners (pm_farm p))"
    by (auto simp: pm_inv_def farm_inv_def list_all_iff miner_ok_def)
  then have "list_all (\<lambda>m. miner_paused m \<and> \<not> wp_valid (mi_work m)) (map (miner_pause PauseDueToFarmPaused) (fm_miners (pm_farm p)))"
    by (auto simp: list_all_iff pause_voids)
  with connected_mines [OF inv] show ?thesis
    by (auto simp: onDisconnected_def Let_def farm_pause_def call_def split: option.splits)
qed

lemma sample_connecting:
  "\<exists>c. pm_client (snd (rotateConnect (sample_manager [0, 1] 3))) = Some c \<and> pc_conn c = Some 0"
proof -
  have "ready [0, 1] 3 0 0 (sample_manager [0, 1] 3)" using sample_ready [of "[0, 1]" 3] by simp
  from rotateConnect_begins [OF this] show ?thesis by (auto simp: trying_def)
qed

lemma sample_connecting_reach:
  "reach pm_init (pm_step env) (snd (rotateConnect (sample_manager [0, 1] 3)))"
proof -
  have "reach pm_init (pm_step env) (sample_manager [0, 1] 3)" by (rule reach_init) (simp add: sample_init)
  then show ?thesis by (rule reach_step) (rule ps_rotate)
qed

theorem mining_follows_connection_witness:
  "\<exists>q. onConnected \<lparr>dr_now = 5, dr_random = 9, dr_vm = True\<rparr> (snd (rotateConnect (sample_manager [0, 1] 3))) = (None, q) \<and>
     fm_isMining (pm_farm q) \<and> \<not> pm_async_pending q"
proof -
  obtain q where q: "onConnected \<lparr>dr_now = 5, dr_random = 9, dr_vm = True\<rparr> (snd (rotateConnect (sample_manager [0, 1] 3))) = (None, q)"
    using sample_connecting by (auto simp: onConnected_def with_conn_def Let_def)
  from mining_follows_connection [OF sample_connecting_reach, of _ q] q show ?thesis by auto
qed

section \<open>From the pool to the miners\<close>

definition epoch_of_work :: "'c ethash_lib \<Rightarrow> PoolManager \<Rightarrow> WorkPackage \<Rightarrow> int" where
  "epoch_of_work lib p wp =
     (if wp_epoch (pm_currentWp p) = - 1 \<or>
         (\<exists>c i. pm_client p = Some c \<and> pc_conn c = Some i \<and> is_new_epoch (pm_uris p ! i) (pm_currentWp p) wp)
      then work_epoch lib wp else wp_epoch (pm_currentWp p))"

lemma deliver_work_None:
  assumes "deliver_work env d b p = (None, q)"
  shows "pm_currentWp q = pm_currentWp p \<and>
    farm_setWork (en_ethash env) (dr_random d) (pm_currentWp p) (pm_farm p) = (None, pm_farm q)"
  using assms by (auto simp: deliver_work_def split: option.splits prod.splits)

lemma take_work_simps [simp]:
  "pm_farm (take_work lib b wp p) = pm_farm p"
  "pm_currentWp (take_work lib b wp p) = wp\<lparr>wp_epoch := (if b then work_epoch lib wp else wp_epoch (pm_currentWp p))\<rparr>"
  by (simp_all add: take_work_def)

lemma onWorkReceived_setWork:
  assumes "onWorkReceived env d wp p = (None, q)" and "wp_valid wp"
  shows "pm_currentWp q = wp\<lparr>wp_epoch := epoch_of_work (en_ethash env) p wp\<rparr>"
    and "farm_setWork (en_ethash env) (dr_random d) (wp\<lparr>wp_epoch := epoch_of_work (en_ethash env) p wp\<rparr>) (pm_farm p) = (None, pm_farm q)"
proof -
  define b where "b = (wp_epoch (pm_currentWp p) = - 1 \<or>
    (\<exists>c i. pm_client p = Some c \<and> pc_conn c = Some i \<and> is_new_epoch (pm_uris p ! i) (pm_currentWp p) wp))"
  have b: "(if b then work_epoch (en_ethash env) wp else wp_epoch (pm_currentWp p)) = epoch_of_work (en_ethash env) p wp"
    by (simp add: b_def epoch_of_work_def)
  have del: "deliver_work env d (wp_boundary wp \<noteq> wp_boundary (pm_currentWp p) \<or> b) (take_work (en_ethash env) b wp p) = (None, q)"
    using assms
    by (simp add: onWorkReceived_def with_conn_def Let_def b_def split: if_splits option.splits)
  from deliver_work_None [OF del] b
  show "pm_currentWp q = wp\<lparr>wp_epoch := epoch_of_work (en_ethash env) p wp\<rparr>"
    and "farm_setWork (en_ethash env) (dr_random d) (wp\<lparr>wp_epoch := epoch_of_work (en_ethash env) p wp\<rparr>) (pm_farm p) = (None, pm_farm q)"
    by simp_all
qed

text \<open>
  C3: Work of the pool reaches the miners. When the handler of a valid work package returns, the
  manager holds this package with its epoch (taken from the package, its block or its seed when
  the epoch is new, unchanged otherwise), and every miner that is not paused has the same package,
  with the start nonce of its own segment.
\<close>

theorem work_reaches_miners:
  assumes "onWorkReceived env d wp p = (None, q)" and "wp_valid wp"
    and "i < length (fm_miners (pm_farm p))" and "\<not> miner_paused (fm_miners (pm_farm p) ! i)"
  shows "let w = wp\<lparr>wp_epoch := epoch_of_work (en_ethash env) p wp\<rparr>; f = pm_farm q in
    pm_currentWp q = w \<and>
    mi_work (fm_miners f ! i) =
      w\<lparr>wp_startNonce := work_start (dr_random d) w (pm_farm p) + push_bit (unat (fm_nonce_segment_with f)) (of_nat i)\<rparr>"
  using onWorkReceived_setWork [OF assms(1,2)] farm_setWork_miner_work [OF onWorkReceived_setWork(2) [OF assms(1,2)] assms(3,4)]
  by (simp add: Let_def)

text \<open>
  A job whose boundary is zero. The log line divides by the boundary: the handler throws and
  the farm keeps its previous work.
\<close>

theorem zero_boundary_throws:
  assumes "mp_laws (en_mp env)" and "wp_valid wp" and "wp_boundary wp = h256_zero"
    and "wp_epoch (pm_currentWp p) = - 1 \<or> client_ok p \<and> Option.bind (pm_client p) pc_conn \<noteq> None"
    and "wp_boundary (pm_currentWp p) \<noteq> h256_zero \<or> wp_epoch (pm_currentWp p) = - 1"
  shows "fst (onWorkReceived env d wp p) = Some (RuntimeError ''Division by zero.'') \<and>
    pm_farm (snd (onWorkReceived env d wp p)) = pm_farm p"
proof -
  have "h_hex h256_zero Add = ''0x'' @ replicate 64 (CHR ''0'')" by code_simp
  moreover have "is_hexdigit (CHR ''0'')" by code_simp
  then have "mp_of_string (en_mp env) (''0x'' @ replicate 64 (CHR ''0'')) = Inr 0"
    using assms(1) hexnum_zeros [of 64] unfolding mp_laws_def by (auto simp: list_all_iff)
  moreover have "list_all is_hexdigit (replicate 4 (CHR ''f'') @ replicate 60 (CHR ''0''))" by code_simp
  then have "\<exists>v. mp_of_string (en_mp env) (''0x'' @ replicate 4 (CHR ''f'') @ replicate 60 (CHR ''0'')) = Inr (int v)"
    using assms(1) unfolding mp_laws_def by (metis append_is_Nil_conv replicate_empty zero_neq_numeral)
  moreover have "''0x'' @ replicate 4 (CHR ''f'') @ replicate 60 (CHR ''0'') =
      ''0xffff000000000000000000000000000000000000000000000000000000000000''" by code_simp
  moreover have "mp_div (en_mp env) (int v) 0 = Inl (RuntimeError ''Division by zero.'')" for v
    using assms(1) unfolding mp_laws_def by simp
  ultimately have div: "getHashesToTarget (en_mp env) (h_hex h256_zero Add) = Inl (RuntimeError ''Division by zero.'')"
    by (auto simp: getHashesToTarget_def)
  have valid: "wp_valid (wp\<lparr>wp_epoch := e\<rparr>)" for e using assms(2) by (simp add: wp_valid_def)
  have "deliver_work env d True (take_work (en_ethash env) b wp p) =
      (Some (RuntimeError ''Division by zero.''), take_work (en_ethash env) b wp p)" for b
    using div valid assms(3) by (simp add: deliver_work_def showMiningAt_def)
  then show ?thesis
    using assms(2-5)
    by (auto simp: onWorkReceived_def with_conn_def Let_def split: option.splits)
qed

definition sample_env :: "unit pm_env" where
  "sample_env = \<lparr>en_ethash = sample_lib, en_mp = sample_mp, en_rnd = id, en_fmt = (\<lambda>_ _. ''1.00''),
     en_boost = sample_boost, en_iequals = (=)\<rparr>"

definition sample_mining :: PoolManager where
  "sample_mining = (snd (rotateConnect (sample_manager [0, 1] 3)))
     \<lparr>pm_farm := sample_farm, pm_currentWp := sample_work\<lparr>wp_epoch := 3, wp_header := h256_zero\<rparr>\<rparr>"

lemma sample_uri_mode:
  "ur_stratumMode (pm_uris (snd (rotateConnect (sample_manager [0, 1] 3))) ! 0) = 999"
  by (simp add: rotateConnect_def client_connected_def sample_manager_def new_PoolManager_def wrap_index_def
      discard_or_rotate_def Let_def sample_uri_def empty_URI_def default_PoolSettings_def begin_connect_def
      setConnection_def upd_uri_def Responds_def call_def)

definition sample_draw :: draw where
  "sample_draw = \<lparr>dr_now = 5, dr_random = 9, dr_vm = True\<rparr>"

lemma sample_onWorkReceived:
  "\<exists>q. onWorkReceived sample_env sample_draw sample_work sample_mining = (None, q)"
  "epoch_of_work (en_ethash sample_env) sample_mining sample_work = 3"
proof -
  let ?w = "sample_work\<lparr>wp_epoch := 3\<rparr>"
  obtain c where c: "pm_client sample_mining = Some c" "pc_conn c = Some 0"
    using sample_connecting by (auto simp: sample_mining_def)
  have valid: "wp_valid sample_work" by code_simp
  have old: "\<not> is_new_epoch (pm_uris sample_mining ! 0) (pm_currentWp sample_mining) sample_work"
    using sample_uri_mode by (simp add: is_new_epoch_def sample_mining_def sample_work_def new_WorkPackage_def)
  have "work_width ?w sample_farm = Inr 55"
    using sample_width by (simp add: work_width_def sample_work_def sample_farm_length)
  then have "fst (farm_setWork sample_lib 9 ?w sample_farm) = None" by (rule farm_setWork_ok) simp
  then obtain f where "farm_setWork sample_lib 9 ?w sample_farm = (None, f)" by (metis prod.collapse)
  moreover have cur: "wp_epoch (pm_currentWp sample_mining) = 3" "wp_boundary sample_work = wp_boundary (pm_currentWp sample_mining)"
    "pm_farm sample_mining = sample_farm"
    by (simp_all add: sample_mining_def)
  moreover have env: "en_ethash sample_env = sample_lib" by (simp add: sample_env_def)
  ultimately show "\<exists>q. onWorkReceived sample_env sample_draw sample_work sample_mining = (None, q)"
    using c valid old by (simp add: onWorkReceived_def with_conn_def Let_def deliver_work_def sample_draw_def)
  show "epoch_of_work (en_ethash sample_env) sample_mining sample_work = 3"
    using c old cur by (simp add: epoch_of_work_def)
qed

theorem work_reaches_miners_witness:
  "\<exists>q. onWorkReceived sample_env sample_draw sample_work sample_mining = (None, q) \<and>
     mi_work (fm_miners (pm_farm q) ! 0) = sample_work\<lparr>wp_epoch := 3\<rparr>"
proof -
  obtain q where q: "onWorkReceived sample_env sample_draw sample_work sample_mining = (None, q)"
    using sample_onWorkReceived(1) by blast
  have valid: "wp_valid sample_work" by code_simp
  have cur: "pm_farm sample_mining = sample_farm" by (simp add: sample_mining_def)
  let ?w = "sample_work\<lparr>wp_epoch := 3\<rparr>"
  have "work_start 9 ?w sample_farm = wp_startNonce ?w" by (simp add: work_start_def sample_work_def)
  moreover have "?w\<lparr>wp_startNonce := wp_startNonce ?w\<rparr> = ?w" by simp
  ultimately show ?thesis
    using work_reaches_miners [OF q valid, of 0] q sample_farm_live(1) unfolding cur sample_onWorkReceived(2)
    by (auto simp: sample_farm_length Let_def sample_draw_def)
qed

theorem zero_boundary_throws_witness:
  "fst (onWorkReceived sample_env \<lparr>dr_now = 5, dr_random = 9, dr_vm = True\<rparr> (sample_work\<lparr>wp_boundary := h256_zero\<rparr>)
     (sample_manager [0, 1] 3)) = Some (RuntimeError ''Division by zero.'')"
proof -
  have "wp_valid (sample_work\<lparr>wp_boundary := h256_zero\<rparr>)" by code_simp
  moreover have "wp_epoch (pm_currentWp (sample_manager [0, 1] 3)) = - 1"
    by (simp add: sample_manager_def new_PoolManager_def new_WorkPackage_def)
  ultimately show ?thesis
    using zero_boundary_throws [of sample_env "sample_work\<lparr>wp_boundary := h256_zero\<rparr>" "sample_manager [0, 1] 3"]
    by (simp add: sample_env_def sample_mp_laws)
qed

section \<open>Stopping\<close>

text \<open>
  Stopping a running manager. With a connected client, \<open>stop\<close> asks it to disconnect, and
  whatever the client does until it reports the end of the connection, that report ends the
  wait: the miners are stopped, the manager no longer runs and the client is released. Without a
  connected client the miners and the timers are stopped at once, but \<open>isRunning\<close> stays true.
\<close>

theorem stop_completes:
  assumes "pm_running p"
  shows "if client_connected p
    then last (pm_calls (pm_stop p)) = Cl_disconnect \<and>
      (\<exists>q. onDisconnected ((pm_stop p)\<lparr>pm_client := Some c'\<rparr>) = (None, q) \<and> \<not> pm_running q \<and>
         \<not> fm_isMining (pm_farm q) \<and> pm_client (pm_stop_finish q) = None)
    else \<not> fm_isMining (pm_farm (pm_stop p)) \<and> pm_failovertimer (pm_stop p) = None \<and>
      pm_submithrtimer (pm_stop p) = None \<and> pm_reconnecttimer (pm_stop p) = None \<and> pm_running (pm_stop p)"
  using assms
  by (auto simp: pm_stop_def Let_def client_connected_def call_def onDisconnected_def shut_down_miners_def
      farm_stop_def pm_stop_finish_def)

theorem stop_completes_witness:
  "pm_running (pm_stop ((sample_manager [0, 1] 3)\<lparr>pm_running := True\<rparr>)) \<and>
   \<not> fm_isMining (pm_farm (pm_stop ((sample_manager [0, 1] 3)\<lparr>pm_running := True\<rparr>)))"
  using stop_completes [of "(sample_manager [0, 1] 3)\<lparr>pm_running := True\<rparr>"]
  by (simp add: sample_manager_def new_PoolManager_def client_connected_def)

end
