(* ===== verification/ClientContract.thy ===== *)
theory ClientContract
  imports PoolManager
begin

text \<open>
  What the pool manager relies on in its clients. A client's events carry work packages with full
  hashes and name miners that exist; the interface \<open>pool_client\<close> states this for a client given by
  its steps, and shows that the manager can handle whatever such a client reports. The stratum,
  getwork and simulation clients are interpreted in their own theories.
\<close>

definition event_ok :: "nat \<Rightarrow> client_event \<Rightarrow> bool" where
  "event_ok n ev = (case ev of
     OnWorkReceived wp \<Rightarrow> wp_wf wp
   | OnSolutionAccepted _ i _ \<Rightarrow> unat i < n
   | OnSolutionRejected _ i \<Rightarrow> unat i < n
   | _ \<Rightarrow> True)"

lemma event_ok_simps [simp]:
  "event_ok n OnConnected" "event_ok n OnDisconnected"
  "event_ok n (OnWorkReceived wp) = wp_wf wp"
  "event_ok n (OnSolutionAccepted t i b) = (unat i < n)"
  "event_ok n (OnSolutionRejected t i) = (unat i < n)"
  by (simp_all add: event_ok_def)

text \<open>The handler the manager has installed for an event.\<close>

definition handle_event :: "'c pm_env \<Rightarrow> draw \<Rightarrow> client_event \<Rightarrow> PoolManager \<Rightarrow> exn option \<times> PoolManager" where
  "handle_event env d ev p = (case ev of
     OnConnected \<Rightarrow> onConnected d p
   | OnDisconnected \<Rightarrow> onDisconnected p
   | OnWorkReceived wp \<Rightarrow> onWorkReceived env d wp p
   | OnSolutionAccepted _ i _ \<Rightarrow> onSolutionAccepted d i p
   | OnSolutionRejected _ i \<Rightarrow> onSolutionRejected d i p)"

lemma handle_event_step:
  assumes "event_ok n ev" and "n \<le> length (tm_miners (fm_telemetry (pm_farm p)))"
  shows "pm_step env p (snd (handle_event env d ev p))"
  using assms
  by (cases ev) (auto simp: handle_event_def intro: pm_step.intros)

text \<open>Responses are accounted: the handlers for solutions do not throw.\<close>

lemma account_event:
  assumes "event_ok n ev" and "n \<le> length (tm_miners (fm_telemetry (pm_farm p)))"
    and "ev = OnSolutionAccepted t i b \<or> ev = OnSolutionRejected t i"
  shows "fst (handle_event env d ev p) = None"
  using assms accountSolution_ok [of i "pm_farm p"]
  by (auto simp: handle_event_def onSolutionAccepted_def onSolutionRejected_def account_response_def split: prod.splits)

locale pool_client =
  fixes init :: "nat \<Rightarrow> 's \<Rightarrow> bool"
    and step :: "nat \<Rightarrow> 's \<Rightarrow> 's \<Rightarrow> bool"
    and events :: "'s \<Rightarrow> client_event list"
    and cinv :: "nat \<Rightarrow> 's \<Rightarrow> bool"
  assumes init_ok: "init n s \<Longrightarrow> cinv n s"
    and step_ok: "cinv n s \<Longrightarrow> step n s t \<Longrightarrow> cinv n t"
    and events_ok: "cinv n s \<Longrightarrow> ev \<in> set (events s) \<Longrightarrow> event_ok n ev"
begin

lemma client_inv: "reach (init n) (step n) s \<Longrightarrow> cinv n s"
  by (induction rule: reach.induct) (blast intro: init_ok step_ok)+

text \<open>An event of a reachable client is a step of a manager whose farm has the client's miners.\<close>

lemma client_event_step:
  assumes "reach (init n) (step n) s" and "ev \<in> set (events s)"
    and "n \<le> length (tm_miners (fm_telemetry (pm_farm p)))"
  shows "pm_step env p (snd (handle_event env d ev p))"
  using handle_event_step [OF events_ok [OF client_inv [OF assms(1)] assms(2)] assms(3)] .

lemma client_event_accounted:
  assumes "reach (init n) (step n) s" and "ev \<in> set (events s)"
    and "n \<le> length (tm_miners (fm_telemetry (pm_farm p)))"
    and "ev = OnSolutionAccepted t i b \<or> ev = OnSolutionRejected t i"
  shows "fst (handle_event env d ev p) = None"
  using account_event [OF events_ok [OF client_inv [OF assms(1)] assms(2)] assms(3,4)] .

end

end
