(* ===== verification/Stratum.thy ===== *)
theory Stratum
  imports PoolClient Display Json
begin

text \<open>
  The stratum client (\<open>src/libpoolprotocols/stratum/XcbStratumClient.h\<close>,
  \<open>src/libpoolprotocols/stratum/XcbStratumClient.cpp\<close>), first part: its members, the sockets, the
  queue of awaited responses, sending, and the life cycle of a connection. Handlers run one after
  the other on the client's strand and are functions on its record. Asynchronous operations and
  posted handlers are appended to \<open>st_ops\<close>; calls of the manager's handlers to \<open>st_events\<close>.
  Operating system and TLS calls only appear through the state of the sockets. Reads and writes are
  started by handlers that have used the connection object before, so that their choice between the
  two sockets is not modelled.
\<close>

section \<open>State\<close>

text \<open>\<open>m_socket\<close> points to the plain socket or to the lowest layer of the secure one.\<close>

datatype sock_ref = Secure | Plain

datatype st_op =
    Async_resolve string u16
  | Async_connect string
  | Async_read
  | Async_write string
  | Async_shutdown
  | Post_start_connect
  | Post_disconnect
  | Post_disconnect_finalize
  | Post_processResponse jout

text \<open>
  A socket object is \<open>Some b\<close>, with \<open>b\<close> telling whether it is open. \<open>st_timer\<close> says whether the
  work loop timer will elapse (it is \<open>False\<close> for an infinite wait as well). \<open>st_max_id\<close>, the member
  \<open>m_solution_submitted_max_id\<close>, is \<open>None\<close> until it is first assigned. \<open>st_uris\<close> is the store of the
  URI objects.
\<close>

record Stratum = PoolClient +
  st_disconnecting :: bool
  st_connecting :: bool
  st_authpending :: bool
  st_worktimeout :: int
  st_responsetimeout :: int
  st_current :: WorkPackage
  st_current_timestamp :: nat
  st_socket :: "sock_ref option"
  st_securesocket :: "bool option"
  st_nonsecuresocket :: "bool option"
  st_message :: string
  st_newjobprocessed :: bool
  st_sendBuffer :: string
  st_timer :: bool
  st_pleas_count :: nat
  st_plea_older :: nat
  st_plea_times :: "nat list"
  st_txPending :: bool
  st_txQueue :: "string list"
  st_endpoints :: "string list"
  st_max_id :: "u32 option"
  st_uris :: "URI list"
  st_ops :: "st_op list"
  st_events :: "client_event list"

definition op :: "st_op \<Rightarrow> Stratum \<Rightarrow> Stratum" where
  "op x s = s\<lparr>st_ops := st_ops s @ [x]\<rparr>"

definition event :: "client_event \<Rightarrow> Stratum \<Rightarrow> Stratum" where
  "event e s = s\<lparr>st_events := st_events s @ [e]\<rparr>"

text \<open>\<open>m_conn->...\<close>: undefined when there is no connection object.\<close>

definition with_uri :: "Stratum \<Rightarrow> (URI \<Rightarrow> exn option \<times> Stratum) \<Rightarrow> exn option \<times> Stratum" where
  "with_uri s k = (case pc_conn s of None \<Rightarrow> (Some UndefinedBehaviour, s) | Some i \<Rightarrow> k (st_uris s ! i))"

definition conn_upd :: "(URI \<Rightarrow> URI) \<Rightarrow> Stratum \<Rightarrow> Stratum" where
  "conn_upd f s = (case pc_conn s of None \<Rightarrow> s | Some i \<Rightarrow> s\<lparr>st_uris := upd_uri f i (st_uris s)\<rparr>)"

text \<open>\<open>m_session->...\<close>.\<close>

definition with_session :: "Stratum \<Rightarrow> (Session \<Rightarrow> exn option \<times> Stratum) \<Rightarrow> exn option \<times> Stratum" where
  "with_session s k = (case pc_session s of None \<Rightarrow> (Some UndefinedBehaviour, s) | Some x \<Rightarrow> k x)"

definition session_upd :: "(Session \<Rightarrow> Session) \<Rightarrow> Stratum \<Rightarrow> Stratum" where
  "session_upd f s = s\<lparr>pc_session := map_option f (pc_session s)\<rparr>"

definition isPendingState :: "Stratum \<Rightarrow> bool" where
  "isPendingState s = (st_connecting s \<or> st_disconnecting s)"

definition st_isConnected :: "Stratum \<Rightarrow> bool" where
  "st_isConnected s = (pc_connected s \<and> \<not> isPendingState s)"

definition socket_open :: "Stratum \<Rightarrow> bool" where
  "socket_open s = (case st_socket s of
     None \<Rightarrow> False | Some Secure \<Rightarrow> st_securesocket s = Some True | Some Plain \<Rightarrow> st_nonsecuresocket s = Some True)"

definition set_socket_open :: "bool \<Rightarrow> Stratum \<Rightarrow> Stratum" where
  "set_socket_open b s = (case st_socket s of
     None \<Rightarrow> s | Some Secure \<Rightarrow> s\<lparr>st_securesocket := Some b\<rparr> | Some Plain \<Rightarrow> s\<lparr>st_nonsecuresocket := Some b\<rparr>)"

section \<open>Awaited responses\<close>

definition enqueue_response_plea :: "nat \<Rightarrow> Stratum \<Rightarrow> Stratum" where
  "enqueue_response_plea now s =
     s\<lparr>st_pleas_count := st_pleas_count s + 1,
       st_plea_older := (if st_pleas_count s = 0 then now else st_plea_older s),
       st_plea_times := st_plea_times s @ [now]\<rparr>"

definition dequeue_response_plea :: "nat \<Rightarrow> Stratum \<Rightarrow> nat \<times> Stratum" where
  "dequeue_response_plea now s =
     (let delay = now - st_plea_older s;
          s1 = (case st_plea_times s of [] \<Rightarrow> s | t # ts \<Rightarrow> s\<lparr>st_plea_times := ts, st_plea_older := t\<rparr>)
      in if 0 < st_pleas_count s1 then (delay, s1\<lparr>st_pleas_count := st_pleas_count s1 - 1\<rparr>) else (0, s1))"

definition clear_response_pleas :: "nat \<Rightarrow> Stratum \<Rightarrow> Stratum" where
  "clear_response_pleas now s = s\<lparr>st_pleas_count := 0, st_plea_times := [], st_plea_older := now\<rparr>"

section \<open>Sending\<close>

definition drop_output :: "Stratum \<Rightarrow> Stratum" where
  "drop_output s = s\<lparr>st_sendBuffer := [], st_txQueue := [], st_txPending := False\<rparr>"

definition sendSocketData :: "Stratum \<Rightarrow> Stratum" where
  "sendSocketData s =
     (if \<not> st_isConnected s \<or> st_txQueue s = [] then drop_output s
      else let buf = st_sendBuffer s @ concat (map (\<lambda>l. l @ [CHR 0x0A]) (st_txQueue s))
           in op (Async_write buf) (s\<lparr>st_sendBuffer := buf, st_txQueue := []\<rparr>))"

definition send :: "'j jsonlib \<Rightarrow> jout \<Rightarrow> Stratum \<Rightarrow> Stratum" where
  "send js jReq s =
     (let s1 = s\<lparr>st_txQueue := st_txQueue s @ [js_write js jReq]\<rparr>
      in if st_txPending s1 then s1 else sendSocketData (s1\<lparr>st_txPending := True\<rparr>))"

text \<open>
  Completion of a write. \<open>err\<close> is \<open>None\<close> on success, otherwise whether it is the TLS shutdown error;
  a successful write has consumed the buffer.
\<close>

definition onSendSocketDataCompleted :: "nat \<Rightarrow> bool option \<Rightarrow> Stratum \<Rightarrow> exn option \<times> Stratum" where
  "onSendSocketDataCompleted now err s =
     (case err of
        Some ssl_shutdown \<Rightarrow>
          (let s1 = drop_output s;
               s2 = (if ssl_shutdown then op Post_disconnect s1 else s1)
           in (None, if st_isConnected s2 then op Post_disconnect s2 else s2))
      | None \<Rightarrow>
          (let s1 = s\<lparr>st_sendBuffer := []\<rparr>;
               k = (\<lambda>s2. (None, if st_txQueue s2 = [] then s2\<lparr>st_txPending := False\<rparr> else sendSocketData s2))
           in if pc_session s1 = None then k s1
              else with_uri s1 (\<lambda>u.
                k (if ur_stratumMode u = 3 then session_upd (\<lambda>x. x\<lparr>se_lastTxStamp := now\<rparr>) s1 else s1))))"

section \<open>Connecting\<close>

definition new_Stratum :: "int \<Rightarrow> int \<Rightarrow> nat \<Rightarrow> URI list \<Rightarrow> Stratum" where
  "new_Stratum worktimeout responsetimeout now uris =
     PoolClient.extend new_PoolClient
       \<lparr>st_disconnecting = False, st_connecting = False, st_authpending = False,
        st_worktimeout = worktimeout, st_responsetimeout = responsetimeout,
        st_current = new_WorkPackage, st_current_timestamp = 0, st_socket = None,
        st_securesocket = None, st_nonsecuresocket = None, st_message = [], st_newjobprocessed = False,
        st_sendBuffer = [], st_timer = False, st_pleas_count = 0, st_plea_older = now, st_plea_times = [],
        st_txPending = False, st_txQueue = [], st_endpoints = [], st_max_id = None, st_uris = uris,
        st_ops = [], st_events = []\<rparr>"

definition init_socket :: "URI \<Rightarrow> Stratum \<Rightarrow> Stratum" where
  "init_socket u s =
     (if SecLevel u \<noteq> SL_NONE then s\<lparr>st_securesocket := Some False, st_socket := Some Secure\<rparr>
      else s\<lparr>st_nonsecuresocket := Some False, st_socket := Some Plain\<rparr>)"

definition init_if_needed :: "URI \<Rightarrow> Stratum \<Rightarrow> Stratum" where
  "init_if_needed u s = (if st_socket s = None then init_socket u s else s)"

text \<open>\<open>ep\<close> is the text of \<open>endpoint(address::from_string(host), port)\<close>, which may throw.\<close>

definition connect :: "(string \<Rightarrow> u16 \<Rightarrow> exn + string) \<Rightarrow> Stratum \<Rightarrow> exn option \<times> Stratum" where
  "connect ep s =
     (if st_connecting s then (None, s)
      else let s1 = s\<lparr>st_timer := True, st_authpending := False\<rparr> in
        with_uri s1 (\<lambda>u.
          let s2 = (init_if_needed u s1)\<lparr>st_endpoints := [], pc_endpoint := ''0.0.0.0:0''\<rparr>
          in if ur_hostType u = HT_Dns \<or> ur_hostType u = HT_Basic
             then (None, op (Async_resolve (ur_host u) (ur_port u)) s2)
             else withv (ep (ur_host u) (ur_port u)) s2 (\<lambda>e.
               (None, op Post_start_connect (s2\<lparr>st_endpoints := [e]\<rparr>)))))"

text \<open>The autodetection step of \<open>disconnect_finalize\<close>: \<open>True\<close> when a lower stratum mode is tried.\<close>

definition autodetect :: "URI \<Rightarrow> Stratum \<Rightarrow> bool \<times> Stratum" where
  "autodetect u s =
     (if \<not> ur_unrecoverable u \<and> \<not> ur_stratumModeConfirmed u \<and> ur_responds u
      then if 0 < ur_stratumMode u
           then (True, op Post_start_connect (conn_upd (SetStratumMode1 (ur_stratumMode u - 1)) s))
           else (False, conn_upd MarkUnrecoverable s)
      else (False, s))"

definition disconnect_finalize :: "nat \<Rightarrow> Stratum \<Rightarrow> exn option \<times> Stratum" where
  "disconnect_finalize now s =
     (let s1 = s\<lparr>st_securesocket := (if st_securesocket s = Some True then Some False else st_securesocket s),
                 st_socket := None, st_nonsecuresocket := None\<rparr>
      in with_uri s1 (\<lambda>u0.
        let s2 = (case pc_session s1 of
                    Some x \<Rightarrow> conn_upd (addDuration (session_duration now x)) s1
                  | None \<Rightarrow> s1)\<lparr>pc_session := None, st_authpending := False, st_disconnecting := False,
                                st_txPending := False\<rparr>;
            (again, s3) = autodetect u0 s2
        in if again then (None, s3)
           else (None, event OnDisconnected ((clear_response_pleas now s3)\<lparr>st_max_id := Some 0, st_timer := False\<rparr>))))"

text \<open>
  \<open>m_socket->cancel()\<close> throws when there is a socket object that has not been opened, or has been
  closed by the timer; the flag \<open>m_disconnecting\<close> is set by then.
\<close>

definition disconnect :: "nat \<Rightarrow> Stratum \<Rightarrow> exn option \<times> Stratum" where
  "disconnect now s =
     (if st_disconnecting s then (None, s)
      else let s1 = s\<lparr>st_disconnecting := True, pc_connected := False\<rparr> in
        if st_socket s1 \<noteq> None \<and> \<not> socket_open s1
        then (Some (RuntimeError ''cancel: Bad file descriptor''), s1)
        else if socket_open s1
        then with_uri s1 (\<lambda>u.
          if SecLevel u \<noteq> SL_NONE
          then (None, enqueue_response_plea now (op Async_shutdown s1))
          else disconnect_finalize now (set_socket_open False s1))
        else disconnect_finalize now s1)"

definition onSSLShutdownCompleted :: "nat \<Rightarrow> Stratum \<Rightarrow> Stratum" where
  "onSSLShutdownCompleted now s = op Post_disconnect_finalize (clear_response_pleas now s)"

text \<open>\<open>eps\<close> are the addresses the resolver found, \<open>None\<close> when it failed.\<close>

definition resolve_handler :: "nat \<Rightarrow> string list option \<Rightarrow> Stratum \<Rightarrow> exn option \<times> Stratum" where
  "resolve_handler now eps s =
     (case eps of
        Some es \<Rightarrow> (None, op Post_start_connect (s\<lparr>st_endpoints := st_endpoints s @ es\<rparr>))
      | None \<Rightarrow> disconnect_finalize now (s\<lparr>st_connecting := False\<rparr>))"

definition start_connect :: "nat \<Rightarrow> Stratum \<Rightarrow> exn option \<times> Stratum" where
  "start_connect now s =
     (if st_connecting s then (None, s)
      else case st_endpoints s of
             [] \<Rightarrow> disconnect_finalize now (s\<lparr>st_connecting := False\<rparr>)
           | e # es \<Rightarrow>
               with_uri s (\<lambda>u.
                 let s1 = init_if_needed u (s\<lparr>st_connecting := True, pc_endpoint := e\<rparr>);
                     s2 = (enqueue_response_plea now (clear_response_pleas now s1))\<lparr>st_max_id := Some 0\<rparr>
                 in (None, op (Async_connect e) (set_socket_open True s2))))"

text \<open>
  The libraries the protocol uses; \<open>sv_version\<close> is the name and version of the program that the build
  generates, \<open>sv_trim\<close> boost's \<open>trim\<close>.
\<close>

record 'j st_env =
  sv_js :: "'j jsonlib"
  sv_version :: string
  sv_mp :: multiprecision
  sv_boost :: boost_lib
  sv_rnd :: "real \<Rightarrow> real"
  sv_trim :: "string \<Rightarrow> string"

section \<open>The work loop timer\<close>

definition noop_request :: jout where
  "noop_request = JObj [(''id'', JInt 7), (''method'', JStr ''mining.noop'')]"

definition fake_error_response :: jout where
  "fake_error_response = JObj [(''id'', JInt 1), (''result'', JNull), (''error'', JBool True)]"

definition keep_session_alive :: "'j jsonlib \<Rightarrow> nat \<Rightarrow> URI \<Rightarrow> Stratum \<Rightarrow> Stratum" where
  "keep_session_alive js now u s =
     (case pc_session s of
        Some x \<Rightarrow> (if ur_stratumMode u = 3 \<and> int ((now - se_lastTxStamp x) div 1000) > sint (se_timeout x) - 5
                   then send js noop_request s else s)
      | None \<Rightarrow> s)"

text \<open>Removing the endpoint in use and disconnecting; \<open>pop\<close> of an empty queue is undefined.\<close>

definition drop_endpoint :: "nat \<Rightarrow> Stratum \<Rightarrow> exn option \<times> Stratum" where
  "drop_endpoint now s =
     (case st_endpoints s of
        [] \<Rightarrow> (Some UndefinedBehaviour, s)
      | e # es \<Rightarrow> (None, op Post_disconnect (clear_response_pleas now (s\<lparr>st_endpoints := es\<rparr>))))"

text \<open>Checks while connected: an overdue response, or no new work for too long.\<close>

definition check_connected :: "nat \<Rightarrow> URI \<Rightarrow> Stratum \<Rightarrow> exn option \<times> Stratum" where
  "check_connected now u s =
     (if st_isConnected s
      then if int (now - st_plea_older s) \<ge> st_responsetimeout s * 1000
           then if \<not> ur_stratumModeConfirmed u \<and> \<not> ur_unrecoverable u
                then (None, op (Post_processResponse fake_error_response) (clear_response_pleas now s))
                else drop_endpoint now s
           else if pc_session s \<noteq> None \<and> int ((now - st_current_timestamp s) div 1000) > st_worktimeout s
           then drop_endpoint now s
           else (None, s)
      else (None, s))"

text \<open>
  The check in a pending state: \<open>Some r\<close> when the handler returns after closing the socket. Closing
  a socket that does not exist is undefined.
\<close>

definition check_pending :: "nat \<Rightarrow> URI \<Rightarrow> Stratum \<Rightarrow> (exn option \<times> Stratum) option" where
  "check_pending now u s =
     (if isPendingState s \<and> st_responsetimeout s * 1000 \<ge> int (now - st_plea_older s)
      then if st_connecting s
           then Some (if st_socket s = None then (Some UndefinedBehaviour, s) else (None, set_socket_open False s))
           else if st_disconnecting s \<and> SecLevel u \<noteq> SL_NONE
           then case st_securesocket s of
                  None \<Rightarrow> Some (Some UndefinedBehaviour, s)
                | Some True \<Rightarrow> Some (None, s\<lparr>st_securesocket := Some False\<rparr>)
                | Some False \<Rightarrow> None
           else None
      else None)"

definition workloop_timer_elapsed :: "'j jsonlib \<Rightarrow> nat \<Rightarrow> bool \<Rightarrow> Stratum \<Rightarrow> exn option \<times> Stratum" where
  "workloop_timer_elapsed js now aborted s0 =
     (if aborted then (None, s0)
      else let s = s0\<lparr>st_timer := False\<rparr> in
      if pc_conn s = None then (None, s)
      else with_uri s (\<lambda>u.
        let s1 = keep_session_alive js now u s in
        if st_pleas_count s1 \<noteq> 0
        then case check_pending now u s1 of
               Some r \<Rightarrow> r
             | None \<Rightarrow> (let (e, s2) = check_connected now u s1
                       in case e of Some x \<Rightarrow> (Some x, s2) | None \<Rightarrow> (None, s2\<lparr>st_timer := True\<rparr>))
        else (None, s1\<lparr>st_timer := True\<rparr>)))"

section \<open>Login\<close>

text \<open>The stratum mode of a new connection: that of the scheme, or the first one of the autodetection.\<close>

definition choose_mode :: "URI \<Rightarrow> URI" where
  "choose_mode u =
     (if Version u < 999 then SetStratumMode (of_nat (Version u)) True u
      else if \<not> ur_stratumModeConfirmed u \<and> ur_stratumMode u = 999 then SetStratumMode 3 False u
      else u)"

definition hello_params :: "string \<Rightarrow> URI \<Rightarrow> jout" where
  "hello_params ver u =
     JObj [(''agent'', JStr ver), (''host'', JStr (ur_host u)),
           (''port'', JStr (toCompactHex_u32 (ucast (ur_port u)) DontAdd)), (''proto'', JStr ''CoreStratum/2.0.0'')]"

text \<open>The first message, by stratum mode; members are listed with their last assigned value.\<close>

definition login_request :: "string \<Rightarrow> URI \<Rightarrow> jout" where
  "login_request ver u =
     (if ur_stratumMode u = 0
      then JObj [(''id'', JInt 1), (''method'', JStr ''mining.subscribe''), (''params'', JArr []), (''jsonrpc'', JStr ''2.0'')]
      else if ur_stratumMode u = 1
      then JObj ([(''id'', JInt 1), (''method'', JStr ''eth_submitLogin''),
                  (''params'', JArr ([JStr (ur_user u @ ur_path u)] @ (if ur_password u \<noteq> [] then [JStr (ur_password u)] else [])))] @
                 (if ur_worker u \<noteq> [] then [(''worker'', JStr (ur_worker u))] else []))
      else if ur_stratumMode u = 2
      then JObj [(''id'', JInt 1), (''method'', JStr ''mining.subscribe''),
                 (''params'', JArr [JStr ver, JStr ''CoreStratum/1.0.0''])]
      else if ur_stratumMode u = 3
      then JObj [(''id'', JInt 1), (''method'', JStr ''mining.hello''), (''params'', hello_params ver u)]
      else JObj [(''id'', JInt 1), (''method'', JStr ''mining.subscribe''), (''params'', JArr [])])"

text \<open>
  Completion of a connection attempt: \<open>err\<close> is its error, \<open>handshake\<close> whether the TLS handshake
  succeeds. \<open>m_sendBuffer.consume(4096)\<close> drops at most 4096 characters.
\<close>

definition begin_login :: "'j st_env \<Rightarrow> nat \<Rightarrow> Stratum \<Rightarrow> exn option \<times> Stratum" where
  "begin_login env now s =
     (let s1 = conn_upd choose_mode (clear_response_pleas now (s\<lparr>st_sendBuffer := drop 4096 (st_sendBuffer s)\<rparr>))
      in with_uri s1 (\<lambda>u.
        (None, send (sv_js env) (login_request (sv_version env) u) (enqueue_response_plea now (op Async_read s1)))))"

definition connect_handler :: "'j st_env \<Rightarrow> nat \<Rightarrow> bool \<Rightarrow> bool \<Rightarrow> Stratum \<Rightarrow> exn option \<times> Stratum" where
  "connect_handler env now err handshake s =
     (let s1 = s\<lparr>st_connecting := False\<rparr> in
      if st_socket s1 = None then (Some UndefinedBehaviour, s1)
      else if err \<or> \<not> socket_open s1
      then case st_endpoints s1 of
             [] \<Rightarrow> (Some UndefinedBehaviour, set_socket_open False s1)
           | e # es \<Rightarrow> (None, op Post_start_connect ((set_socket_open False s1)\<lparr>st_endpoints := es\<rparr>))
      else with_uri s1 (\<lambda>u.
        let s2 = (conn_upd (Responds True) s1)\<lparr>pc_connected := True, st_message := [], st_txQueue := []\<rparr>
        in if SecLevel u \<noteq> SL_NONE \<and> \<not> handshake
           then (None, op Post_disconnect (conn_upd MarkUnrecoverable s2))
           else begin_login env now s2))"

definition startSession :: "nat \<Rightarrow> Stratum \<Rightarrow> Stratum" where
  "startSession now s = event OnConnected (s\<lparr>pc_session := Some (new_Session now), st_current_timestamp := now\<rparr>)"

text \<open>
  \<open>enonce.resize(16, '0')\<close> cuts or pads the text; its length before that is kept as the size of
  the extranonce.
\<close>

definition resize16 :: "string \<Rightarrow> string" where
  "resize16 s = take 16 (s @ replicate (16 - length s) (CHR ''0''))"

definition processExtranonce :: "string \<Rightarrow> Stratum \<Rightarrow> exn option \<times> Stratum" where
  "processExtranonce enonce s =
     with_session s (\<lambda>x.
       let s1 = session_upd (\<lambda>x. x\<lparr>se_extraNonceSizeBytes := of_nat (length enonce)\<rparr>) s
       in withv (stoul16 (resize16 enonce)) s1 (\<lambda>v.
            (None, session_upd (\<lambda>x. x\<lparr>se_extraNonce := of_nat v\<rparr>) s1)))"

end
