(* ===== verification/StratumProtocol.thy ===== *)
theory StratumProtocol
  imports Stratum
begin

text \<open>
  The stratum client, second part: the messages of the pool (\<open>processResponse\<close>), the
  submissions, and the splitting of the received data into messages. Each case of
  \<open>processResponse\<close> is one function. An exception leaves the state as far as it has been changed.
\<close>

section \<open>The envelope of a message\<close>

record envelope =
  ev_rpcVer :: nat
  ev_id :: u32
  ev_isSuccess :: bool
  ev_errReason :: string
  ev_method :: string
  ev_isNotification :: bool

fun join_items :: "'j jsonlib \<Rightarrow> bool \<Rightarrow> (string \<times> 'j) list \<Rightarrow> exn + string" where
  "join_items js named [] = Inr []"
| "join_items js named ((k, v) # items) =
     ebind (js_asString js v) (\<lambda>s.
       ebind (join_items js named items) (\<lambda>r. Inr ((if named then k @ '':'' else []) @ s @ '' '' @ r)))"

definition processError :: "'j jsonlib \<Rightarrow> 'j \<Rightarrow> exn + string" where
  "processError js r =
     ebind (js_isMember js r ''error'') (\<lambda>m.
       if \<not> m then Inr ''Unknown error''
       else ebind (js_getd js r ''error'' JNull) (\<lambda>e.
         if js_isNull js e then Inr ''Unknown error''
         else if js_convertible js e JTstring then js_asString js e
         else if js_convertible js e JTarray then join_items js False (js_items js e)
         else if js_convertible js e JTobject then join_items js True (js_items js e)
         else Inr []))"

definition conn_mode :: "Stratum \<Rightarrow> exn + u16" where
  "conn_mode s = (case pc_conn s of None \<Rightarrow> Inl UndefinedBehaviour | Some i \<Rightarrow> Inr (ur_stratumMode (st_uris s ! i)))"

definition result_isArray :: "'j jsonlib \<Rightarrow> 'j \<Rightarrow> exn + bool" where
  "result_isArray js r = ebind (js_get js r ''result'') (\<lambda>v. Inr (js_isArray js v))"

text \<open>The essential values; \<open>m_conn\<close> is read only for a notification without a method.\<close>

definition envelope_method :: "'j jsonlib \<Rightarrow> Stratum \<Rightarrow> 'j \<Rightarrow> bool \<Rightarrow> string \<Rightarrow> exn + string" where
  "envelope_method js s r isNotification method =
     (if isNotification \<and> method = []
      then ebind (conn_mode s) (\<lambda>mode.
             if mode = 1 then ebind (result_isArray js r) (\<lambda>a. Inr (if a then ''mining.notify'' else method))
             else Inr method)
      else Inr method)"

definition read_envelope :: "'j jsonlib \<Rightarrow> Stratum \<Rightarrow> 'j \<Rightarrow> exn + envelope" where
  "read_envelope js s r =
     ebind (js_isMember js r ''jsonrpc'') (\<lambda>rpc2.
     ebind (ebind (js_getd js r ''id'' (JInt 0)) (js_asUInt js)) (\<lambda>i.
     ebind (js_getd js r ''error'' JNull) (\<lambda>err.
     ebind (if js_empty js err then Inr [] else processError js r) (\<lambda>reason.
     ebind (str_member js r ''method'' []) (\<lambda>method.
     let isNotification = (method \<noteq> [] \<or> i = 0) in
     ebind (envelope_method js s r isNotification method) (\<lambda>method'.
     Inr \<lparr>ev_rpcVer = (if rpc2 then 2 else 1), ev_id = i, ev_isSuccess = js_empty js err,
          ev_errReason = reason, ev_method = method', ev_isNotification = isNotification\<rparr>))))))"

text \<open>The sanity check: \<open>True\<close> for an invalid message.\<close>

definition bad_version :: "'j jsonlib \<Rightarrow> 'j \<Rightarrow> exn + bool" where
  "bad_version js r =
     ebind (js_get js r ''jsonrpc'') (\<lambda>v.
       if \<not> js_isString js v then Inr True
       else ebind (js_asString js v) (\<lambda>t. Inr (t \<noteq> ''2.0'')))"

definition no_payload :: "'j jsonlib \<Rightarrow> 'j \<Rightarrow> exn + bool" where
  "no_payload js r =
     ebind (js_get js r ''params'') (\<lambda>p.
       if \<not> js_empty js p then Inr False
       else ebind (js_get js r ''result'') (\<lambda>v. Inr (js_empty js v)))"

definition invalid_message :: "'j jsonlib \<Rightarrow> envelope \<Rightarrow> 'j \<Rightarrow> exn + bool" where
  "invalid_message js e r =
     ebind (if ev_rpcVer e = 2 then bad_version js r else Inr False) (\<lambda>bad.
       if bad then Inr True
       else if ev_isNotification e then no_payload js r else Inr False)"

section \<open>Responses to the first message\<close>

definition post_disconnect :: "Stratum \<Rightarrow> exn option \<times> Stratum" where
  "post_disconnect s = (None, op Post_disconnect s)"

text \<open>A failed negotiation: without autodetection the connection is unusable.\<close>

definition negotiation_failed :: "URI \<Rightarrow> Stratum \<Rightarrow> exn option \<times> Stratum" where
  "negotiation_failed u s =
     post_disconnect (if ur_stratumModeConfirmed u then conn_upd MarkUnrecoverable s else s)"

definition hello_accepted :: "'j jsonlib \<Rightarrow> 'j \<Rightarrow> exn + bool" where
  "hello_accepted js v =
     (if \<not> js_convertible js v JTobject then Inr False
      else ebind (js_isMember js v ''proto'') (\<lambda>m.
        if \<not> m then Inr False
        else ebind (ebind (js_get js v ''proto'') (js_asString js)) (\<lambda>p.
          if p \<noteq> ''CoreStratum/2.0.0'' then Inr False
          else ebind (js_isMember js v ''encoding'') (\<lambda>m1. if \<not> m1 then Inr False
          else ebind (js_isMember js v ''resume'') (\<lambda>m2. if \<not> m2 then Inr False
          else ebind (js_isMember js v ''timeout'') (\<lambda>m3. if \<not> m3 then Inr False
          else ebind (js_isMember js v ''maxerrors'') (\<lambda>m4. if \<not> m4 then Inr False
          else js_isMember js v ''node'')))))))"

definition subscription_accepted :: "'j jsonlib \<Rightarrow> 'j \<Rightarrow> exn + bool" where
  "subscription_accepted js v =
     (if \<not> js_isArray js v then Inr False
      else ebind (js_idx js v 0) (\<lambda>a.
        if \<not> js_isArray js a \<or> js_size js a \<noteq> 3 then Inr False
        else ebind (str_item js a 2) (\<lambda>p. Inr (p = ''CoreStratum/1.0.0''))))"

definition authorize_params :: "URI \<Rightarrow> jout" where
  "authorize_params u = JArr [JStr (UserDotWorker u @ ur_path u), JStr (ur_password u)]"

definition set_subscribed :: "Stratum \<Rightarrow> Stratum" where
  "set_subscribed s = session_upd (\<lambda>x. x\<lparr>se_subscribed := True\<rparr>) s"

text \<open>The four dialects, after success has been established.\<close>

definition accept_corestratum2 :: "'j st_env \<Rightarrow> nat \<Rightarrow> Stratum \<Rightarrow> exn option \<times> Stratum" where
  "accept_corestratum2 env now s =
     (let s1 = startSession now (conn_upd (SetStratumMode 3 True) s)
      in (None, send (sv_js env) (JObj [(''id'', JInt 2), (''method'', JStr ''mining.subscribe'')])
                  (enqueue_response_plea now s1)))"

definition accept_corestratum :: "'j st_env \<Rightarrow> nat \<Rightarrow> URI \<Rightarrow> 'j \<Rightarrow> Stratum \<Rightarrow> exn option \<times> Stratum" where
  "accept_corestratum env now u result s =
     (let s1 = set_subscribed (startSession now (conn_upd (SetStratumMode 2 True) s));
          s2 = send (sv_js env) (JObj [(''id'', JInt 2), (''method'', JStr ''mining.extranonce.subscribe''), (''params'', JArr [])]) s1
      in withv (str_item (sv_js env) result 1) s2 (\<lambda>enonce.
        let (e, s3) = (if enonce \<noteq> [] then processExtranonce enonce s2 else (None, s2)) in
        case e of
          Some x \<Rightarrow> (Some x, s3)
        | None \<Rightarrow> (None, send (sv_js env)
            (JObj [(''id'', JInt 3), (''method'', JStr ''mining.authorize''), (''params'', authorize_params u)])
            (enqueue_response_plea now (s3\<lparr>st_authpending := True\<rparr>)))))"

definition accept_ethproxy :: "'j st_env \<Rightarrow> nat \<Rightarrow> Stratum \<Rightarrow> exn option \<times> Stratum" where
  "accept_ethproxy env now s =
     (let s1 = startSession now (conn_upd (SetStratumMode 1 True) s);
          s2 = session_upd (\<lambda>x. x\<lparr>se_subscribed := True, se_authorized := True\<rparr>) s1
      in (None, send (sv_js env) (JObj [(''id'', JInt 5), (''method'', JStr ''eth_getWork''), (''params'', JArr [])]) s2))"

definition accept_stratum :: "'j st_env \<Rightarrow> nat \<Rightarrow> URI \<Rightarrow> Stratum \<Rightarrow> exn option \<times> Stratum" where
  "accept_stratum env now u s =
     (let s1 = set_subscribed (startSession now (conn_upd (SetStratumMode 0 True) s))
      in (None, send (sv_js env)
            (JObj [(''id'', JInt 3), (''jsonrpc'', JStr ''2.0''), (''method'', JStr ''mining.authorize''),
                   (''params'', authorize_params u)])
            (enqueue_response_plea now (s1\<lparr>st_authpending := True\<rparr>))))"

definition login_response :: "'j st_env \<Rightarrow> nat \<Rightarrow> envelope \<Rightarrow> 'j \<Rightarrow> Stratum \<Rightarrow> exn option \<times> Stratum" where
  "login_response env now e result s0 =
     (let s = snd (dequeue_response_plea now s0); js = sv_js env in
      with_uri s (\<lambda>u.
        if \<not> ev_isSuccess e \<and> \<not> ur_stratumModeConfirmed u then post_disconnect s
        else if ur_stratumMode u = 3
        then withv (hello_accepted js result) s (\<lambda>ok.
               if ok then accept_corestratum2 env now s else negotiation_failed u s)
        else if ur_stratumMode u = 2
        then withv (subscription_accepted js result) s (\<lambda>ok.
               if ok then accept_corestratum env now u result s else negotiation_failed u s)
        else if ur_stratumMode u = 1
        then if ev_isSuccess e then accept_ethproxy env now s else negotiation_failed u s
        else if ur_stratumMode u = 0
        then if ev_isSuccess e then accept_stratum env now u s else negotiation_failed u s
        else (None, send js JNull s)))"

section \<open>Other responses\<close>

definition unauthorized :: "Stratum \<Rightarrow> exn option \<times> Stratum" where
  "unauthorized s = post_disconnect (conn_upd MarkUnrecoverable s)"

text \<open>\<open>!jResult.isString() || !jResult.asString().size()\<close>, otherwise the text.\<close>

definition nonempty_text :: "'j jsonlib \<Rightarrow> 'j \<Rightarrow> exn + string option" where
  "nonempty_text js v =
     (if \<not> js_isString js v then Inr None
      else ebind (js_asString js v) (\<lambda>t. Inr (if t = [] then None else Some t)))"

definition subscribe_response :: "'j st_env \<Rightarrow> nat \<Rightarrow> 'j \<Rightarrow> Stratum \<Rightarrow> exn option \<times> Stratum" where
  "subscribe_response env now result s0 =
     with_uri s0 (\<lambda>u.
       if ur_stratumMode u \<noteq> 3 then (None, s0)
       else let s = snd (dequeue_response_plea now s0) in
         withv (nonempty_text (sv_js env) result) s (\<lambda>t.
           case t of
             None \<Rightarrow> unauthorized s
           | Some sid \<Rightarrow> with_session s (\<lambda>x.
               let s1 = session_upd (\<lambda>x. x\<lparr>se_sessionId := sid, se_subscribed := True\<rparr>) s
               in (None, send (sv_js env)
                     (JObj [(''id'', JInt 3), (''method'', JStr ''mining.authorize''), (''params'', authorize_params u)])
                     (enqueue_response_plea now (s1\<lparr>st_authpending := True\<rparr>))))))"

text \<open>\<open>if (_isSuccess && jResult.isBool()) _isSuccess = jResult.asBool();\<close>\<close>

definition boolean_result :: "'j jsonlib \<Rightarrow> envelope \<Rightarrow> 'j \<Rightarrow> exn + bool" where
  "boolean_result js e result =
     (if ev_isSuccess e \<and> js_isBool js result then js_asBool js result else Inr (ev_isSuccess e))"

definition authorize_response :: "'j st_env \<Rightarrow> nat \<Rightarrow> envelope \<Rightarrow> 'j \<Rightarrow> Stratum \<Rightarrow> exn option \<times> Stratum" where
  "authorize_response env now e result s0 =
     with_uri s0 (\<lambda>u.
       let s = snd (dequeue_response_plea now s0) in
       if ur_stratumMode u \<noteq> 3
       then withv (boolean_result (sv_js env) e result) s (\<lambda>ok.
              with_session (s\<lparr>st_authpending := False\<rparr>) (\<lambda>x.
                let s1 = session_upd (\<lambda>x. x\<lparr>se_authorized := ok\<rparr>) (s\<lparr>st_authpending := False\<rparr>)
                in if \<not> isAuthorized s1 then unauthorized s1 else (None, s1)))
       else withv (if ev_isSuccess e then nonempty_text (sv_js env) result else Inr None) s (\<lambda>t.
              case t of
                None \<Rightarrow> unauthorized s
              | Some wid \<Rightarrow> with_session (s\<lparr>st_authpending := False\<rparr>) (\<lambda>x.
                  (None, session_upd (\<lambda>x. x\<lparr>se_authorized := True, se_workerId := wid\<rparr>) (s\<lparr>st_authpending := False\<rparr>)))))"

text \<open>An error code that starts with 2 means that the solution was accepted as a stale one.\<close>

definition stale_code :: "'j jsonlib \<Rightarrow> 'j \<Rightarrow> exn + bool" where
  "stale_code js r =
     ebind (js_get js r ''error'') (\<lambda>e. ebind (str_member js e ''code'' []) (\<lambda>c. Inr (take 1 c = ''2'')))"

definition solution_response :: "'j st_env \<Rightarrow> nat \<Rightarrow> envelope \<Rightarrow> 'j \<Rightarrow> 'j \<Rightarrow> Stratum \<Rightarrow> exn option \<times> Stratum" where
  "solution_response env now e r result s0 =
     with_uri s0 (\<lambda>u.
       let (delay, s) = dequeue_response_plea now s0;
           answer = (if ur_stratumMode u \<noteq> 3
                     then ebind (boolean_result (sv_js env) e result) (\<lambda>ok. Inr (ok, False))
                     else if ev_isSuccess e then Inr (True, False)
                     else ebind (stale_code (sv_js env) r) (\<lambda>b. Inr (b, b)))
       in withv answer s (\<lambda>(ok, stale).
            (None, if ok then event (OnSolutionAccepted delay (ev_id e - 40) stale) s
                   else event (OnSolutionRejected delay (ev_id e - 40)) s)))"

definition error_response :: "envelope \<Rightarrow> Stratum \<Rightarrow> exn option \<times> Stratum" where
  "error_response e s =
     (if ev_isSuccess e then (None, s)
      else with_uri s (\<lambda>u.
        if \<not> ur_stratumModeConfirmed u \<or> \<not> isSubscribed s \<or> \<not> isAuthorized s then post_disconnect s else (None, s)))"

definition handle_response :: "'j st_env \<Rightarrow> nat \<Rightarrow> envelope \<Rightarrow> 'j \<Rightarrow> Stratum \<Rightarrow> exn option \<times> Stratum" where
  "handle_response env now e r s =
     withv (js_getd (sv_js env) r ''result'' JNull) s (\<lambda>result.
       if ev_id e = 1 then login_response env now e result s
       else if ev_id e = 2 then subscribe_response env now result s
       else if ev_id e = 3 then authorize_response env now e result s
       else if 40 \<le> ev_id e \<and> st_max_id s = None then (Some UndefinedBehaviour, s)
       else if 40 \<le> ev_id e \<and> ev_id e \<le> the (st_max_id s) then solution_response env now e r result s
       else if ev_id e = 999 then error_response e s
       else (None, s))"

section \<open>Notifications\<close>

text \<open>The next step of a handler, unless the one before has thrown.\<close>

definition then_ok :: "exn option \<times> Stratum \<Rightarrow> (Stratum \<Rightarrow> exn option \<times> Stratum) \<Rightarrow> exn option \<times> Stratum" where
  "then_ok r k = (case fst r of Some e \<Rightarrow> r | None \<Rightarrow> k (snd r))"

definition upd_work :: "(WorkPackage \<Rightarrow> WorkPackage) \<Rightarrow> Stratum \<Rightarrow> Stratum" where
  "upd_work f s = s\<lparr>st_current := f (st_current s)\<rparr>"

definition new_job :: "nat \<Rightarrow> Stratum \<Rightarrow> Stratum" where
  "new_job now s = s\<lparr>st_current_timestamp := now, st_newjobprocessed := True\<rparr>"

text \<open>\<open>mining.notify\<close> in the dialect CoreStratum/1.0.0.\<close>

definition notify_corestratum :: "'j jsonlib \<Rightarrow> nat \<Rightarrow> 'j \<Rightarrow> Stratum \<Rightarrow> exn option \<times> Stratum" where
  "notify_corestratum js now prm s =
     withv (str_item js prm 1) s (\<lambda>sSeedHash.
     withv (str_item js prm 2) s (\<lambda>sHeaderHash.
       if sHeaderHash \<noteq> [] \<and> sSeedHash \<noteq> []
       then withv (h256_of sSeedHash) s (\<lambda>seed.
            let s1 = upd_work (\<lambda>w. w\<lparr>wp_seed := seed\<rparr>) s in
            withv (h256_of sHeaderHash) s1 (\<lambda>header.
            let s2 = upd_work (\<lambda>w. w\<lparr>wp_header := header\<rparr>) s1 in
            with_session s2 (\<lambda>x.
              (None, new_job now (upd_work (\<lambda>w. w\<lparr>wp_boundary := se_nextWorkBoundary x, wp_startNonce := se_extraNonce x,
                                      wp_exSizeBytes := ucast (se_extraNonceSizeBytes x), wp_block := - 1\<rparr>) s2)))))
       else (None, s)))"

text \<open>
  The block number of the dialect Eth-Proxy. The value of \<open>stoul\<close> is stored in an \<open>int\<close>; what
  the check throws is a pointer, which the handler for exceptions does not catch.
\<close>

definition store_int :: "nat \<Rightarrow> int" where
  "store_int v = sint (of_nat v :: 32 word)"

definition read_block :: "string \<Rightarrow> exn option \<times> int" where
  "read_block t =
     (case stoul16 t of
        Inl e \<Rightarrow> (None, - 1)
      | Inr v \<Rightarrow> (if store_int v > 0x9660180 then Some PointerThrown else None, store_int v))"

definition proxy_block :: "'j jsonlib \<Rightarrow> URI \<Rightarrow> 'j \<Rightarrow> nat \<Rightarrow> exn + exn option \<times> int" where
  "proxy_block js u prm i =
     (if ur_stratumMode u = 1 \<and> i < js_size js prm
      then ebind (str_item js prm i) (\<lambda>t. Inr (if take 2 t = ''0x'' then read_block t else (None, - 1)))
      else Inr (None, - 1))"

text \<open>\<open>substr(2)\<close> of a text of less than two characters throws.\<close>

definition pad_target :: "string \<Rightarrow> exn + string" where
  "pad_target t =
     (if length t < 66
      then if length t < 2 then Inl OutOfRange
           else Inr (''0x'' @ replicate (66 - length t) (CHR ''0'') @ drop 2 t)
      else Inr t)"

definition notify_plain :: "'j jsonlib \<Rightarrow> nat \<Rightarrow> URI \<Rightarrow> 'j \<Rightarrow> nat \<Rightarrow> Stratum \<Rightarrow> exn option \<times> Stratum" where
  "notify_plain js now u prm i s =
     withv (str_item js prm i) s (\<lambda>sHeaderHash.
     withv (str_item js prm (i + 1)) s (\<lambda>sSeedHash.
     withv (str_item js prm (i + 2)) s (\<lambda>sShareTarget.
     let s1 = upd_work (\<lambda>w. w\<lparr>wp_block := - 1\<rparr>) s in
     withv (proxy_block js u prm (i + 3)) s1 (\<lambda>(thrown, block).
     then_ok (thrown, upd_work (\<lambda>w. w\<lparr>wp_block := block\<rparr>) s1) (\<lambda>s2.
     withv (pad_target sShareTarget) s2 (\<lambda>target.
     withv (h256_of sSeedHash) s2 (\<lambda>seed.
     let s3 = upd_work (\<lambda>w. w\<lparr>wp_seed := seed\<rparr>) s2 in
     withv (h256_of sHeaderHash) s3 (\<lambda>header.
     let s4 = upd_work (\<lambda>w. w\<lparr>wp_header := header\<rparr>) s3 in
     withv (h256_of target) s4 (\<lambda>boundary.
       (None, new_job now (upd_work (\<lambda>w. w\<lparr>wp_boundary := boundary\<rparr>) s4)))))))))))"

text \<open>\<open>mining.notify\<close> of all dialects but CoreStratum/2.0.0.\<close>

definition notify_params :: "'j jsonlib \<Rightarrow> URI \<Rightarrow> 'j \<Rightarrow> exn + 'j \<times> nat" where
  "notify_params js u r =
     ebind (if ur_stratumMode u = 1 then js_isMember js r ''result'' else Inr False) (\<lambda>m.
       if m then ebind (js_getd js r ''result'' JNull) (\<lambda>p. Inr (p, 0))
       else ebind (js_getd js r ''params'' JNull) (\<lambda>p. Inr (p, 1)))"

definition mining_notify :: "'j jsonlib \<Rightarrow> nat \<Rightarrow> URI \<Rightarrow> 'j \<Rightarrow> Stratum \<Rightarrow> exn option \<times> Stratum" where
  "mining_notify js now u r s =
     (if \<not> isSubscribed s \<or> st_newjobprocessed s then (None, s)
      else withv (notify_params js u r) s (\<lambda>(prm, i).
        if js_isArray js prm \<and> \<not> js_empty js prm
        then withv (str_item js prm 0) s (\<lambda>job.
          let s1 = upd_work (\<lambda>w. w\<lparr>wp_job := job\<rparr>) s in
          if ur_stratumMode u = 2 then notify_corestratum js now prm s1 else notify_plain js now u prm i s1)
        else (None, s)))"

definition notify2_params :: "'j jsonlib \<Rightarrow> 'j \<Rightarrow> exn + 'j option" where
  "notify2_params js r =
     ebind (js_isMember js r ''params'') (\<lambda>m.
       if \<not> m then Inr None
       else ebind (js_get js r ''params'') (\<lambda>p.
         Inr (if js_isArray js p \<and> \<not> js_empty js p \<and> js_size js p = 4 then Some p else None)))"

definition mining_notify2 :: "'j jsonlib \<Rightarrow> nat \<Rightarrow> 'j \<Rightarrow> Stratum \<Rightarrow> exn option \<times> Stratum" where
  "mining_notify2 js now r s =
     (case pc_session s of
        None \<Rightarrow> (None, s)
      | Some x \<Rightarrow>
          if \<not> se_firstMiningSet x then (None, s)
          else withv (notify2_params js r) s (\<lambda>p.
            case p of
              None \<Rightarrow> (None, s)
            | Some prm \<Rightarrow>
                withv (str_item js prm 0) s (\<lambda>job.
                let s1 = upd_work (\<lambda>w. w\<lparr>wp_job := job\<rparr>) s in
                withv (ebind (str_item js prm 1) stoul16) s1 (\<lambda>block.
                let s2 = upd_work (\<lambda>w. w\<lparr>wp_block := store_int block\<rparr>) s1 in
                withv (str_item js prm 2) s2 (\<lambda>h.
                withv (h256_of (''0x'' @ padLeft h 64 (CHR ''0''))) s2 (\<lambda>header.
                let s3 = upd_work (\<lambda>w. w\<lparr>wp_header := header\<rparr>) s2 in
                withv (h256_of (h_hex (se_nextWorkBoundary x) Add)) s3 (\<lambda>boundary.
                  (None, new_job now (upd_work (\<lambda>w. w\<lparr>wp_boundary := boundary, wp_epoch := sint (se_epoch x),
                     wp_algo := se_algo x, wp_startNonce := se_extraNonce x,
                     wp_exSizeBytes := ucast (se_extraNonceSizeBytes x)\<rparr>) s3)))))))))"

text \<open>The difficulty sent by the pool is not read: the maximum of two constants is used.\<close>

definition set_difficulty :: "'j st_env \<Rightarrow> 'j \<Rightarrow> Stratum \<Rightarrow> exn option \<times> Stratum" where
  "set_difficulty env r s =
     withv (js_getd (sv_js env) r ''params'' JNull) s (\<lambda>prm.
       if js_isArray (sv_js env) prm
       then with_session s (\<lambda>x.
         withv (ebind (getTargetFromDiff (sv_mp env) (sv_boost env) (sv_rnd env) (max 0.000001 0.00001) Add) (\<lambda>t. h256_of t)) s (\<lambda>b.
           (None, session_upd (\<lambda>x. x\<lparr>se_nextWorkBoundary := b\<rparr>) s)))
       else (None, s))"

definition set_extranonce :: "'j jsonlib \<Rightarrow> 'j \<Rightarrow> Stratum \<Rightarrow> exn option \<times> Stratum" where
  "set_extranonce js r s =
     withv (js_getd js r ''params'' JNull) s (\<lambda>prm.
       if js_isArray js prm
       then withv (str_item js prm 0) s (\<lambda>enonce.
              if enonce \<noteq> [] then processExtranonce enonce s else (None, s))
       else (None, s))"

text \<open>\<open>mining.set\<close>: the members are taken over one after the other.\<close>

definition opt_set :: "string \<Rightarrow> (string \<Rightarrow> exn + (Session \<Rightarrow> Session)) \<Rightarrow> Stratum \<Rightarrow> exn option \<times> Stratum" where
  "opt_set t f s = (if t = [] then (None, s) else withv (f t) s (\<lambda>g. (None, session_upd g s)))"

definition mining_set :: "'j jsonlib \<Rightarrow> 'j \<Rightarrow> Stratum \<Rightarrow> exn option \<times> Stratum" where
  "mining_set js r s =
     withv (js_isMember js r ''params'') s (\<lambda>m.
     if \<not> m then (None, s)
     else withv (js_get js r ''params'') s (\<lambda>prm.
     if \<not> js_isObject js prm \<or> js_empty js prm then (None, s)
     else with_session s (\<lambda>x.
     let s1 = session_upd (\<lambda>x. x\<lparr>se_firstMiningSet := True\<rparr>) s in
     withv (str_member js prm ''timeout'' []) s1 (\<lambda>timeout.
     withv (str_member js prm ''epoch'' []) s1 (\<lambda>epoch.
     withv (str_member js prm ''target'' []) s1 (\<lambda>target.
     then_ok (opt_set timeout (\<lambda>t. map_sum id (\<lambda>v x. x\<lparr>se_timeout := of_int v\<rparr>) (stoi16 t)) s1) (\<lambda>s2.
     then_ok (opt_set epoch (\<lambda>t. map_sum id (\<lambda>v x. x\<lparr>se_epoch := of_nat v\<rparr>) (stoul16 t)) s2) (\<lambda>s3.
     then_ok (opt_set target (\<lambda>t. map_sum id (\<lambda>b x. x\<lparr>se_nextWorkBoundary := b\<rparr>)
               (h256_of (''0x'' @ padLeft t 64 (CHR ''0'')))) s3) (\<lambda>s4.
     withv (str_member js prm ''algo'' ''ethash'') s4 (\<lambda>algo.
     let s5 = session_upd (\<lambda>x. x\<lparr>se_algo := algo\<rparr>) s4 in
     withv (str_member js prm ''extranonce'' []) s5 (\<lambda>enonce.
       if enonce \<noteq> [] then processExtranonce enonce s5 else (None, s5))))))))))))"

definition version_reply :: "string \<Rightarrow> envelope \<Rightarrow> jout" where
  "version_reply ver e =
     JObj ([(''id'', JInt (int (unat (ev_id e)))), (''result'', JStr ver)] @
           (if ev_rpcVer e = 1 then [(''error'', JNull)] else [(''jsonrpc'', JStr ''2.0'')]))"

definition unknown_method_reply :: "envelope \<Rightarrow> jout" where
  "unknown_method_reply e =
     JObj ((if ev_rpcVer e = 2 then [(''jsonrpc'', JStr ''2.0'')] else []) @
           [(''id'', JInt (int (unat (ev_id e)))), (''error'', JStr ''Method not found'')])"

definition handle_notification :: "'j st_env \<Rightarrow> nat \<Rightarrow> envelope \<Rightarrow> string \<Rightarrow> 'j \<Rightarrow> Stratum \<Rightarrow> exn option \<times> Stratum" where
  "handle_notification env now e method r s =
     with_uri s (\<lambda>u.
       let js = sv_js env; mode = ur_stratumMode u in
       if \<not> ur_stratumModeConfirmed u then (None, s)
       else if method = ''mining.notify'' \<and> mode \<noteq> 3 then mining_notify js now u r s
       else if method = ''mining.notify'' then mining_notify2 js now r s
       else if method = ''mining.set_difficulty'' \<and> mode = 2 then set_difficulty env r s
       else if method = ''mining.set_extranonce'' \<and> mode = 2 then set_extranonce js r s
       else if method = ''mining.set'' \<and> mode = 3 then mining_set js r s
       else if method = ''mining.bye'' \<and> mode = 3 then post_disconnect s
       else if method = ''client.get_version'' then (None, send js (version_reply (sv_version env) e) s)
       else (None, send js (unknown_method_reply e) s))"

text \<open>
  \<open>processResponse\<close>. The answer to \<open>eth_getWork\<close> (identifier 5) is handled as a notification.
\<close>

definition processResponse :: "'j st_env \<Rightarrow> nat \<Rightarrow> 'j \<Rightarrow> Stratum \<Rightarrow> exn option \<times> Stratum" where
  "processResponse env now r s =
     (let js = sv_js env in
      withv (read_envelope js s r) s (\<lambda>e.
      withv (invalid_message js e r) s (\<lambda>bad.
        if bad then post_disconnect s
        else if ev_isNotification e then handle_notification env now e (ev_method e) r s
        else if ev_id e = 5
        then with_uri s (\<lambda>u.
               if ur_stratumMode u = 1
               then withv (result_isArray js r) s (\<lambda>a.
                      if a then handle_notification env now e ''mining.notify'' r s else (None, s))
               else (None, s))
        else handle_response env now e r s)))"

section \<open>Submissions\<close>

definition worker_member :: "URI \<Rightarrow> (string \<times> jout) list" where
  "worker_member u = (if ur_worker u \<noteq> [] then [(''worker'', JStr (ur_worker u))] else [])"

definition submitHashrate :: "'j jsonlib \<Rightarrow> u64 \<Rightarrow> string \<Rightarrow> Stratum \<Rightarrow> exn option \<times> Stratum" where
  "submitHashrate js rate idn s =
     (if \<not> st_isConnected s then (None, s)
      else with_uri s (\<lambda>u.
        if ur_stratumMode u \<noteq> 3
        then (None, send js (JObj ([(''id'', JInt 9), (''params'', JArr [JStr (toHex_u64 rate Add 32), JStr idn]),
                                    (''jsonrpc'', JStr ''2.0'')] @ worker_member u @
                                   [(''method'', JStr ''eth_submitHashrate'')])) s)
        else with_session s (\<lambda>x.
               (None, send js (JObj [(''id'', JInt 9),
                  (''params'', JArr [JStr (toCompactHex_u64 rate DontAdd), JStr (se_workerId x)]),
                  (''method'', JStr ''mining.hashrate'')]) s))))"

text \<open>\<open>toHex(nonce).substr(exSizeBytes)\<close>.\<close>

definition nonce_suffix :: "u64 \<Rightarrow> u16 \<Rightarrow> exn + string" where
  "nonce_suffix nonce ex =
     (let t = toHex_u64 nonce DontAdd 16 in
      if length t < unat ex then Inl OutOfRange else Inr (drop (unat ex) t))"

definition submit_body :: "URI \<Rightarrow> Session \<Rightarrow> Solution \<Rightarrow> exn + (string \<times> jout) list" where
  "submit_body u x sol =
     (let job = JStr (wp_job (sol_work sol)); nonce = JStr (toHex_u64 (sol_nonce sol) Add 16);
          header = JStr (h_hex (wp_header (sol_work sol)) Add); mix = JStr (h_hex (sol_mixHash sol) Add) in
      if ur_stratumMode u = 0
      then Inr ([(''method'', JStr ''mining.submit''), (''params'', JArr [JStr (ur_user u), job, nonce, header, mix]),
                 (''jsonrpc'', JStr ''2.0'')] @ worker_member u)
      else if ur_stratumMode u = 1
      then Inr ([(''method'', JStr ''eth_submitWork''), (''params'', JArr [nonce, header, mix])] @ worker_member u)
      else if ur_stratumMode u = 2
      then ebind (nonce_suffix (sol_nonce sol) (wp_exSizeBytes (sol_work sol))) (\<lambda>t.
             Inr [(''method'', JStr ''mining.submit''), (''params'', JArr [JStr (UserDotWorker u), job, JStr t])])
      else if ur_stratumMode u = 3
      then ebind (nonce_suffix (sol_nonce sol) (wp_exSizeBytes (sol_work sol))) (\<lambda>t.
             Inr [(''method'', JStr ''mining.submit''), (''params'', JArr [job, JStr t, JStr (se_workerId x)])])
      else Inr [(''method'', JStr ''mining.submit''), (''params'', JArr [])])"

definition submitSolution :: "'j jsonlib \<Rightarrow> nat \<Rightarrow> Solution \<Rightarrow> Stratum \<Rightarrow> exn option \<times> Stratum" where
  "submitSolution js now sol s =
     (if \<not> isAuthorized s then (None, s)
      else if st_max_id s = None then (Some UndefinedBehaviour, s)
      else let i = 40 + sol_midx sol; s1 = s\<lparr>st_max_id := Some (max (the (st_max_id s)) i)\<rparr> in
        with_session s1 (\<lambda>x. with_uri s1 (\<lambda>u.
          withv (submit_body u x sol) s1 (\<lambda>body.
            (None, send js (JObj ((''id'', JInt (int (unat i))) # body)) (enqueue_response_plea now s1))))))"

section \<open>Receiving\<close>

text \<open>The complete lines of the buffer and what remains behind the last line feed.\<close>

fun split_lines :: "string \<Rightarrow> string list \<times> string" where
  "split_lines [] = ([], [])"
| "split_lines (c # cs) =
     (let (ls, rest) = split_lines cs in
      if c = CHR 0x0A then ([] # ls, rest)
      else case ls of [] \<Rightarrow> ([], c # rest) | l # ls' \<Rightarrow> ((c # l) # ls', rest))"

text \<open>\<open>catch (const std::exception&)\<close>.\<close>

definition std_exception :: "exn \<Rightarrow> bool" where
  "std_exception e = (e \<noteq> PointerThrown \<and> e \<noteq> UndefinedBehaviour)"

definition process_line :: "'j st_env \<Rightarrow> nat \<Rightarrow> string \<Rightarrow> Stratum \<Rightarrow> exn option \<times> Stratum" where
  "process_line env now line s =
     (let t = sv_trim env line in
      if line = [] \<or> t = [] then (None, s)
      else case js_parse (sv_js env) t of
             None \<Rightarrow> (None, s)
           | Some msg \<Rightarrow>
               (let (e, s1) = processResponse env now msg s
                in case e of None \<Rightarrow> (None, s1)
                   | Some x \<Rightarrow> if std_exception x then (None, s1) else (Some x, s1)))"

fun process_lines :: "'j st_env \<Rightarrow> nat \<Rightarrow> string list \<Rightarrow> Stratum \<Rightarrow> exn option \<times> Stratum" where
  "process_lines env now [] s = (None, s)"
| "process_lines env now (l # ls) s = then_ok (process_line env now l s) (process_lines env now ls)"

text \<open>The received data, \<open>None\<close> when the read failed.\<close>

definition onRecvSocketDataCompleted :: "'j st_env \<Rightarrow> nat \<Rightarrow> string option \<Rightarrow> Stratum \<Rightarrow> exn option \<times> Stratum" where
  "onRecvSocketDataCompleted env now received s =
     (case received of
        Some rx \<Rightarrow>
          (let (ls, rest) = split_lines (st_message s @ rx) in
           then_ok (process_lines env now ls (s\<lparr>st_newjobprocessed := False\<rparr>)) (\<lambda>s1.
             let s2 = s1\<lparr>st_message := rest\<rparr>;
                 s3 = (if st_newjobprocessed s2 then event (OnWorkReceived (st_current s2)) s2 else s2)
             in (None, if st_isConnected s3 then op Async_read s3 else s3)))
      | None \<Rightarrow>
          (if \<not> st_isConnected s then (None, s)
           else if st_authpending s
           then with_uri s (\<lambda>u. post_disconnect (conn_upd MarkUnrecoverable s))
           else post_disconnect s))"

end
