(* ===== verification/StratumInv.thy ===== *)
theory StratumInv
  imports StratumProtocol ClientContract
begin

text \<open>
  The invariant of the stratum client: its work packages and boundaries have full hashes, its
  connection object exists, the identifiers of the responses it takes for solutions are those of
  submitted ones, and so its events keep the contract of the manager.
\<close>

section \<open>Invariant\<close>

definition st_inv :: "nat \<Rightarrow> Stratum \<Rightarrow> bool" where
  "st_inv n s \<longleftrightarrow>
     wp_wf (st_current s) \<and>
     (\<forall>x. pc_session s = Some x \<longrightarrow> length (se_nextWorkBoundary x) = 32) \<and>
     (\<forall>i. pc_conn s = Some i \<longrightarrow> i < length (st_uris s)) \<and>
     (\<forall>m. st_max_id s = Some m \<longrightarrow> unat m < 40 + n) \<and>
     list_all (event_ok n) (st_events s)"

text \<open>Control structure.\<close>

lemma withv_inv:
  "st_inv n s \<Longrightarrow> (\<And>v. r = Inr v \<Longrightarrow> st_inv n (snd (k v))) \<Longrightarrow> st_inv n (snd (withv r s k))"
  by (cases r) simp_all

lemma with_uri_inv:
  "st_inv n s \<Longrightarrow> (\<And>u. st_inv n (snd (k u))) \<Longrightarrow> st_inv n (snd (with_uri s k))"
  by (simp add: with_uri_def split: option.splits)

lemma with_session_inv:
  "st_inv n s \<Longrightarrow> (\<And>x. pc_session s = Some x \<Longrightarrow> length (se_nextWorkBoundary x) = 32 \<Longrightarrow> st_inv n (snd (k x))) \<Longrightarrow>
     st_inv n (snd (with_session s k))"
  by (simp add: with_session_def st_inv_def split: option.splits)

lemma then_ok_inv:
  "st_inv n (snd r) \<Longrightarrow> (\<And>s. st_inv n s \<Longrightarrow> st_inv n (snd (k s))) \<Longrightarrow> st_inv n (snd (then_ok r k))"
  by (simp add: then_ok_def split: option.splits)

lemmas st_intros = withv_inv with_uri_inv with_session_inv then_ok_inv

text \<open>Elementary changes.\<close>

lemma st_fields [inv_rules]:
  "st_inv n s \<Longrightarrow> st_inv n (s\<lparr>st_disconnecting := b\<rparr>)"
  "st_inv n s \<Longrightarrow> st_inv n (s\<lparr>st_connecting := b\<rparr>)"
  "st_inv n s \<Longrightarrow> st_inv n (s\<lparr>st_authpending := b\<rparr>)"
  "st_inv n s \<Longrightarrow> st_inv n (s\<lparr>st_current_timestamp := t\<rparr>)"
  "st_inv n s \<Longrightarrow> st_inv n (s\<lparr>st_socket := so\<rparr>)"
  "st_inv n s \<Longrightarrow> st_inv n (s\<lparr>st_securesocket := o1\<rparr>)"
  "st_inv n s \<Longrightarrow> st_inv n (s\<lparr>st_nonsecuresocket := o1\<rparr>)"
  "st_inv n s \<Longrightarrow> st_inv n (s\<lparr>st_message := m\<rparr>)"
  "st_inv n s \<Longrightarrow> st_inv n (s\<lparr>st_newjobprocessed := b\<rparr>)"
  "st_inv n s \<Longrightarrow> st_inv n (s\<lparr>st_sendBuffer := m\<rparr>)"
  "st_inv n s \<Longrightarrow> st_inv n (s\<lparr>st_timer := b\<rparr>)"
  "st_inv n s \<Longrightarrow> st_inv n (s\<lparr>st_pleas_count := k\<rparr>)"
  "st_inv n s \<Longrightarrow> st_inv n (s\<lparr>st_plea_older := k\<rparr>)"
  "st_inv n s \<Longrightarrow> st_inv n (s\<lparr>st_plea_times := ks\<rparr>)"
  "st_inv n s \<Longrightarrow> st_inv n (s\<lparr>st_txPending := b\<rparr>)"
  "st_inv n s \<Longrightarrow> st_inv n (s\<lparr>st_txQueue := q\<rparr>)"
  "st_inv n s \<Longrightarrow> st_inv n (s\<lparr>st_endpoints := es\<rparr>)"
  "st_inv n s \<Longrightarrow> st_inv n (s\<lparr>st_max_id := Some 0\<rparr>)"
  "st_inv n s \<Longrightarrow> st_inv n (s\<lparr>st_ops := os\<rparr>)"
  "st_inv n s \<Longrightarrow> st_inv n (s\<lparr>pc_connected := b\<rparr>)"
  "st_inv n s \<Longrightarrow> st_inv n (s\<lparr>pc_endpoint := e\<rparr>)"
  "st_inv n s \<Longrightarrow> st_inv n (s\<lparr>pc_session := None\<rparr>)"
  "st_inv n s \<Longrightarrow> st_inv n (s\<lparr>pc_conn := None\<rparr>)"
  by (simp_all add: st_inv_def)

lemma default_boundary_length [simp]: "length default_boundary = 32"
  by (simp add: default_boundary_def)

lemma st_ops_inv [inv_rules]:
  "st_inv n s \<Longrightarrow> st_inv n (op x s)"
  "st_inv n s \<Longrightarrow> event_ok n e \<Longrightarrow> st_inv n (event e s)"
  "st_inv n s \<Longrightarrow> st_inv n (conn_upd f s)"
  "st_inv n s \<Longrightarrow> st_inv n (enqueue_response_plea now s)"
  "st_inv n s \<Longrightarrow> st_inv n (clear_response_pleas now s)"
  "st_inv n s \<Longrightarrow> st_inv n (snd (dequeue_response_plea now s))"
  "st_inv n s \<Longrightarrow> st_inv n (drop_output s)"
  "st_inv n s \<Longrightarrow> st_inv n (set_socket_open b s)"
  "st_inv n s \<Longrightarrow> st_inv n (startSession now s)"
  "st_inv n s \<Longrightarrow> st_inv n (new_job now s)"
  by (auto simp: op_def event_def conn_upd_def enqueue_response_plea_def clear_response_pleas_def
      dequeue_response_plea_def drop_output_def set_socket_open_def startSession_def new_job_def st_inv_def
      new_Session_def Let_def split: option.splits list.splits sock_ref.splits)

lemma sendSocketData_inv [inv_rules]: "st_inv n s \<Longrightarrow> st_inv n (sendSocketData s)"
  by (simp add: sendSocketData_def Let_def inv_rules)

lemma send_inv [inv_rules]: "st_inv n s \<Longrightarrow> st_inv n (send js j s)"
  by (simp add: send_def Let_def inv_rules)

lemma session_upd_inv:
  assumes "st_inv n s" and "\<And>x. length (se_nextWorkBoundary x) = 32 \<Longrightarrow> length (se_nextWorkBoundary (f x)) = 32"
  shows "st_inv n (session_upd f s)"
  using assms by (auto simp: session_upd_def st_inv_def)

lemma session_fields [inv_rules]:
  "st_inv n s \<Longrightarrow> st_inv n (session_upd (se_lastTxStamp_update f1) s)"
  "st_inv n s \<Longrightarrow> st_inv n (session_upd (se_extraNonceSizeBytes_update f2) s)"
  "st_inv n s \<Longrightarrow> st_inv n (session_upd (se_extraNonce_update f3) s)"
  "st_inv n s \<Longrightarrow> st_inv n (session_upd (se_authorized_update f4) s)"
  "st_inv n s \<Longrightarrow> st_inv n (session_upd (se_firstMiningSet_update f5) s)"
  "st_inv n s \<Longrightarrow> st_inv n (session_upd (se_algo_update f6) s)"
  "st_inv n s \<Longrightarrow> st_inv n (session_upd (\<lambda>x. x\<lparr>se_subscribed := b, se_authorized := c\<rparr>) s)"
  "st_inv n s \<Longrightarrow> st_inv n (session_upd (\<lambda>x. x\<lparr>se_sessionId := i, se_subscribed := c\<rparr>) s)"
  "st_inv n s \<Longrightarrow> st_inv n (session_upd (\<lambda>x. x\<lparr>se_authorized := b, se_workerId := i\<rparr>) s)"
  "st_inv n s \<Longrightarrow> length h = 32 \<Longrightarrow> st_inv n (session_upd (\<lambda>x. x\<lparr>se_nextWorkBoundary := h\<rparr>) s)"
  by (simp_all add: session_upd_inv)

lemma upd_work_inv:
  assumes "st_inv n s" and "\<And>w. wp_wf w \<Longrightarrow> wp_wf (f w)"
  shows "st_inv n (upd_work f s)"
  using assms by (auto simp: upd_work_def st_inv_def)

lemma init_inv [inv_rules]: "st_inv n s \<Longrightarrow> st_inv n (init_if_needed u s)"
  by (simp add: init_if_needed_def init_socket_def inv_rules)

lemma set_subscribed_inv [inv_rules]: "st_inv n s \<Longrightarrow> st_inv n (set_subscribed s)"
  by (simp add: set_subscribed_def session_upd_inv)

section \<open>The life cycle keeps the invariant\<close>

lemma connect_inv [inv_rules]: "st_inv n s \<Longrightarrow> st_inv n (snd (connect ep s))"
  unfolding connect_def by (auto simp: Let_def inv_rules intro!: st_intros)

lemma disconnect_finalize_inv [inv_rules]: "st_inv n s \<Longrightarrow> st_inv n (snd (disconnect_finalize now s))"
  unfolding disconnect_finalize_def autodetect_def
  by (auto simp: Let_def inv_rules intro!: st_intros split: option.splits)

lemma disconnect_inv [inv_rules]: "st_inv n s \<Longrightarrow> st_inv n (snd (disconnect now s))"
  unfolding disconnect_def by (auto simp: Let_def inv_rules intro!: st_intros)

lemma onSSLShutdown_inv [inv_rules]: "st_inv n s \<Longrightarrow> st_inv n (onSSLShutdownCompleted now s)"
  by (simp add: onSSLShutdownCompleted_def inv_rules)

lemma resolve_handler_inv [inv_rules]: "st_inv n s \<Longrightarrow> st_inv n (snd (resolve_handler now eps s))"
  by (simp add: resolve_handler_def inv_rules split: option.splits)

lemma start_connect_inv [inv_rules]: "st_inv n s \<Longrightarrow> st_inv n (snd (start_connect now s))"
  unfolding start_connect_def by (auto simp: Let_def inv_rules intro!: st_intros split: list.splits)

lemma keep_alive_inv [inv_rules]: "st_inv n s \<Longrightarrow> st_inv n (keep_session_alive js now u s)"
  by (simp add: keep_session_alive_def inv_rules split: option.splits)

lemma drop_endpoint_inv [inv_rules]: "st_inv n s \<Longrightarrow> st_inv n (snd (drop_endpoint now s))"
  by (simp add: drop_endpoint_def inv_rules split: list.splits)

lemma check_connected_inv [inv_rules]: "st_inv n s \<Longrightarrow> st_inv n (snd (check_connected now u s))"
  by (simp add: check_connected_def inv_rules)

lemma check_pending_inv: "st_inv n s \<Longrightarrow> check_pending now u s = Some r \<Longrightarrow> st_inv n (snd r)"
  by (auto simp: check_pending_def inv_rules split: if_splits option.splits bool.splits)

lemma workloop_inv [inv_rules]:
  assumes "st_inv n s"
  shows "st_inv n (snd (workloop_timer_elapsed js now a s))"
proof -
  have "st_inv n (snd (case check_pending now u s1 of
               Some r \<Rightarrow> r
             | None \<Rightarrow> (let (e, s2) = check_connected now u s1
                       in case e of Some x \<Rightarrow> (Some x, s2) | None \<Rightarrow> (None, s2\<lparr>st_timer := True\<rparr>))))"
    if "st_inv n s1" for u s1
    using that check_pending_inv [OF that] check_connected_inv [OF that, of now u]
    by (cases "check_connected now u s1") (auto simp: inv_rules split: option.splits)
  then show ?thesis
    using assms unfolding workloop_timer_elapsed_def
    by (auto simp: Let_def inv_rules intro!: st_intros)
qed

lemma begin_login_inv [inv_rules]: "st_inv n s \<Longrightarrow> st_inv n (snd (begin_login env now s))"
  unfolding begin_login_def by (auto simp: Let_def inv_rules intro!: st_intros)

lemma connect_handler_inv [inv_rules]: "st_inv n s \<Longrightarrow> st_inv n (snd (connect_handler env now err hs s))"
  unfolding connect_handler_def by (auto simp: Let_def inv_rules intro!: st_intros split: list.splits)

lemma onSend_inv [inv_rules]: "st_inv n s \<Longrightarrow> st_inv n (snd (onSendSocketDataCompleted now err s))"
  unfolding onSendSocketDataCompleted_def
  by (auto simp: Let_def inv_rules intro!: st_intros split: option.splits)

lemma processExtranonce_inv [inv_rules]: "st_inv n s \<Longrightarrow> st_inv n (snd (processExtranonce e s))"
  unfolding processExtranonce_def by (auto simp: Let_def inv_rules intro!: st_intros)

section \<open>Messages keep the invariant\<close>

lemma post_disconnect_inv [inv_rules]: "st_inv n s \<Longrightarrow> st_inv n (snd (post_disconnect s))"
  by (simp add: post_disconnect_def inv_rules)

lemma negotiation_failed_inv [inv_rules]: "st_inv n s \<Longrightarrow> st_inv n (snd (negotiation_failed u s))"
  by (simp add: negotiation_failed_def inv_rules)

lemma unauthorized_inv [inv_rules]: "st_inv n s \<Longrightarrow> st_inv n (snd (unauthorized s))"
  by (simp add: unauthorized_def inv_rules)

lemma accept_corestratum_inv [inv_rules]:
  assumes "st_inv n s"
  shows "st_inv n (snd (accept_corestratum env now u result s))"
proof -
  have k: "st_inv n (snd (case processExtranonce t s2 of (e, s3) \<Rightarrow>
        (case e of Some x \<Rightarrow> (Some x, s3) | None \<Rightarrow> (None, send js j (enqueue_response_plea now (s3\<lparr>st_authpending := True\<rparr>))))))"
    if "st_inv n s2" for t s2 js j
    using processExtranonce_inv [OF that, of t] that
    by (cases "processExtranonce t s2") (auto simp: inv_rules split: option.splits)
  show ?thesis
    using assms unfolding accept_corestratum_def by (auto simp: Let_def inv_rules intro!: st_intros k)
qed

lemma accept_other_inv [inv_rules]:
  "st_inv n s \<Longrightarrow> st_inv n (snd (accept_corestratum2 env now s))"
  "st_inv n s \<Longrightarrow> st_inv n (snd (accept_ethproxy env now s))"
  "st_inv n s \<Longrightarrow> st_inv n (snd (accept_stratum env now u s))"
  by (simp_all add: accept_corestratum2_def accept_ethproxy_def accept_stratum_def Let_def inv_rules)

lemma login_response_inv [inv_rules]: "st_inv n s \<Longrightarrow> st_inv n (snd (login_response env now e result s))"
  unfolding login_response_def by (auto simp: Let_def inv_rules intro!: st_intros)

lemma subscribe_response_inv [inv_rules]: "st_inv n s \<Longrightarrow> st_inv n (snd (subscribe_response env now result s))"
  unfolding subscribe_response_def
  by (auto simp: Let_def inv_rules intro!: st_intros split: option.splits)

lemma authorize_response_inv [inv_rules]: "st_inv n s \<Longrightarrow> st_inv n (snd (authorize_response env now e result s))"
  unfolding authorize_response_def
  by (auto simp: Let_def inv_rules intro!: st_intros split: option.splits)

lemma dequeue_max_id [simp]: "st_max_id (snd (dequeue_response_plea now s)) = st_max_id s"
  by (simp add: dequeue_response_plea_def Let_def split: list.splits)

lemma solution_response_inv [inv_rules]:
  assumes "st_inv n s" and "st_max_id s = Some m" and "40 \<le> ev_id e" and "ev_id e \<le> m"
  shows "st_inv n (snd (solution_response env now e r result s))"
proof -
  have "unat m < 40 + n" using assms(1,2) by (simp add: st_inv_def)
  moreover have "unat (ev_id e - 40) = unat (ev_id e) - 40" using assms(3) by (simp add: unat_sub)
  moreover have "unat (ev_id e) \<le> unat m" using assms(4) by (simp add: word_le_nat_alt)
  moreover have "40 \<le> unat (ev_id e)" using assms(3) by (simp add: word_le_nat_alt)
  ultimately have i: "unat (ev_id e - 40) < n" by simp
  have q: "st_inv n (snd (dequeue_response_plea now s))" using assms(1) by (simp add: inv_rules)
  show ?thesis
    unfolding solution_response_def
    using assms(1) i q by (auto simp: inv_rules case_prod_beta Let_def intro!: st_intros)
qed

lemma error_response_inv [inv_rules]: "st_inv n s \<Longrightarrow> st_inv n (snd (error_response e s))"
  unfolding error_response_def by (auto simp: inv_rules intro!: st_intros)

lemma handle_response_inv [inv_rules]: "st_inv n s \<Longrightarrow> st_inv n (snd (handle_response env now e r s))"
  unfolding handle_response_def by (auto simp: inv_rules intro!: st_intros)

section \<open>Notifications keep the invariant\<close>

lemma work_fields [inv_rules]:
  "st_inv n s \<Longrightarrow> st_inv n (upd_work (wp_job_update f1) s)"
  "st_inv n s \<Longrightarrow> st_inv n (upd_work (wp_block_update f2) s)"
  "st_inv n s \<Longrightarrow> length h = 32 \<Longrightarrow> st_inv n (upd_work (\<lambda>w. w\<lparr>wp_seed := h\<rparr>) s)"
  "st_inv n s \<Longrightarrow> length h = 32 \<Longrightarrow> st_inv n (upd_work (\<lambda>w. w\<lparr>wp_header := h\<rparr>) s)"
  "st_inv n s \<Longrightarrow> length h = 32 \<Longrightarrow> st_inv n (upd_work (\<lambda>w. w\<lparr>wp_boundary := h\<rparr>) s)"
  "st_inv n s \<Longrightarrow> length h = 32 \<Longrightarrow>
     st_inv n (upd_work (\<lambda>w. w\<lparr>wp_boundary := h, wp_startNonce := a, wp_exSizeBytes := b, wp_block := c\<rparr>) s)"
  "st_inv n s \<Longrightarrow> length h = 32 \<Longrightarrow>
     st_inv n (upd_work (\<lambda>w. w\<lparr>wp_boundary := h, wp_epoch := e, wp_algo := g, wp_startNonce := a, wp_exSizeBytes := b\<rparr>) s)"
  by (rule upd_work_inv, assumption, simp add: wp_wf_def)+

lemma ebind_Inr: "ebind r k = Inr v \<longleftrightarrow> (\<exists>x. r = Inr x \<and> k x = Inr v)"
  by (cases r) (simp_all add: ebind_def)

lemma notify_corestratum_inv [inv_rules]: "st_inv n s \<Longrightarrow> st_inv n (snd (notify_corestratum js now prm s))"
  unfolding notify_corestratum_def
  by (auto simp: Let_def inv_rules FixedHash_string_length intro!: st_intros)

lemma notify_plain_inv [inv_rules]: "st_inv n s \<Longrightarrow> st_inv n (snd (notify_plain js now u prm i s))"
  unfolding notify_plain_def
  by (auto simp: Let_def inv_rules FixedHash_string_length intro!: st_intros)

lemma mining_notify_inv [inv_rules]: "st_inv n s \<Longrightarrow> st_inv n (snd (mining_notify js now u r s))"
  unfolding mining_notify_def by (auto simp: Let_def inv_rules intro!: st_intros)

lemma mining_notify2_inv [inv_rules]: "st_inv n s \<Longrightarrow> st_inv n (snd (mining_notify2 js now r s))"
  unfolding mining_notify2_def
  by (auto simp: Let_def inv_rules FixedHash_string_length intro!: st_intros split: option.splits)

lemma set_difficulty_inv [inv_rules]: "st_inv n s \<Longrightarrow> st_inv n (snd (set_difficulty env r s))"
  unfolding set_difficulty_def
  by (auto simp: ebind_Inr inv_rules FixedHash_string_length intro!: st_intros)

lemma set_extranonce_inv [inv_rules]: "st_inv n s \<Longrightarrow> st_inv n (snd (set_extranonce js r s))"
  unfolding set_extranonce_def by (auto simp: inv_rules intro!: st_intros)

lemma opt_set_inv:
  "st_inv n s \<Longrightarrow> (\<And>g x. f t = Inr g \<Longrightarrow> length (se_nextWorkBoundary x) = 32 \<Longrightarrow> length (se_nextWorkBoundary (g x)) = 32) \<Longrightarrow>
     st_inv n (snd (opt_set t f s))"
  unfolding opt_set_def by (auto intro!: withv_inv session_upd_inv)

lemma map_sum_Inr: "map_sum id f r = Inr g \<longleftrightarrow> (\<exists>v. r = Inr v \<and> g = f v)"
  by (cases r) auto

lemma mining_set_inv [inv_rules]: "st_inv n s \<Longrightarrow> st_inv n (snd (mining_set js r s))"
  unfolding mining_set_def
  by (auto simp: Let_def inv_rules map_sum_Inr FixedHash_string_length intro!: st_intros opt_set_inv)

lemma handle_notification_inv [inv_rules]:
  "st_inv n s \<Longrightarrow> st_inv n (snd (handle_notification env now e m r s))"
  unfolding handle_notification_def by (auto simp: Let_def inv_rules intro!: st_intros)

lemma processResponse_inv [inv_rules]: "st_inv n s \<Longrightarrow> st_inv n (snd (processResponse env now r s))"
  unfolding processResponse_def by (auto simp: Let_def inv_rules intro!: st_intros)

section \<open>Submissions and received data keep the invariant\<close>

lemma submitHashrate_inv [inv_rules]: "st_inv n s \<Longrightarrow> st_inv n (snd (submitHashrate js rate i s))"
  unfolding submitHashrate_def by (auto simp: inv_rules intro!: st_intros)

lemma submit_id_inv:
  assumes "st_inv n s" and "st_max_id s = Some m" and "unat i < n" and "40 + n < 2 ^ 32"
  shows "st_inv n (s\<lparr>st_max_id := Some (max m (40 + i))\<rparr>)"
proof -
  have "unat (40 + i) = 40 + unat i" using assms(3,4) by (simp add: unat_word_ariths)
  then show ?thesis using assms(1-3) by (auto simp: st_inv_def max_def)
qed

lemma submitSolution_inv [inv_rules]:
  assumes "st_inv n s" and "unat (sol_midx sol) < n" and "40 + n < 2 ^ 32"
  shows "st_inv n (snd (submitSolution js now sol s))"
proof (cases "st_max_id s")
  case (Some m)
  then show ?thesis
    unfolding submitSolution_def using submit_id_inv [OF assms(1) Some assms(2,3)] assms(1)
    by (auto simp: Let_def inv_rules intro!: st_intros)
qed (simp add: submitSolution_def assms)

lemma process_line_inv [inv_rules]: "st_inv n s \<Longrightarrow> st_inv n (snd (process_line env now l s))"
  using processResponse_inv [of n s env now]
  by (auto simp: process_line_def Let_def case_prod_beta split: option.splits)

lemma process_lines_inv [inv_rules]: "st_inv n s \<Longrightarrow> st_inv n (snd (process_lines env now ls s))"
  by (induction ls arbitrary: s) (auto simp: inv_rules intro!: then_ok_inv)

lemma work_event_inv [inv_rules]:
  "st_inv n s \<Longrightarrow> st_inv n (event (OnWorkReceived (st_current s)) (s\<lparr>st_message := m\<rparr>))"
  by (simp add: st_inv_def event_def)

lemma onRecv_inv [inv_rules]: "st_inv n s \<Longrightarrow> st_inv n (snd (onRecvSocketDataCompleted env now rx s))"
  unfolding onRecvSocketDataCompleted_def
  by (auto simp: Let_def inv_rules case_prod_beta intro!: st_intros split: option.splits)

section \<open>The client as a machine\<close>

text \<open>
  The steps of the client: the calls of the manager, the handlers of the asynchronous operations,
  and the delivery of the collected events. Solutions come from one of the \<open>n\<close> miners.
\<close>

definition st_setConnection :: "nat \<Rightarrow> Stratum \<Rightarrow> Stratum" where
  "st_setConnection i s = (let (uris, s1) = setConnection i (st_uris s) s in s1\<lparr>st_uris := uris\<rparr>)"

inductive st_step :: "'j st_env \<Rightarrow> nat \<Rightarrow> Stratum \<Rightarrow> Stratum \<Rightarrow> bool" for env n where
  set_conn: "i < length (st_uris s) \<Longrightarrow> st_step env n s (st_setConnection i s)"
| unset_conn: "st_step env n s (unsetConnection s)"
| connect: "st_step env n s (snd (connect ep s))"
| disconnect: "st_step env n s (snd (disconnect now s))"
| resolved: "st_step env n s (snd (resolve_handler now eps s))"
| start: "st_step env n s (snd (start_connect now s))"
| connected: "st_step env n s (snd (connect_handler env now err hs s))"
| timer: "st_step env n s (snd (workloop_timer_elapsed (sv_js env) now aborted s))"
| received: "st_step env n s (snd (onRecvSocketDataCompleted env now rx s))"
| sent: "st_step env n s (snd (onSendSocketDataCompleted now err s))"
| shutdown: "st_step env n s (onSSLShutdownCompleted now s)"
| hashrate: "st_step env n s (snd (submitHashrate (sv_js env) rate idn s))"
| solution: "unat (sol_midx sol) < n \<Longrightarrow> 40 + n < 2 ^ 32 \<Longrightarrow> st_step env n s (snd (submitSolution (sv_js env) now sol s))"
| delivered: "st_step env n s (s\<lparr>st_events := []\<rparr>)"

inductive st_init :: "nat \<Rightarrow> Stratum \<Rightarrow> bool" for n where
  fresh: "st_init n (new_Stratum wt rt now uris)"

lemma new_Stratum_inv: "st_inv n (new_Stratum wt rt now uris)"
  by (simp add: st_inv_def new_Stratum_def new_PoolClient_def PoolClient.defs)

lemma st_manager_inv [inv_rules]:
  "st_inv n s \<Longrightarrow> i < length (st_uris s) \<Longrightarrow> st_inv n (st_setConnection i s)"
  "st_inv n s \<Longrightarrow> st_inv n (unsetConnection s)"
  "st_inv n s \<Longrightarrow> st_inv n (s\<lparr>st_events := []\<rparr>)"
  by (simp_all add: st_inv_def st_setConnection_def setConnection_def unsetConnection_def)

lemma st_step_inv: "st_step env n s t \<Longrightarrow> st_inv n s \<Longrightarrow> st_inv n t"
  by (induction rule: st_step.induct) (simp_all add: inv_rules)

lemma st_inv_events: "st_inv n s \<Longrightarrow> ev \<in> set (st_events s) \<Longrightarrow> event_ok n ev"
  by (simp add: st_inv_def list_all_iff)

interpretation stratum: pool_client st_init "st_step env" st_events st_inv
  by unfold_locales
    (auto elim!: st_init.cases intro: new_Stratum_inv st_step_inv st_inv_events)

end
