(* ===== verification/StratumProps.thy ===== *)
theory StratumProps
  imports StratumInv
begin

text \<open>
  What the stratum client does: autodetection of the dialect, timeouts, the stream of messages in
  both directions, the account of submitted solutions.
\<close>

section \<open>Autodetection\<close>

definition wire :: "'j jsonlib \<Rightarrow> jout \<Rightarrow> string" where
  "wire js r = js_write js r @ [CHR 0x0A]"

definition tx_idle :: "Stratum \<Rightarrow> bool" where
  "tx_idle s \<longleftrightarrow> \<not> st_txPending s \<and> st_txQueue s = [] \<and> st_sendBuffer s = []"

text \<open>
  The client against a pool that accepts every connection and answers a login with the text \<open>rx\<close>.
  A step executes one of the operations the client has left outstanding, with its own handler, and
  nothing else: the first posted handler, connection attempt or write; the read only when the pool
  has received everything, with \<open>rx\<close>, or, before anything else, when the socket has been closed, as
  the cancelled operation it is then. Connection attempts and writes are observed. A client that throws, or that
  has nothing outstanding, makes no step.
\<close>

definition next_op :: "Stratum \<Rightarrow> st_op option" where
  "next_op s =
     (if Async_read \<in> set (st_ops s) \<and> (\<not> socket_open s \<or> list_all (\<lambda>x. x = Async_read) (st_ops s)) then Some Async_read
      else List.find (\<lambda>x. x \<noteq> Async_read) (st_ops s))"

definition refuse_step :: "'j st_env \<Rightarrow> string \<Rightarrow> nat \<Rightarrow> Stratum \<Rightarrow> (st_op list \<times> Stratum) option" where
  "refuse_step env rx now s0 =
     (case next_op s0 of
        None \<Rightarrow> None
      | Some x \<Rightarrow>
          (let s = s0\<lparr>st_ops := remove1 x (st_ops s0)\<rparr>;
               done = (\<lambda>out r. case r of (None, t) \<Rightarrow> Some (out, t) | (Some e, t) \<Rightarrow> None)
           in case x of
                Post_start_connect \<Rightarrow> done [] (start_connect now s)
              | Async_connect ep \<Rightarrow> done [x] (connect_handler env now False True s)
              | Async_write b \<Rightarrow> done [x] (onSendSocketDataCompleted now None s)
              | Async_read \<Rightarrow> done [] (onRecvSocketDataCompleted env now (if socket_open s then Some rx else None) s)
              | Post_disconnect \<Rightarrow> done [] (disconnect now s)
              | _ \<Rightarrow> None))"

fun refuse_run :: "'j st_env \<Rightarrow> string \<Rightarrow> nat list \<Rightarrow> Stratum \<Rightarrow> (st_op list \<times> Stratum) option" where
  "refuse_run env rx [] s = Some ([], s)"
| "refuse_run env rx (now # ts) s =
     (case refuse_step env rx now s of
        None \<Rightarrow> None
      | Some (out, t) \<Rightarrow> map_option (\<lambda>(outs, v). (out @ outs, v)) (refuse_run env rx ts t))"

text \<open>The text is one message, the answer to the request 1, with an error.\<close>

definition refuses_login :: "'j st_env \<Rightarrow> string \<Rightarrow> bool" where
  "refuses_login env rx \<longleftrightarrow>
     (\<exists>l r e v. split_lines rx = ([l], []) \<and> l \<noteq> [] \<and> sv_trim env l \<noteq> [] \<and> js_parse (sv_js env) (sv_trim env l) = Some r \<and>
        (\<forall>s. read_envelope (sv_js env) s r = Inr e) \<and> invalid_message (sv_js env) e r = Inr False \<and>
        \<not> ev_isNotification e \<and> ev_id e = 1 \<and> \<not> ev_isSuccess e \<and> js_getd (sv_js env) r ''result'' JNull = Inr v)"

text \<open>
  A connection whose dialect is to be found out, and a client that is about to try the stratum mode
  \<open>m\<close> on it, at the address \<open>ep\<close>.
\<close>

definition autodetectable :: "URI \<Rightarrow> bool" where
  "autodetectable u \<longleftrightarrow>
     999 \<le> Version u \<and> SecLevel u = SL_NONE \<and> \<not> ur_unrecoverable u \<and> \<not> ur_stratumModeConfirmed u"

definition detecting :: "nat \<Rightarrow> string \<Rightarrow> URI \<Rightarrow> u16 \<Rightarrow> Stratum \<Rightarrow> bool" where
  "detecting i ep u m s \<longleftrightarrow>
     pc_conn s = Some i \<and> i < length (st_uris s) \<and> \<not> st_connecting s \<and> \<not> st_disconnecting s \<and> tx_idle s \<and>
     st_endpoints s \<noteq> [] \<and> hd (st_endpoints s) = ep \<and> (st_socket s = None \<or> st_socket s = Some Plain) \<and> pc_session s = None \<and>
     st_ops s = [Post_start_connect] \<and> (\<exists>b. st_uris s ! i = u\<lparr>ur_responds := b, ur_stratumMode := m\<rparr>)"

lemmas st_frame = op_def event_def conn_upd_def enqueue_response_plea_def clear_response_pleas_def
  drop_output_def set_socket_open_def st_isConnected_def isPendingState_def socket_open_def

lemma send_frame [simp]:
  "pc_conn (send js r s) = pc_conn s" "st_uris (send js r s) = st_uris s"
  "st_disconnecting (send js r s) = st_disconnecting s" "st_endpoints (send js r s) = st_endpoints s"
  "st_events (send js r s) = st_events s" "st_socket (send js r s) = st_socket s"
  "st_nonsecuresocket (send js r s) = st_nonsecuresocket s" "st_connecting (send js r s) = st_connecting s"
  by (simp_all add: send_def sendSocketData_def st_frame Let_def)

definition first_mode :: "u16 \<Rightarrow> u16" where
  "first_mode m = (if m = 999 then 3 else m)"

lemma URI_mode_frame [simp]:
  "Version (Responds b u) = Version u" "Version (SetStratumMode a b u) = Version u" "Version (SetStratumMode1 a u) = Version u"
  "SecLevel (Responds b u) = SecLevel u" "SecLevel (SetStratumMode a b u) = SecLevel u" "SecLevel (SetStratumMode1 a u) = SecLevel u"
  by (simp_all add: Version_def SecLevel_def attributes_def Responds_def SetStratumMode_def SetStratumMode1_def)

lemma choose_mode_detecting:
  assumes "999 \<le> Version u" and "\<not> ur_stratumModeConfirmed u"
  shows "choose_mode u = u\<lparr>ur_stratumMode := first_mode (ur_stratumMode u)\<rparr>"
  using assms by (auto simp: choose_mode_def first_mode_def SetStratumMode_def)

lemma URI_upd_frame [simp]:
  "Version (u\<lparr>ur_responds := b\<rparr>) = Version u" "Version (u\<lparr>ur_stratumMode := m\<rparr>) = Version u"
  "SecLevel (u\<lparr>ur_responds := b\<rparr>) = SecLevel u" "SecLevel (u\<lparr>ur_stratumMode := m\<rparr>) = SecLevel u"
  by (simp_all add: Version_def SecLevel_def attributes_def)

lemma autodetectable_upd [simp]: "autodetectable (u\<lparr>ur_responds := b, ur_stratumMode := m\<rparr>) = autodetectable u"
  by (simp add: autodetectable_def)

lemma login_request_upd:
  "login_request ver (u\<lparr>ur_responds := b, ur_stratumMode := m\<rparr>) = login_request ver (u\<lparr>ur_stratumMode := m\<rparr>)"
  by (simp add: login_request_def hello_params_def)

text \<open>
  A client connected to \<open>ep\<close> during the login: its connection has the URI \<open>u\<close>, the operations \<open>os\<close> are
  outstanding and the events \<open>es\<close> have been reported.
\<close>

definition logging_in :: "nat \<Rightarrow> string \<Rightarrow> URI \<Rightarrow> st_op list \<Rightarrow> client_event list \<Rightarrow> Stratum \<Rightarrow> bool" where
  "logging_in i ep u os es s \<longleftrightarrow>
     pc_conn s = Some i \<and> i < length (st_uris s) \<and> st_uris s ! i = u \<and> \<not> st_connecting s \<and> \<not> st_disconnecting s \<and>
     pc_connected s \<and> st_endpoints s \<noteq> [] \<and> hd (st_endpoints s) = ep \<and>
     st_socket s = Some Plain \<and> st_nonsecuresocket s = Some True \<and>
     pc_session s = None \<and> st_message s = [] \<and> st_ops s = os \<and> st_events s = es"

lemmas refuse_defs = refuse_step_def next_op_def Let_def

lemma login_started:
  assumes "detecting i ep u m s" and "autodetectable u"
  shows "\<exists>t. refuse_run env rx [n1, n2] s = Some ([Async_connect ep], t) \<and>
    logging_in i ep (u\<lparr>ur_responds := True, ur_stratumMode := first_mode m\<rparr>)
      [Async_read, Async_write (wire (sv_js env) (login_request (sv_version env) (u\<lparr>ur_stratumMode := first_mode m\<rparr>)))]
      (st_events s) t \<and> st_txPending t \<and> st_txQueue t = []"
proof -
  obtain b where b: "st_uris s ! i = u\<lparr>ur_responds := b, ur_stratumMode := m\<rparr>" using assms(1) by (auto simp: detecting_def)
  have u: "SecLevel (st_uris s ! i) = SL_NONE" "autodetectable (st_uris s ! i)"
    using assms(2) unfolding b autodetectable_upd by (simp_all add: autodetectable_def)
  obtain eps where ep: "st_endpoints s = ep # eps" using assms(1) by (cases "st_endpoints s") (auto simp: detecting_def)
  define t where "t = snd (start_connect n1 (s\<lparr>st_ops := []\<rparr>))"
  have t: "refuse_step env rx n1 s = Some ([], t)" "st_ops t = [Async_connect ep]" "st_socket t = Some Plain"
    "st_nonsecuresocket t = Some True" "pc_conn t = Some i" "st_uris t = st_uris s" "\<not> st_disconnecting t" "tx_idle t"
    "st_endpoints t = ep # eps" "st_events t = st_events s" "pc_session t = None"
    using assms(1) ep u
    by (auto simp: t_def detecting_def tx_idle_def start_connect_def with_uri_def init_if_needed_def init_socket_def
        st_frame refuse_defs)
  let ?u = "u\<lparr>ur_responds := True, ur_stratumMode := first_mode m\<rparr>"
  have i: "i < length (st_uris s)" using assms(1) by (simp add: detecting_def)
  have c: "choose_mode (Responds True (st_uris s ! i)) = ?u"
    using choose_mode_detecting [of "Responds True (st_uris s ! i)"] u(2)
    by (simp add: autodetectable_def b Responds_def)
  then have uris: "upd_uri choose_mode i (upd_uri (Responds True) i (st_uris s)) = (st_uris s)[i := ?u]"
    using i by (simp add: upd_uri_def)
  let ?v = "snd (connect_handler env n2 False True (t\<lparr>st_ops := []\<rparr>))"
  have "refuse_step env rx n2 t = Some ([Async_connect ep], ?v) \<and>
    logging_in i ep ?u [Async_read, Async_write (wire (sv_js env) (login_request (sv_version env) ?u))] (st_events s) ?v \<and>
    st_txPending ?v \<and> st_txQueue ?v = []"
    using t(2-) u(1) uris i
    by (simp add: refuse_defs connect_handler_def begin_login_def with_uri_def st_frame logging_in_def tx_idle_def
        send_def sendSocketData_def wire_def)
  then show ?thesis using t(1) by (simp add: login_request_upd)
qed

lemma login_written:
  assumes "logging_in i ep u [Async_read, Async_write b] es s" and "st_txPending s" and "st_txQueue s = []"
  shows "\<exists>t. refuse_step env rx now s = Some ([Async_write b], t) \<and> logging_in i ep u [Async_read] es t \<and> tx_idle t"
  using assms by (simp add: refuse_defs logging_in_def onSendSocketDataCompleted_def tx_idle_def socket_open_def)

lemma dequeue_frame [simp]:
  "pc_conn (snd (dequeue_response_plea now s)) = pc_conn s" "st_uris (snd (dequeue_response_plea now s)) = st_uris s"
  "st_disconnecting (snd (dequeue_response_plea now s)) = st_disconnecting s"
  "st_endpoints (snd (dequeue_response_plea now s)) = st_endpoints s"
  "st_events (snd (dequeue_response_plea now s)) = st_events s" "st_socket (snd (dequeue_response_plea now s)) = st_socket s"
  "st_nonsecuresocket (snd (dequeue_response_plea now s)) = st_nonsecuresocket s"
  "st_connecting (snd (dequeue_response_plea now s)) = st_connecting s"
  by (simp_all add: dequeue_response_plea_def Let_def split: list.splits)

lemma dequeue_login [simp]:
  "logging_in i ep u os es (snd (dequeue_response_plea now s)) = logging_in i ep u os es s"
  "tx_idle (snd (dequeue_response_plea now s)) = tx_idle s"
  by (simp_all add: dequeue_response_plea_def logging_in_def tx_idle_def Let_def split: list.splits)

lemma refused_login:
  assumes "pc_conn s = Some i" and "\<not> ev_isSuccess e" and "\<not> ur_stratumModeConfirmed (st_uris s ! i)"
  shows "login_response env now e result s = (None, op Post_disconnect (snd (dequeue_response_plea now s)))"
  using assms by (simp add: login_response_def with_uri_def Let_def post_disconnect_def)

lemma login_refused:
  assumes "logging_in i ep u [Async_read] es s" and "tx_idle s" and "refuses_login env rx" and "autodetectable u"
  shows "\<exists>t. refuse_step env rx now s = Some ([], t) \<and> logging_in i ep u [Post_disconnect, Async_read] es t \<and> tx_idle t"
proof -
  obtain l r e v where r: "split_lines rx = ([l], [])" "l \<noteq> []" "sv_trim env l \<noteq> []"
    "js_parse (sv_js env) (sv_trim env l) = Some r" "\<And>s. read_envelope (sv_js env) s r = Inr e"
    "invalid_message (sv_js env) e r = Inr False" "\<not> ev_isNotification e" "ev_id e = 1" "\<not> ev_isSuccess e"
    "js_getd (sv_js env) r ''result'' JNull = Inr v"
    using assms(3) unfolding refuses_login_def by blast
  let ?s = "s\<lparr>st_ops := [], st_newjobprocessed := False\<rparr>"
  let ?q = "snd (dequeue_response_plea now ?s)"
  have s: "logging_in i ep u [] es ?s" "tx_idle ?s" using assms(1,2) by (simp_all add: logging_in_def tx_idle_def)
  then have q: "logging_in i ep u [] es ?q" "tx_idle ?q" by simp_all
  have n: "\<not> st_newjobprocessed ?q" by (simp add: dequeue_response_plea_def Let_def split: list.splits)
  have "processResponse env now r ?s = (None, op Post_disconnect ?q)"
    using s(1) assms(4) r refused_login [of ?s i e env now v]
    by (simp add: processResponse_def handle_response_def logging_in_def autodetectable_def)
  then have "process_line env now l ?s = (None, op Post_disconnect ?q)"
    using r by (simp add: process_line_def Let_def)
  then have "onRecvSocketDataCompleted env now (Some rx) (s\<lparr>st_ops := []\<rparr>) =
      (None, op Async_read ((op Post_disconnect ?q)\<lparr>st_message := []\<rparr>))"
    using assms(1) q(1) n r(1)
    by (simp add: onRecvSocketDataCompleted_def then_ok_def logging_in_def st_frame)
  then have "refuse_step env rx now s = Some ([], op Async_read ((op Post_disconnect ?q)\<lparr>st_message := []\<rparr>))"
    using assms(1) by (simp add: refuse_defs logging_in_def socket_open_def)
  then show ?thesis using q by (simp add: logging_in_def op_def tx_idle_def)
qed

text \<open>The end of an attempt: the next lower mode is tried, or the connection is given up.\<close>

lemma login_disconnected:
  assumes "logging_in i ep (u\<lparr>ur_responds := True, ur_stratumMode := m\<rparr>) [Post_disconnect, Async_read] es s" and "tx_idle s"
    and "autodetectable u"
  shows "\<exists>t. refuse_run env rx [n1, n2] s = Some ([], t) \<and>
    (if 0 < m then detecting i ep u (m - 1) t \<and> st_events t = es
     else st_ops t = [] \<and> st_events t = es @ [OnDisconnected] \<and> ur_unrecoverable (st_uris t ! i))"
proof -
  let ?u = "u\<lparr>ur_responds := True, ur_stratumMode := m\<rparr>"
  have u: "SecLevel ?u = SL_NONE" "\<not> ur_unrecoverable ?u" "\<not> ur_stratumModeConfirmed ?u"
    using assms(3) by (simp_all add: autodetectable_def)
  let ?t = "snd (disconnect n1 (s\<lparr>st_ops := [Async_read]\<rparr>))"
  have 1: "refuse_step env rx n1 s = Some ([], ?t)" "pc_conn ?t = Some i" "length (st_uris ?t) = length (st_uris s)"
    "st_socket ?t = None" "\<not> st_connecting ?t" "\<not> st_disconnecting ?t" "pc_session ?t = None" "tx_idle ?t"
    "st_endpoints ?t = st_endpoints s" "\<not> pc_connected ?t"
    "st_ops ?t = Async_read # (if 0 < m then [Post_start_connect] else [])"
    "st_events ?t = es @ (if 0 < m then [] else [OnDisconnected])"
    "st_uris ?t ! i = (if 0 < m then ?u\<lparr>ur_stratumMode := m - 1\<rparr> else ?u\<lparr>ur_unrecoverable := True\<rparr>)"
    using assms(1,2) u
    by (auto simp: refuse_defs disconnect_def disconnect_finalize_def autodetect_def with_uri_def st_frame logging_in_def
        tx_idle_def upd_uri_nth SetStratumMode1_def MarkUnrecoverable_def)
  have 2: "refuse_step env rx n2 ?t = Some ([], ?t\<lparr>st_ops := (if 0 < m then [Post_start_connect] else [])\<rparr>)"
    using 1(4,10,11) by (simp add: refuse_defs socket_open_def onRecvSocketDataCompleted_def st_isConnected_def)
  show ?thesis
    using 1 2 assms(1) by (auto simp: detecting_def logging_in_def tx_idle_def)
qed

lemma refuse_run_append:
  "refuse_run env rx (ts @ ts') s =
     (case refuse_run env rx ts s of None \<Rightarrow> None
      | Some (out, t) \<Rightarrow> map_option (\<lambda>(outs, v). (out @ outs, v)) (refuse_run env rx ts' t))"
proof (induction ts arbitrary: s)
  case Nil
  show ?case by (simp add: case_prod_beta option.map_id)
next
  case (Cons now ts)
  show ?case
  proof (cases "refuse_step env rx now s")
    case (Some x)
    then show ?thesis by (cases x, cases "refuse_run env rx ts (snd x)") (auto simp: Cons.IH option.map_comp comp_def split_def)
  qed simp
qed

text \<open>An attempt takes six steps.\<close>

lemma split_six: "length ts = 6 + n \<Longrightarrow> \<exists>a b. ts = a @ b \<and> length a = 6 \<and> length b = n"
  by (intro exI [of _ "take 6 ts"] exI [of _ "drop 6 ts"]) simp

lemma login_attempt:
  assumes "detecting i ep u m s" and "autodetectable u" and "refuses_login env rx" and "length ts = 6"
  shows "\<exists>t. refuse_run env rx ts s =
      Some ([Async_connect ep, Async_write (wire (sv_js env) (login_request (sv_version env) (u\<lparr>ur_stratumMode := first_mode m\<rparr>)))], t) \<and>
    (if 0 < first_mode m then detecting i ep u (first_mode m - 1) t \<and> st_events t = st_events s
     else st_ops t = [] \<and> st_events t = st_events s @ [OnDisconnected] \<and> ur_unrecoverable (st_uris t ! i))"
proof -
  obtain n1 n2 n3 n4 n5 n6 where ts: "ts = [n1, n2] @ [n3, n4] @ [n5, n6]"
    using assms(4) by (auto simp: numeral_eq_Suc length_Suc_conv)
  obtain a where a: "refuse_run env rx [n1, n2] s = Some ([Async_connect ep], a)"
    "logging_in i ep (u\<lparr>ur_responds := True, ur_stratumMode := first_mode m\<rparr>)
      [Async_read, Async_write (wire (sv_js env) (login_request (sv_version env) (u\<lparr>ur_stratumMode := first_mode m\<rparr>)))]
      (st_events s) a" "st_txPending a" "st_txQueue a = []"
    using login_started [OF assms(1,2)] by blast
  obtain b where b: "refuse_step env rx n3 a =
      Some ([Async_write (wire (sv_js env) (login_request (sv_version env) (u\<lparr>ur_stratumMode := first_mode m\<rparr>)))], b)"
    "logging_in i ep (u\<lparr>ur_responds := True, ur_stratumMode := first_mode m\<rparr>) [Async_read] (st_events s) b" "tx_idle b"
    using login_written [OF a(2-4)] by blast
  obtain c where c: "refuse_step env rx n4 b = Some ([], c)"
    "logging_in i ep (u\<lparr>ur_responds := True, ur_stratumMode := first_mode m\<rparr>) [Post_disconnect, Async_read] (st_events s) c" "tx_idle c"
    using login_refused [OF b(2,3) assms(3)] assms(2) by auto
  obtain t where t: "refuse_run env rx [n5, n6] c = Some ([], t)"
    "if 0 < first_mode m then detecting i ep u (first_mode m - 1) t \<and> st_events t = st_events s
     else st_ops t = [] \<and> st_events t = st_events s @ [OnDisconnected] \<and> ur_unrecoverable (st_uris t ! i)"
    using login_disconnected [OF c(2,3) assms(2)] by blast
  have "refuse_run env rx [n3, n4] a =
      Some ([Async_write (wire (sv_js env) (login_request (sv_version env) (u\<lparr>ur_stratumMode := first_mode m\<rparr>)))], c)"
    by (simp add: b(1) c(1))
  then have "refuse_run env rx ts s =
      Some ([Async_connect ep, Async_write (wire (sv_js env) (login_request (sv_version env) (u\<lparr>ur_stratumMode := first_mode m\<rparr>)))], t)"
    unfolding ts refuse_run_append by (simp add: a(1) t(1) del: refuse_run.simps)
  with t(2) show ?thesis by blast
qed

text \<open>
  C18: A pool configured without a dialect (scheme \<open>stratum\<close>) that answers each login with an error.
  Executing only the operations the client itself has left outstanding, with its own handlers and at
  any times, the client connects exactly four times and writes one login over each connection, in the
  modes 3, 2, 1 and 0; then it has reported one disconnection to the manager, marked the connection
  unrecoverable and nothing is outstanding. So the autodetection ends.
\<close>

theorem autodetection_schedule:
  assumes "detecting i ep u 999 s" and "autodetectable u" and "refuses_login env rx" and "length clock = 24"
  shows "\<exists>t. refuse_run env rx clock s =
      Some (concat (map (\<lambda>m. [Async_connect ep,
        Async_write (wire (sv_js env) (login_request (sv_version env) (u\<lparr>ur_stratumMode := m\<rparr>)))]) [3, 2, 1, 0]), t) \<and>
    st_ops t = [] \<and> st_events t = st_events s @ [OnDisconnected] \<and> ur_unrecoverable (st_uris t ! i)"
proof -
  let ?w = "\<lambda>m. Async_write (wire (sv_js env) (login_request (sv_version env) (u\<lparr>ur_stratumMode := m\<rparr>)))"
  obtain t1 r1 where 1: "clock = t1 @ r1" "length t1 = 6" "length r1 = 18" using split_six [of clock 18] assms(4) by auto
  obtain t2 r2 where 2: "r1 = t2 @ r2" "length t2 = 6" "length r2 = 12" using split_six [of r1 12] 1(3) by auto
  obtain t3 t4 where 3: "r2 = t3 @ t4" "length t3 = 6" "length t4 = 6" using split_six [of r2 6] 2(3) by auto
  obtain a where a: "refuse_run env rx t1 s = Some ([Async_connect ep, ?w 3], a)" "detecting i ep u 2 a" "st_events a = st_events s"
    using login_attempt [OF assms(1-3) 1(2)] by (auto simp: first_mode_def)
  obtain b where b: "refuse_run env rx t2 a = Some ([Async_connect ep, ?w 2], b)" "detecting i ep u 1 b" "st_events b = st_events s"
    using login_attempt [OF a(2) assms(2,3) 2(2)] a(3) by (auto simp: first_mode_def)
  obtain c where c: "refuse_run env rx t3 b = Some ([Async_connect ep, ?w 1], c)" "detecting i ep u 0 c" "st_events c = st_events s"
    using login_attempt [OF b(2) assms(2,3) 3(2)] b(3) by (auto simp: first_mode_def)
  obtain d where d: "refuse_run env rx t4 c = Some ([Async_connect ep, ?w 0], d)" "st_ops d = []" "st_events d = st_events s @ [OnDisconnected]"
    "ur_unrecoverable (st_uris d ! i)"
    using login_attempt [OF c(2) assms(2,3) 3(3)] c(3) by (auto simp: first_mode_def)
  have "refuse_run env rx clock s = Some (concat (map (\<lambda>m. [Async_connect ep, ?w m]) [3, 2, 1, 0]), d)"
    unfolding 1(1) 2(1) 3(1) by (simp add: refuse_run_append a(1) b(1) c(1) d(1))
  with d show ?thesis by simp
qed

definition sample_st_env :: "(string \<times> jout) list \<Rightarrow> jout st_env" where
  "sample_st_env table =
     \<lparr>sv_js = sample_json table, sv_version = ''coreminer'', sv_mp = sample_mp, sv_boost = sample_boost,
      sv_rnd = id, sv_trim = id\<rparr>"

definition sample_client :: "string \<Rightarrow> Stratum" where
  "sample_client sch =
     (new_Stratum 180 2 0 [(empty_URI sch 0)\<lparr>ur_scheme := sch, ur_host := ''eu'', ur_hostType := HT_Dns\<rparr>])
       \<lparr>pc_conn := Some 0, st_endpoints := [''10.0.0.1:4444'']\<rparr>"

lemmas sample_client_defs = sample_client_def new_Stratum_def new_PoolClient_def PoolClient.defs empty_URI_def
  Version_def SecLevel_def attributes_def s_schemes_def scheme_def

definition sample_refusal :: jout where
  "sample_refusal = JObj [(''id'', JInt 1), (''result'', JNull), (''error'', JStr ''no'')]"

definition sample_starting_client :: Stratum where
  "sample_starting_client = op Post_start_connect (sample_client ''stratum'')"

lemma sample_refuses: "refuses_login (sample_st_env [(''x'', sample_refusal)]) [CHR ''x'', CHR 0x0A]"
proof -
  let ?env = "sample_st_env [(''x'', sample_refusal)]" and ?js = "sample_json [(''x'', sample_refusal)]"
  let ?e = "\<lparr>ev_rpcVer = 1, ev_id = 1, ev_isSuccess = False, ev_errReason = ''no'', ev_method = [], ev_isNotification = False\<rparr>"
  have env: "sv_js ?env = ?js" "sv_trim ?env = id" by (simp_all add: sample_st_env_def)
  have parts: "js_isMember ?js sample_refusal ''jsonrpc'' = Inr False"
    "ebind (js_getd ?js sample_refusal ''id'' (JInt 0)) (js_asUInt ?js) = Inr 1"
    "js_getd ?js sample_refusal ''error'' JNull = Inr (JStr ''no'')" "js_empty ?js (JStr ''no'') = False"
    "processError ?js sample_refusal = Inr ''no''" "str_member ?js sample_refusal ''method'' [] = Inr []"
    by code_simp+
  have "\<forall>s. read_envelope (sv_js ?env) s sample_refusal = Inr ?e"
    unfolding env by (simp add: read_envelope_def parts envelope_method_def)
  moreover have "invalid_message (sv_js ?env) ?e sample_refusal = Inr False" by (simp add: invalid_message_def)
  moreover have "split_lines [CHR ''x'', CHR 0x0A] = ([''x''], [])" "js_parse ?js ''x'' = Some sample_refusal"
    "js_getd ?js sample_refusal ''result'' JNull = Inr JNull"
    by code_simp+
  ultimately show ?thesis
    unfolding refuses_login_def env
    by (intro exI [of _ "''x''"] exI [of _ sample_refusal] exI [of _ ?e] exI [of _ JNull]) simp
qed

lemma autodetection_schedule_witness:
  "\<exists>ws t. refuse_run (sample_st_env [(''x'', sample_refusal)]) [CHR ''x'', CHR 0x0A] [0..<24] sample_starting_client = Some (ws, t) \<and>
     length ws = 8 \<and> st_events t = [OnDisconnected] \<and> st_ops t = []"
proof -
  let ?u = "st_uris sample_starting_client ! 0"
  have "detecting 0 ''10.0.0.1:4444'' ?u 999 sample_starting_client" "autodetectable ?u" "st_events sample_starting_client = []"
    by (simp_all add: detecting_def autodetectable_def sample_starting_client_def op_def tx_idle_def sample_client_defs)
      (intro exI [of _ False], simp)
  from autodetection_schedule [OF this(1,2) sample_refuses, of "[0..<24]"] this(3) show ?thesis by auto
qed

section \<open>Timeouts\<close>

text \<open>
  C39: The timeout of a connection attempt is checked the wrong way round. A timer that elapses while
  the attempt is younger than the response timeout closes the socket; the timer is not armed again,
  and even a successful completion then discards the endpoint and tries the next one, without a
  running timer. An attempt older than the response timeout is left alone.
\<close>

theorem connect_timeout_inverted:
  assumes "st_connecting s" and "st_socket s \<noteq> None" and "st_pleas_count s \<noteq> 0" and "pc_conn s = Some i"
    and "pc_session s = None" and "st_endpoints s = ep # eps"
  shows "let (e, t) = workloop_timer_elapsed js now False s; (e', t') = connect_handler env now' False handshake t in
    e = None \<and>
    (if int (now - st_plea_older s) \<le> st_responsetimeout s * 1000
     then \<not> socket_open t \<and> \<not> st_timer t \<and> e' = None \<and> st_endpoints t' = eps \<and>
          st_ops t' = st_ops s @ [Post_start_connect] \<and> \<not> st_timer (snd (start_connect now'' t'))
     else t = s\<lparr>st_timer := True\<rparr>)"
proof -
  let ?c = "set_socket_open False (s\<lparr>st_timer := False\<rparr>)"
  have w: "workloop_timer_elapsed js now False s =
      (None, if int (now - st_plea_older s) \<le> st_responsetimeout s * 1000 then ?c else s\<lparr>st_timer := True\<rparr>)"
    using assms by (auto simp: workloop_timer_elapsed_def with_uri_def keep_session_alive_def check_pending_def
        check_connected_def isPendingState_def st_isConnected_def Let_def)
  have c: "\<not> socket_open ?c" "\<not> st_timer ?c" "pc_conn ?c = Some i" "st_endpoints ?c = ep # eps" "st_socket ?c \<noteq> None" "st_ops ?c = st_ops s"
    using assms by (auto simp: set_socket_open_def socket_open_def split: option.splits sock_ref.splits)
  let ?d = "op Post_start_connect ((set_socket_open False (?c\<lparr>st_connecting := False\<rparr>))\<lparr>st_endpoints := eps\<rparr>)"
  have h: "connect_handler env now' False handshake ?c = (None, ?d)"
    using c by (simp add: connect_handler_def Let_def socket_open_def split: option.splits sock_ref.splits)
  have d: "st_endpoints ?d = eps" "st_ops ?d = st_ops s @ [Post_start_connect]" "\<not> st_timer ?d"
    using c by (auto simp: op_def set_socket_open_def split: option.splits sock_ref.splits)
  have "\<not> st_timer (snd (start_connect now'' v))" if "\<not> st_timer v" for v
    using that
    by (auto simp: start_connect_def disconnect_finalize_def autodetect_def with_uri_def init_if_needed_def init_socket_def
        st_frame Let_def split: list.splits option.splits sock_ref.splits)
  with c d h show ?thesis by (simp add: w Let_def split: prod.splits)
qed

text \<open>An attempt that has been running for a second, with a response timeout of two seconds.\<close>

definition sample_connecting_client :: Stratum where
  "sample_connecting_client = snd (start_connect 0 (sample_client ''stratum''))"

lemma sample_connecting_client_state:
  "st_connecting sample_connecting_client" "st_socket sample_connecting_client = Some Plain"
  "st_pleas_count sample_connecting_client = 1" "pc_conn sample_connecting_client = Some 0"
  "pc_session sample_connecting_client = None" "st_endpoints sample_connecting_client = [''10.0.0.1:4444'']"
  "st_plea_older sample_connecting_client = 0" "st_responsetimeout sample_connecting_client = 2"
  by (simp_all add: sample_connecting_client_def start_connect_def sample_client_defs with_uri_def init_if_needed_def
      init_socket_def st_frame Let_def)

lemma connect_timeout_inverted_witness:
  "st_endpoints (snd (connect_handler (sample_st_env []) 1500 False True
     (snd (workloop_timer_elapsed (sample_json []) 1000 False sample_connecting_client)))) = []"
  using connect_timeout_inverted [of sample_connecting_client 0 "''10.0.0.1:4444''" "[]" "sample_json []" 1000
      "sample_st_env []" 1500 True 2000]
  by (simp add: sample_connecting_client_state split: prod.splits)

section \<open>Messages that are refused\<close>

lemma conn_mode_op [simp]: "conn_mode (op x s) = conn_mode s"
  by (simp add: conn_mode_def op_def split: option.splits)

lemma read_envelope_op [simp]: "read_envelope js (op x s) r = read_envelope js s r"
  by (simp add: read_envelope_def envelope_method_def cong: if_cong)

lemma process_invalid_line:
  assumes "line \<noteq> []" and "sv_trim env line \<noteq> []" and "js_parse (sv_js env) (sv_trim env line) = Some r"
    and "read_envelope (sv_js env) s r = Inr e" and "invalid_message (sv_js env) e r = Inr True"
  shows "process_line env now line s = (None, op Post_disconnect s)"
  using assms by (simp add: process_line_def processResponse_def post_disconnect_def Let_def)

lemma finalize_final:
  assumes "pc_conn s = Some i" and "ur_stratumModeConfirmed (st_uris s ! i) \<or> ur_unrecoverable (st_uris s ! i)"
  shows "fst (disconnect_finalize now s) = None \<and>
    st_events (snd (disconnect_finalize now s)) = st_events s @ [OnDisconnected] \<and>
    \<not> st_disconnecting (snd (disconnect_finalize now s)) \<and> st_socket (snd (disconnect_finalize now s)) = None"
  using assms
  by (cases "pc_session s")
    (auto simp: disconnect_finalize_def autodetect_def with_uri_def op_def event_def conn_upd_def clear_response_pleas_def Let_def)

lemma set_socket_open_frame [simp]:
  "pc_conn (set_socket_open b s) = pc_conn s" "st_uris (set_socket_open b s) = st_uris s"
  "st_events (set_socket_open b s) = st_events s"
  by (simp_all add: set_socket_open_def split: option.split sock_ref.split)

lemma disconnect_final:
  assumes "pc_conn s = Some i" and "SecLevel (st_uris s ! i) = SL_NONE" and "\<not> st_disconnecting s"
    and "ur_stratumModeConfirmed (st_uris s ! i) \<or> ur_unrecoverable (st_uris s ! i)" and "st_socket s = None \<or> socket_open s"
  shows "fst (disconnect now s) = None \<and> st_events (snd (disconnect now s)) = st_events s @ [OnDisconnected] \<and>
    \<not> st_disconnecting (snd (disconnect now s)) \<and> st_socket (snd (disconnect now s)) = None"
proof -
  let ?s = "s\<lparr>st_disconnecting := True, pc_connected := False\<rparr>"
  have "socket_open ?s = socket_open s" by (simp add: socket_open_def split: option.split sock_ref.split)
  then have "disconnect now s = disconnect_finalize now (if socket_open s then set_socket_open False ?s else ?s)"
    using assms by (auto simp: disconnect_def with_uri_def)
  then show ?thesis
    using finalize_final [of "if socket_open s then set_socket_open False ?s else ?s" i now] assms by simp
qed

lemma socket_open_ops [simp]: "socket_open (s\<lparr>st_ops := x\<rparr>) = socket_open s"
  by (simp add: socket_open_def split: option.split sock_ref.split)

text \<open>
  A disconnection between \<open>connect()\<close> and the opening of the socket, which \<open>setActiveConnection\<close>
  may request at any time, throws; the client then counts as disconnecting for ever, since no later
  call does anything.
\<close>

theorem disconnect_unopened:
  assumes "st_socket s = None" and "\<not> st_connecting s" and "\<not> st_disconnecting s" and "pc_conn s = Some i"
    and "ur_hostType (st_uris s ! i) = HT_Dns"
  shows "\<exists>t. connect ep s = (None, t) \<and>
    (\<exists>v. disconnect now t = (Some (RuntimeError ''cancel: Bad file descriptor''), v) \<and> isPendingState v \<and>
       st_events v = st_events s \<and> (\<forall>now'. disconnect now' v = (None, v)))"
  using assms
  by (auto simp: connect_def with_uri_def init_if_needed_def init_socket_def disconnect_def st_frame Let_def)

lemma disconnect_unopened_witness:
  "\<exists>v. disconnect 1 (snd (connect (\<lambda>h p. Inr h) (sample_client ''stratum''))) =
     (Some (RuntimeError ''cancel: Bad file descriptor''), v) \<and> isPendingState v"
  using disconnect_unopened [of "sample_client ''stratum''" 0 "\<lambda>h p. Inr h" 1]
  by (auto simp: sample_client_defs)

text \<open>
  A transmission with two invalid messages posts two disconnections. The first one reports the
  end of the connection to the manager, which takes the connection object away; the second one then
  uses an object that does not exist.
\<close>

theorem two_invalid_messages:
  assumes "line1 \<noteq> []" and "sv_trim env line1 \<noteq> []" and "js_parse (sv_js env) (sv_trim env line1) = Some r1"
    and "read_envelope (sv_js env) s r1 = Inr e1" and "invalid_message (sv_js env) e1 r1 = Inr True"
    and "line2 \<noteq> []" and "sv_trim env line2 \<noteq> []" and "js_parse (sv_js env) (sv_trim env line2) = Some r2"
    and "read_envelope (sv_js env) s r2 = Inr e2" and "invalid_message (sv_js env) e2 r2 = Inr True"
    and "pc_conn s = Some i" and "SecLevel (st_uris s ! i) = SL_NONE" and "\<not> st_disconnecting s"
    and "ur_stratumModeConfirmed (st_uris s ! i) \<or> ur_unrecoverable (st_uris s ! i)" and "st_socket s = None \<or> socket_open s"
  shows "let t = snd (process_lines env now [line1, line2] s); (e, v) = disconnect now1 t in
    st_ops t = st_ops s @ [Post_disconnect, Post_disconnect] \<and> e = None \<and> st_events v = st_events s @ [OnDisconnected] \<and>
    fst (disconnect now2 (unsetConnection v)) = Some UndefinedBehaviour"
proof -
  let ?t = "op Post_disconnect (op Post_disconnect s)"
  have 1: "process_line env now line1 s = (None, op Post_disconnect s)"
    using process_invalid_line [OF assms(1-5)] .
  have 2: "process_line env now line2 (op Post_disconnect s) = (None, ?t)"
    using process_invalid_line [OF assms(6-8) _ assms(10), of "op Post_disconnect s"] assms(9) by simp
  have p: "process_lines env now [line1, line2] s = (None, ?t)"
    by (simp add: 1 2 then_ok_def)
  have d: "fst (disconnect now1 ?t) = None" "st_events (snd (disconnect now1 ?t)) = st_events s @ [OnDisconnected]"
    "\<not> st_disconnecting (snd (disconnect now1 ?t))" "st_socket (snd (disconnect now1 ?t)) = None"
    using disconnect_final [of ?t i now1] assms(11-15) by (simp_all add: op_def)
  have "fst (disconnect now2 (unsetConnection (snd (disconnect now1 ?t)))) = Some UndefinedBehaviour"
    using d(3,4) by (simp add: disconnect_def disconnect_finalize_def unsetConnection_def with_uri_def socket_open_def Let_def)
  with d show ?thesis unfolding p by (simp add: case_prod_beta Let_def) (simp add: op_def)
qed

lemma two_invalid_messages_witness:
  "\<exists>s. st_ops (snd (process_lines (sample_st_env [(''x'', JObj [(''jsonrpc'', JStr ''1.0'')])]) 7 [''x'', ''x''] s)) =
     [Post_disconnect, Post_disconnect]"
proof -
  let ?r = "JObj [(''jsonrpc'', JStr ''1.0'')]"
  let ?env = "sample_st_env [(''x'', ?r)]"
  let ?s = "sample_client ''stratum1+tcp''"
  let ?s' = "conn_upd (SetStratumMode 1 True) ?s"
  have "case read_envelope (sample_json [(''x'', ?r)]) ?s' ?r of
      Inr e \<Rightarrow> invalid_message (sample_json [(''x'', ?r)]) e ?r = Inr True | Inl _ \<Rightarrow> False"
    by code_simp
  then obtain e where "read_envelope (sv_js ?env) ?s' ?r = Inr e" "invalid_message (sv_js ?env) e ?r = Inr True"
    by (auto simp: sample_st_env_def split: sum.splits)
  note e = this
  have j: "''x'' \<noteq> ([] :: string)" "sv_trim ?env ''x'' \<noteq> []" "js_parse (sv_js ?env) (sv_trim ?env ''x'') = Some ?r"
    by (simp_all add: sample_st_env_def sample_json_def)
  have c: "pc_conn ?s' = Some 0" "SecLevel (st_uris ?s' ! 0) = SL_NONE" "\<not> st_disconnecting ?s'"
    "ur_stratumModeConfirmed (st_uris ?s' ! 0) \<or> ur_unrecoverable (st_uris ?s' ! 0)" "st_socket ?s' = None \<or> socket_open ?s'" "st_ops ?s' = []"
    by (simp_all add: conn_upd_def sample_client_defs SetStratumMode_def upd_uri_def)
  have "st_ops (snd (process_lines ?env 7 [''x'', ''x''] ?s')) = [Post_disconnect, Post_disconnect]"
    using two_invalid_messages [OF j e j e c(1-5), of 7 8 9] unfolding c(6) Let_def case_prod_beta append_Nil by blast
  then show ?thesis by blast
qed

section \<open>The stream of received messages\<close>

lemma split_lines_append:
  "split_lines (a @ b) =
     (let (l1, r1) = split_lines a; (l2, r2) = split_lines (r1 @ b) in (l1 @ l2, r2))"
proof (induction a)
  case (Cons c a)
  obtain l1 r1 where a: "split_lines a = (l1, r1)" by fastforce
  obtain l2 r2 where b: "split_lines (r1 @ b) = (l2, r2)" by fastforce
  have "split_lines (a @ b) = (l1 @ l2, r2)" using Cons.IH by (simp add: a b)
  with a b show ?case
    by (cases l1) (auto split: list.splits)
qed (simp add: case_prod_beta Let_def)

lemma split_lines_join:
  "split_lines t = (ls, rest) \<Longrightarrow>
     t = concat (map (\<lambda>l. l @ [CHR 0x0A]) ls) @ rest \<and> (\<forall>l \<in> set ls. CHR 0x0A \<notin> set l) \<and> CHR 0x0A \<notin> set rest"
proof (induction t arbitrary: ls rest)
  case (Cons c t)
  obtain l r where t: "split_lines t = (l, r)" by fastforce
  have p: "(ls, rest) = (if c = CHR 0x0A then ([] # l, r) else case l of [] \<Rightarrow> ([], c # r) | x # xs \<Rightarrow> ((c # x) # xs, r))"
    using Cons.prems by (simp add: t)
  show ?case using Cons.IH [OF t] p by (cases l) (auto split: if_splits)
qed simp

text \<open>The successive completions of the reads of a connection, each with the data that has arrived by then.\<close>

fun receive_all :: "'j st_env \<Rightarrow> (nat \<times> string) list \<Rightarrow> Stratum \<Rightarrow> exn option \<times> Stratum" where
  "receive_all env [] s = (None, s)"
| "receive_all env ((now, rx) # cs) s = then_ok (onRecvSocketDataCompleted env now (Some rx) s) (receive_all env cs)"

text \<open>
  \<open>hands_on env s ls t\<close>: from \<open>s\<close> to \<open>t\<close> exactly the messages \<open>ls\<close> are processed, in this order. Between
  two messages a reception may end: the rest of the data is kept, the flag for new work is reset,
  the work just received is reported, and the next read is started.
\<close>

inductive hands_on :: "'j st_env \<Rightarrow> Stratum \<Rightarrow> string list \<Rightarrow> Stratum \<Rightarrow> bool" for env where
  nothing: "hands_on env s [] s"
| message: "process_line env now l s = (None, t) \<Longrightarrow> hands_on env t ls v \<Longrightarrow> hands_on env s (l # ls) v"
| begin_reception: "hands_on env (s\<lparr>st_newjobprocessed := False\<rparr>) ls v \<Longrightarrow> hands_on env s ls v"
| end_reception: "hands_on env (s\<lparr>st_message := m, st_events := st_events s @ es, st_ops := st_ops s @ os\<rparr>) ls v \<Longrightarrow>
    es = [] \<or> es = [OnWorkReceived (st_current s)] \<Longrightarrow> os = [] \<or> os = [Async_read] \<Longrightarrow> hands_on env s ls v"

lemma split_lines_rest: "CHR 0x0A \<notin> set m \<Longrightarrow> split_lines m = ([], m)"
  by (induction m) auto

lemma process_lines_hands_on:
  "process_lines env now ls s = (None, t) \<Longrightarrow> hands_on env t ls' v \<Longrightarrow> hands_on env s (ls @ ls') v"
proof (induction ls arbitrary: s)
  case (Cons l ls)
  then obtain s1 where "process_line env now l s = (None, s1)" "process_lines env now ls s1 = (None, t)"
    by (auto simp: then_ok_def split: option.splits prod.splits) (metis prod.collapse)
  with Cons show ?case by (auto intro: hands_on.message)
qed simp

lemma reception:
  assumes "onRecvSocketDataCompleted env now (Some rx) s = (None, t)" and "split_lines (st_message s @ rx) = (ls, rest)"
  shows "st_message t = rest" and "st_isConnected t \<Longrightarrow> st_ops t \<noteq> [] \<and> last (st_ops t) = Async_read"
    and "hands_on env t ls' v \<Longrightarrow> hands_on env s (ls @ ls') v"
proof -
  obtain s1 where s1: "process_lines env now ls (s\<lparr>st_newjobprocessed := False\<rparr>) = (None, s1)"
    using assms by (cases "process_lines env now ls (s\<lparr>st_newjobprocessed := False\<rparr>)")
      (auto simp: onRecvSocketDataCompleted_def then_ok_def split: option.splits)
  define es where "es = (if st_newjobprocessed s1 then [OnWorkReceived (st_current s1)] else [])"
  define os where "os = (if st_isConnected s1 then [Async_read] else [])"
  have t: "t = s1\<lparr>st_message := rest, st_events := st_events s1 @ es, st_ops := st_ops s1 @ os\<rparr>"
    using assms s1
    by (auto simp: onRecvSocketDataCompleted_def then_ok_def es_def os_def op_def event_def st_isConnected_def
        isPendingState_def Let_def)
  show "st_message t = rest" by (simp add: t)
  show "st_ops t \<noteq> [] \<and> last (st_ops t) = Async_read" if "st_isConnected t"
    using that by (simp add: t os_def st_isConnected_def isPendingState_def)
  show "hands_on env s (ls @ ls') v" if "hands_on env t ls' v"
  proof -
    have "hands_on env s1 ls' v" by (rule hands_on.end_reception [OF that [unfolded t]]) (simp_all add: es_def os_def)
    from process_lines_hands_on [OF s1 this] show ?thesis by (rule hands_on.begin_reception)
  qed
qed

lemma receive_all_hands_on:
  assumes "receive_all env cs s = (None, t)" and "CHR 0x0A \<notin> set (st_message s)"
  shows "hands_on env s (fst (split_lines (st_message s @ concat (map snd cs)))) t \<and>
    st_message t = snd (split_lines (st_message s @ concat (map snd cs))) \<and>
    (cs \<noteq> [] \<and> st_isConnected t \<longrightarrow> st_ops t \<noteq> [] \<and> last (st_ops t) = Async_read)"
  using assms
proof (induction cs arbitrary: s)
  case Nil
  then show ?case by (simp add: split_lines_rest hands_on.nothing)
next
  case (Cons c cs)
  obtain now rx where c: "c = (now, rx)" by (cases c)
  obtain s1 where s1: "onRecvSocketDataCompleted env now (Some rx) s = (None, s1)" "receive_all env cs s1 = (None, t)"
    using Cons.prems(1) by (cases "onRecvSocketDataCompleted env now (Some rx) s") (auto simp: c then_ok_def split: option.splits)
  obtain ls rest where l: "split_lines (st_message s @ rx) = (ls, rest)" by (cases "split_lines (st_message s @ rx)")
  note step = reception [OF s1(1) l]
  have rest: "CHR 0x0A \<notin> set rest" using split_lines_join [of "st_message s @ rx"] l by simp
  with Cons.IH [OF s1(2)] step(1) have ih: "hands_on env s1 (fst (split_lines (rest @ concat (map snd cs)))) t"
    "st_message t = snd (split_lines (rest @ concat (map snd cs)))"
    "cs \<noteq> [] \<and> st_isConnected t \<longrightarrow> st_ops t \<noteq> [] \<and> last (st_ops t) = Async_read" by simp_all
  have "split_lines (st_message s @ concat (map snd (c # cs))) =
      (ls @ fst (split_lines (rest @ concat (map snd cs))), snd (split_lines (rest @ concat (map snd cs))))"
    using split_lines_append [of "st_message s @ rx" "concat (map snd cs)"] l by (simp add: c case_prod_beta Let_def)
  moreover have "st_isConnected t \<longrightarrow> st_ops t \<noteq> [] \<and> last (st_ops t) = Async_read"
    using ih(3) step(2) s1(2) by (cases cs) auto
  ultimately show ?case using step(3) [OF ih(1)] ih(2) by simp
qed

text \<open>
  C19: The messages do not depend on how the stream arrives. Whatever the division of the received
  text into reads, and whatever their times, the handler of the reads processes exactly the
  line-feed-terminated lines of the text, in order, each once and none split or joined; it keeps
  the remainder without a line feed for the next read, and starts that read as long as the client is
  connected.
\<close>

theorem stream_chunking:
  assumes "receive_all env cs s = (None, t)" and "CHR 0x0A \<notin> set (st_message s)"
  shows "\<exists>ls rest. split_lines (st_message s @ concat (map snd cs)) = (ls, rest) \<and> hands_on env s ls t \<and> st_message t = rest \<and>
    st_message s @ concat (map snd cs) = concat (map (\<lambda>l. l @ [CHR 0x0A]) ls) @ rest \<and>
    list_all (\<lambda>l. CHR 0x0A \<notin> set l) ls \<and> CHR 0x0A \<notin> set rest \<and>
    (cs \<noteq> [] \<and> st_isConnected t \<longrightarrow> st_ops t \<noteq> [] \<and> last (st_ops t) = Async_read)"
proof -
  obtain ls rest where l: "split_lines (st_message s @ concat (map snd cs)) = (ls, rest)"
    by (cases "split_lines (st_message s @ concat (map snd cs))")
  with receive_all_hands_on [OF assms] split_lines_join [OF l] show ?thesis
    by (intro exI [of _ ls] exI [of _ rest]) (simp add: list_all_iff)
qed

text \<open>A message that arrives in two parts, with the beginning of another one.\<close>

definition sample_connected_client :: Stratum where
  "sample_connected_client =
     snd (connect_handler (sample_st_env []) 2 False True (snd (start_connect 1 (sample_client ''stratum''))))"

lemma stream_chunking_witness:
  "\<exists>t. receive_all (sample_st_env [(''xy'', sample_refusal)]) [(3, ''x''), (4, [CHR ''y'', CHR 0x0A, CHR ''z''])]
       sample_connected_client = (None, t) \<and>
     hands_on (sample_st_env [(''xy'', sample_refusal)]) sample_connected_client [''xy''] t \<and> st_message t = ''z'' \<and>
     last (st_ops t) = Async_read"
proof -
  let ?env = "sample_st_env [(''xy'', sample_refusal)]" and ?cs = "[(3, ''x''), (4, [CHR ''y'', CHR 0x0A, CHR ''z''])]"
  let ?r = "receive_all ?env ?cs sample_connected_client"
  have "fst ?r = None" by code_simp
  then have t: "?r = (None, snd ?r)" by (metis prod.collapse)
  have m: "st_message sample_connected_client = []" "st_isConnected (snd ?r)" by code_simp+
  have l: "split_lines (''x'' @ [CHR ''y'', CHR 0x0A, CHR ''z'']) = ([''xy''], ''z'')" by code_simp
  from stream_chunking [OF t] m l show ?thesis using t by (auto simp del: receive_all.simps split_lines.simps)
qed

section \<open>The stream of sent messages\<close>

definition tx_busy :: "string list \<Rightarrow> Stratum \<Rightarrow> bool" where
  "tx_busy q s \<longleftrightarrow> st_txPending s \<and> st_txQueue s = q"

lemma send_idle:
  assumes "st_isConnected s" and "tx_idle s"
  shows "tx_busy [] (send js r s) \<and> st_ops (send js r s) = st_ops s @ [Async_write (wire js r)] \<and> st_isConnected (send js r s) \<and>
    pc_conn (send js r s) = pc_conn s"
  using assms by (simp add: send_def sendSocketData_def tx_idle_def tx_busy_def wire_def st_isConnected_def isPendingState_def op_def Let_def)

lemma send_busy:
  "tx_busy q s \<Longrightarrow> send js r s = s\<lparr>st_txQueue := q @ [js_write js r]\<rparr>"
  by (simp add: send_def tx_busy_def Let_def)

lemma sends_busy:
  "tx_busy q s \<Longrightarrow> fold (send js) rs s = s\<lparr>st_txQueue := q @ map (js_write js) rs\<rparr>"
proof (induction rs arbitrary: q s)
  case (Cons r rs)
  then have "tx_busy (q @ [js_write js r]) (send js r s)" by (simp add: send_busy) (simp add: tx_busy_def)
  from Cons.IH [OF this] show ?case by (simp add: send_busy [OF Cons.prems])
qed (simp add: tx_busy_def)

lemma sent_ok:
  assumes "tx_busy q s" and "st_isConnected s" and "pc_conn s = Some i"
  shows "let t = snd (onSendSocketDataCompleted now None s) in
    fst (onSendSocketDataCompleted now None s) = None \<and> st_isConnected t \<and> pc_conn t = Some i \<and>
    (if q = [] then tx_idle t \<and> st_ops t = st_ops s
     else tx_busy [] t \<and> st_ops t = st_ops s @ [Async_write (concat (map (\<lambda>l. l @ [CHR 0x0A]) q))])"
  using assms
  by (auto simp: onSendSocketDataCompleted_def with_uri_def session_upd_def sendSocketData_def tx_busy_def tx_idle_def
      st_isConnected_def isPendingState_def op_def Let_def)

text \<open>
  C17: Requests are written in the order in which they are sent, each followed by a line feed and
  none twice or lost: on an idle connection the first request is written at once, those sent while
  that write is running are written together by the next one, and after the completions the
  transmission is idle again.
\<close>

theorem sends_in_order:
  assumes "st_isConnected s" and "tx_idle s" and "pc_conn s = Some i"
  shows "let sent = fold (send js) (r # rs) s; t1 = snd (onSendSocketDataCompleted now1 None sent);
             t2 = snd (onSendSocketDataCompleted now2 None t1) in
    st_ops sent = st_ops s @ [Async_write (wire js r)] \<and>
    st_ops t1 = st_ops sent @ (if rs = [] then [] else [Async_write (concat (map (wire js) rs))]) \<and>
    (if rs = [] then tx_idle t1 else tx_idle t2 \<and> st_ops t2 = st_ops t1)"
proof -
  let ?a = "send js r s" and ?q = "map (js_write js) rs"
  have a: "tx_busy [] ?a" "st_ops ?a = st_ops s @ [Async_write (wire js r)]" "st_isConnected ?a" "pc_conn ?a = Some i"
    using send_idle [OF assms(1,2), of js r] assms(3) by simp_all
  let ?b = "?a\<lparr>st_txQueue := ?q\<rparr>"
  have b: "fold (send js) (r # rs) s = ?b" using sends_busy [OF a(1), of js rs] by simp
  have b': "tx_busy ?q ?b" "st_isConnected ?b" "pc_conn ?b = Some i" "st_ops ?b = st_ops s @ [Async_write (wire js r)]"
    using a by (simp_all add: tx_busy_def st_isConnected_def isPendingState_def)
  define t1 where "t1 = snd (onSendSocketDataCompleted now1 None ?b)"
  have t1: "st_isConnected t1" "pc_conn t1 = Some i"
    "if ?q = [] then tx_idle t1 \<and> st_ops t1 = st_ops ?b
     else tx_busy [] t1 \<and> st_ops t1 = st_ops ?b @ [Async_write (concat (map (\<lambda>l. l @ [CHR 0x0A]) ?q))]"
    using sent_ok [OF b'(1-3), of now1] unfolding t1_def Let_def by blast+
  have w: "concat (map (\<lambda>l. l @ [CHR 0x0A]) ?q) = concat (map (wire js) rs)"
    by (simp add: wire_def [abs_def] comp_def)
  show ?thesis
  proof (cases "rs = []")
    case True
    then show ?thesis using t1(3) b'(4) unfolding b Let_def t1_def [symmetric] by simp
  next
    case False
    then have "tx_busy [] t1" using t1(3) by simp
    from sent_ok [OF this t1(1,2), of now2] have "tx_idle (snd (onSendSocketDataCompleted now2 None t1))"
      "st_ops (snd (onSendSocketDataCompleted now2 None t1)) = st_ops t1" by (simp_all add: Let_def)
    then show ?thesis using False t1(3) b'(4) unfolding b Let_def t1_def [symmetric] w by simp
  qed
qed

lemma sends_in_order_witness:
  "\<exists>s. let sent = fold (send (sample_json [])) [noop_request, fake_error_response] s;
          t1 = snd (onSendSocketDataCompleted 5 None sent) in
     st_ops t1 = [Async_write (''{}'' @ [CHR 0x0A]), Async_write (''{}'' @ [CHR 0x0A])] \<and>
     tx_idle (snd (onSendSocketDataCompleted 6 None t1))"
proof -
  let ?s = "(sample_client ''stratum'')\<lparr>pc_connected := True\<rparr>"
  have "st_isConnected ?s" "tx_idle ?s" "pc_conn ?s = Some 0" "st_ops ?s = []"
    by (simp_all add: sample_client_defs st_isConnected_def isPendingState_def tx_idle_def)
  moreover have "wire (sample_json []) r = ''{}'' @ [CHR 0x0A]" for r by (simp add: wire_def sample_json_def)
  ultimately show ?thesis
    using sends_in_order [of ?s 0 "sample_json []" noop_request "[fake_error_response]" 5 6]
    unfolding Let_def by (intro exI [of _ ?s]) (simp del: fold.simps)
qed

section \<open>Submitted solutions\<close>

text \<open>
  What the answer of the pool says about a solution: whether it is accepted, and whether as a stale
  one. How the JSON of the answer is read is taken from the client (\<open>boolean_result\<close>, \<open>stale_code\<close>); the
  theorem is about which answer is reported, and for whom.
\<close>

definition pool_answer :: "'j jsonlib \<Rightarrow> URI \<Rightarrow> envelope \<Rightarrow> 'j \<Rightarrow> 'j \<Rightarrow> bool \<Rightarrow> bool \<Rightarrow> bool" where
  "pool_answer js u e r result ok stale \<longleftrightarrow>
     (if ur_stratumMode u \<noteq> 3 then boolean_result js e result = Inr ok \<and> \<not> stale
      else if ev_isSuccess e then ok \<and> \<not> stale
      else stale_code js r = Inr ok \<and> stale = ok)"

lemma solution_id:
  assumes "40 + unat i < 2 ^ 32"
  shows "unat (40 + i :: u32) = 40 + unat i" and "40 + i \<noteq> (1 :: u32)" and "40 + i \<noteq> (2 :: u32)" and "40 + i \<noteq> (3 :: u32)"
    and "(40 :: u32) \<le> 40 + i" and "(40 + i) - 40 = (i :: u32)"
proof -
  show u: "unat (40 + i) = 40 + unat i" using assms by (simp add: unat_word_ariths)
  show "(40 :: u32) \<le> 40 + i" by (simp add: word_le_nat_alt u)
  have "unat (40 + i) \<noteq> unat (1 :: u32)" "unat (40 + i) \<noteq> unat (2 :: u32)" "unat (40 + i) \<noteq> unat (3 :: u32)"
    by (simp_all add: u)
  then show "40 + i \<noteq> (1 :: u32)" "40 + i \<noteq> (2 :: u32)" "40 + i \<noteq> (3 :: u32)" by metis+
qed simp

lemma handle_solution_response:
  assumes "st_max_id t = Some m" and "40 \<le> ev_id e" and "ev_id e \<le> m" and "ev_id e \<noteq> 1" and "ev_id e \<noteq> 2" and "ev_id e \<noteq> 3"
    and "js_getd (sv_js env) r ''result'' JNull = Inr result"
  shows "handle_response env now e r t = solution_response env now e r result t"
  using assms by (simp add: handle_response_def)

lemma solution_response_events:
  assumes "pc_conn s = Some k" and "pool_answer (sv_js env) (st_uris s ! k) e r result ok stale"
  shows "\<exists>d t. solution_response env now e r result s = (None, t) \<and>
    st_events t = st_events s @ [if ok then OnSolutionAccepted d (ev_id e - 40) stale else OnSolutionRejected d (ev_id e - 40)]"
  using assms
  by (auto simp: solution_response_def with_uri_def pool_answer_def case_prod_beta event_def ebind_def Let_def split: if_splits)

text \<open>
  C7: Every submitted solution is accounted to its miner. After a miner's solution has been
  submitted, the pool's answer to it makes the client report, once, the acceptance (or the
  acceptance as a stale solution) or the rejection of a solution of exactly that miner, in every
  dialect.
\<close>

theorem submission_accounted:
  assumes "isAuthorized s" and "st_max_id s = Some m" and "pc_conn s = Some k"
    and "pc_session s = Some x" and "submit_body (st_uris s ! k) x sol = Inr body" and "40 + unat (sol_midx sol) < 2 ^ 32"
    and "ev_id e = 40 + sol_midx sol" and "js_getd (sv_js env) r ''result'' JNull = Inr result"
    and "pool_answer (sv_js env) (st_uris s ! k) e r result ok stale"
  shows "let t = snd (submitSolution (sv_js env) now sol s) in
    fst (submitSolution (sv_js env) now sol s) = None \<and>
    (\<exists>d v. handle_response env now' e r t = (None, v) \<and>
       st_events v = st_events s @ [if ok then OnSolutionAccepted d (sol_midx sol) stale else OnSolutionRejected d (sol_midx sol)])"
proof -
  define t where "t = send (sv_js env) (JObj ((''id'', JInt (int (unat (40 + sol_midx sol)))) # body))
    (enqueue_response_plea now (s\<lparr>st_max_id := Some (max m (40 + sol_midx sol))\<rparr>))"
  have t: "submitSolution (sv_js env) now sol s = (None, t)"
    using assms(1-5) by (simp add: submitSolution_def with_session_def with_uri_def Let_def t_def)
  have f: "pc_conn t = Some k" "st_uris t = st_uris s" "st_events t = st_events s" "st_max_id t = Some (max m (40 + sol_midx sol))"
    using assms(3) unfolding t_def by (simp_all add: enqueue_response_plea_def) (simp add: send_def sendSocketData_def st_frame Let_def)
  have "handle_response env now' e r t = solution_response env now' e r result t"
    using solution_id [OF assms(6)] by (intro handle_solution_response [OF f(4)]) (simp_all add: assms(7,8))
  moreover have "ev_id e - 40 = sol_midx sol" using solution_id(6) [OF assms(6)] by (simp add: assms(7))
  ultimately show ?thesis
    using solution_response_events [of t k env e r result ok stale now'] f assms(9) unfolding t Let_def fst_conv snd_conv by metis
qed

text \<open>The first miner's solution in the dialect Eth-Proxy, accepted by the pool.\<close>

definition sample_session :: Session where
  "sample_session = (new_Session 0)\<lparr>se_subscribed := True, se_authorized := True\<rparr>"

definition sample_mining_client :: Stratum where
  "sample_mining_client = conn_upd (SetStratumMode 1 True) (sample_client ''stratum1+tcp'')
     \<lparr>pc_session := Some sample_session, st_max_id := Some 0, pc_connected := True\<rparr>"

lemma sample_mining_client_state:
  "isAuthorized sample_mining_client" "isSubscribed sample_mining_client" "st_max_id sample_mining_client = Some 0"
  "pc_conn sample_mining_client = Some 0" "pc_session sample_mining_client = Some sample_session"
  "ur_stratumMode (st_uris sample_mining_client ! 0) = 1" "ur_stratumModeConfirmed (st_uris sample_mining_client ! 0)"
  "st_events sample_mining_client = []" "ur_worker (st_uris sample_mining_client ! 0) = []" "\<not> st_newjobprocessed sample_mining_client"
  by (simp_all add: sample_mining_client_def isAuthorized_def isSubscribed_def sample_session_def conn_upd_def sample_client_defs
      SetStratumMode_def upd_uri_def)

definition sample_answer :: envelope where
  "sample_answer = \<lparr>ev_rpcVer = 1, ev_id = 41, ev_isSuccess = True, ev_errReason = [], ev_method = [], ev_isNotification = False\<rparr>"

lemma submission_accounted_witness:
  "\<exists>d v. handle_response (sample_st_env []) 9 sample_answer (JObj [(''result'', JBool True)])
       (snd (submitSolution (sample_json []) 8 (Solution.make 5 [] new_WorkPackage 0 1) sample_mining_client)) = (None, v) \<and>
     st_events v = [OnSolutionAccepted d 1 False]"
proof -
  let ?sol = "Solution.make 5 [] new_WorkPackage 0 1"
  have "\<exists>body. submit_body (st_uris sample_mining_client ! 0) sample_session ?sol = Inr body"
    by (simp add: submit_body_def sample_mining_client_state Let_def)
  then obtain body where b: "submit_body (st_uris sample_mining_client ! 0) sample_session ?sol = Inr body" by blast
  have "sv_js (sample_st_env []) = sample_json []" by (simp add: sample_st_env_def)
  moreover have "js_getd (sample_json []) (JObj [(''result'', JBool True)]) ''result'' JNull = Inr (JBool True)"
    by (simp add: sample_json_def ebind_def)
  moreover have "pool_answer (sample_json []) (st_uris sample_mining_client ! 0) sample_answer (JObj [(''result'', JBool True)]) (JBool True) True False"
    by (simp add: pool_answer_def sample_mining_client_state boolean_result_def sample_answer_def sample_json_def)
  moreover have "ev_id sample_answer = 40 + sol_midx ?sol" "40 + unat (sol_midx ?sol) < 2 ^ 32" "sol_midx ?sol = 1"
    by (simp_all add: sample_answer_def Solution.defs)
  ultimately show ?thesis
    using submission_accounted [of sample_mining_client 0 0 sample_session ?sol body sample_answer "sample_st_env []"
        "JObj [(''result'', JBool True)]" "JBool True" True False 8 9] b
    by (simp add: sample_mining_client_state Let_def)
qed

section \<open>An exception that is not caught\<close>

lemma mining_notify_huge_block:
  assumes "isSubscribed s" and "\<not> st_newjobprocessed s" and "ur_stratumMode u = 1" and "notify_params js u r = Inr (prm, i)"
    and "js_isArray js prm" and "\<not> js_empty js prm" and "str_item js prm 0 = Inr job" and "str_item js prm i = Inr a"
    and "str_item js prm (i + 1) = Inr b" and "str_item js prm (i + 2) = Inr c" and "i + 3 < js_size js prm"
    and "str_item js prm (i + 3) = Inr t" and "take 2 t = ''0x''" and "stoul16 t = Inr v" and "store_int v > 0x9660180"
  shows "fst (mining_notify js now u r s) = Some PointerThrown"
proof -
  have b: "proxy_block js u prm (i + 3) = Inr (Some PointerThrown, store_int v)"
    using assms(3,11-15) by (simp add: proxy_block_def read_block_def)
  have "fst (notify_plain js now u prm i s1) = Some PointerThrown" for s1
    using assms(8-10) by (simp add: notify_plain_def b then_ok_def Let_def)
  then show ?thesis using assms(1-7) by (simp add: mining_notify_def Let_def)
qed

text \<open>
  A job of the dialect Eth-Proxy with a block number above 157680000 ends the handler of the
  received data with an exception: what the range check throws is a pointer, which neither the
  handler around the check nor the one around the message catches.
\<close>

theorem huge_block_escapes:
  assumes "line \<noteq> []" and "sv_trim env line \<noteq> []" and "js_parse (sv_js env) (sv_trim env line) = Some r"
    and "read_envelope (sv_js env) s r = Inr e" and "invalid_message (sv_js env) e r = Inr False"
    and "ev_isNotification e" and "ev_method e = ''mining.notify''" and "pc_conn s = Some k"
    and "ur_stratumModeConfirmed (st_uris s ! k)" and "isSubscribed s" and "\<not> st_newjobprocessed s"
    and "ur_stratumMode (st_uris s ! k) = 1" and "notify_params (sv_js env) (st_uris s ! k) r = Inr (prm, i)"
    and "js_isArray (sv_js env) prm" and "\<not> js_empty (sv_js env) prm" and "str_item (sv_js env) prm 0 = Inr job"
    and "str_item (sv_js env) prm i = Inr a" and "str_item (sv_js env) prm (i + 1) = Inr b"
    and "str_item (sv_js env) prm (i + 2) = Inr c" and "i + 3 < js_size (sv_js env) prm"
    and "str_item (sv_js env) prm (i + 3) = Inr t" and "take 2 t = ''0x''" and "stoul16 t = Inr v" and "store_int v > 0x9660180"
  shows "fst (process_line env now line s) = Some PointerThrown \<and>
    fst (process_lines env now (line # lines) s) = Some PointerThrown"
proof -
  have m: "fst (mining_notify (sv_js env) now (st_uris s ! k) r s) = Some PointerThrown"
    by (rule mining_notify_huge_block [OF assms(10-24)])
  have "processResponse env now r s = mining_notify (sv_js env) now (st_uris s ! k) r s"
    using assms(4-9,12) by (simp add: processResponse_def handle_notification_def with_uri_def Let_def)
  with m obtain t' where "processResponse env now r s = (Some PointerThrown, t')"
    by (cases "mining_notify (sv_js env) now (st_uris s ! k) r s") simp
  then have "fst (process_line env now line s) = Some PointerThrown"
    using assms(1-3) by (simp add: process_line_def std_exception_def)
  then show ?thesis by (simp add: then_ok_def)
qed

definition sample_job :: jout where
  "sample_job = JObj [(''id'', JInt 0), (''result'', JArr [JStr ''0x1'', JStr ''0x2'', JStr ''0x3'', JStr ''0x9660181''])]"

lemma huge_block_escapes_witness:
  "fst (process_line (sample_st_env [(''x'', sample_job)]) 7 ''x'' sample_mining_client) = Some PointerThrown"
proof -
  define js where "js = sample_json [(''x'', sample_job)]"
  define env where "env = sample_st_env [(''x'', sample_job)]"
  define prm where "prm = JArr [JStr ''0x1'', JStr ''0x2'', JStr ''0x3'', JStr ''0x9660181'']"
  have "case read_envelope (sample_json [(''x'', sample_job)]) sample_mining_client sample_job of
      Inr e \<Rightarrow> invalid_message (sample_json [(''x'', sample_job)]) e sample_job = Inr False \<and> ev_isNotification e \<and>
        ev_method e = ''mining.notify'' | Inl _ \<Rightarrow> False"
    by code_simp
  then obtain e where e: "read_envelope js sample_mining_client sample_job = Inr e" "invalid_message js e sample_job = Inr False"
    "ev_isNotification e" "ev_method e = ''mining.notify''" unfolding js_def by (auto split: sum.splits)
  have p: "js_parse js ''x'' = Some sample_job" "js_isArray js prm" "\<not> js_empty js prm" "0 + 3 < js_size js prm"
    by (simp_all add: js_def prm_def sample_json_def)
  have n: "notify_params js (st_uris sample_mining_client ! 0) sample_job = Inr (prm, 0)"
    by (simp add: js_def prm_def sample_json_def notify_params_def sample_mining_client_state sample_job_def ebind_def)
  have q: "str_item js prm 0 = Inr ''0x1''" "str_item js prm (0 + 1) = Inr ''0x2''"
    "str_item js prm (0 + 2) = Inr ''0x3''" "str_item js prm (0 + 3) = Inr ''0x9660181''"
    unfolding js_def prm_def by code_simp+
  have b: "take 2 ''0x9660181'' = ''0x''" "stoul16 ''0x9660181'' = Inr 0x9660181" "0x9660180 < store_int 0x9660181"
    by (simp_all add: stoul16_def strip_0x_def is_space_def is_hexdigit_def digit_val_def hexnum_def store_int_def)
  have j: "sv_js env = js" "sv_trim env ''x'' = ''x''" "''x'' \<noteq> ([] :: string)" by (simp_all add: env_def js_def sample_st_env_def)
  show ?thesis
    unfolding env_def [symmetric]
    by (rule huge_block_escapes [where line = "''x''" and env = env, unfolded j, OF j(3,3) p(1) e sample_mining_client_state(4,7,2,10,6) n
        p(2,3) q(1,1,2,3) p(4) q(4) b, THEN conjunct1])
qed

section \<open>A client that reports an event\<close>

text \<open>A client whose host cannot be resolved reports the end of the connection.\<close>

definition unresolved_client :: Stratum where
  "unresolved_client = snd (resolve_handler 5 None (st_setConnection 0 (new_Stratum 180 2 0 [sample_uri ''eu''])))"

lemma unresolved_client_reach:
  "reach (st_init n) (st_step env n) unresolved_client" "OnDisconnected \<in> set (st_events unresolved_client)"
proof -
  let ?u = "[sample_uri ''eu'']"
  have "reach (st_init n) (st_step env n) (new_Stratum 180 2 0 ?u)" by (rule reach_init) (rule st_init.fresh)
  moreover have "0 < length (st_uris (new_Stratum 180 2 0 ?u))" by (simp add: new_Stratum_def PoolClient.defs)
  ultimately show "reach (st_init n) (st_step env n) unresolved_client"
    unfolding unresolved_client_def by (blast intro: reach_step st_step.intros)
  show "OnDisconnected \<in> set (st_events unresolved_client)"
    by (simp add: unresolved_client_def resolve_handler_def disconnect_finalize_def autodetect_def with_uri_def
        st_setConnection_def setConnection_def new_Stratum_def new_PoolClient_def PoolClient.defs upd_uri_def sample_uri_def
        empty_URI_def Responds_def event_def Let_def)
qed

end
