(* ===== verification/Extranonce.thy ===== *)
theory Extranonce
  imports StratumProps
begin

text \<open>
  The way of an extranonce through the program: the text the pool sends, the start nonce of the work,
  the segments of the miners, and the text that is submitted for a nonce of such a segment.
\<close>

section \<open>Reading the extranonce\<close>

lemma hexdigit_chars:
  assumes "is_hexdigit c"
  shows "\<not> is_space c" and "c \<noteq> CHR ''-''" and "c \<noteq> CHR ''+''" and "c \<noteq> CHR ''x''" and "c \<noteq> CHR ''X''"
  using assms by (auto simp: is_hexdigit_def digit_val_def is_space_def split: if_splits)

lemma stoul16_digits:
  assumes "list_all is_hexdigit t" and "t \<noteq> []" and "length t \<le> 16"
  shows "stoul16 t = Inr (hexnum t)"
proof -
  obtain c r where t: "t = c # r" using assms(2) by (cases t) auto
  have c: "is_hexdigit c" "list_all is_hexdigit r" using assms(1) t by simp_all
  have s: "strip_0x t = t"
    using c hexdigit_chars [of "hd r"] by (cases r) (auto simp: t strip_0x_def split: list.splits)
  have w: "takeWhile is_hexdigit t = t" using assms(1) by (simp add: takeWhile_eq_all_conv list_all_iff)
  have "hexnum t < 16 ^ length t" using assms(1) by (intro hexnum_less) (simp add: list_all_iff)
  also have "\<dots> \<le> (16 :: nat) ^ 16" using assms(3) by (intro power_increasing) simp_all
  finally have "hexnum t < 2 ^ 64" by simp
  then show ?thesis
    using hexdigit_chars [OF c(1)] s w by (simp add: stoul16_def t Let_def)
qed

lemma resize16_hexnum:
  assumes "list_all is_hexdigit e" and "length e \<le> 16"
  shows "list_all is_hexdigit (resize16 e)" and "length (resize16 e) = 16"
    and "hexnum (resize16 e) = hexnum e * 16 ^ (16 - length e)"
proof -
  have r: "resize16 e = e @ replicate (16 - length e) (CHR ''0'')" using assms(2) by (simp add: resize16_def)
  have z: "is_hexdigit (CHR ''0'')" by (simp add: is_hexdigit_def digit_val_def)
  show "list_all is_hexdigit (resize16 e)" using assms(1) z by (auto simp: r list_all_iff)
  show "length (resize16 e) = 16" using assms(2) by (simp add: r)
  show "hexnum (resize16 e) = hexnum e * 16 ^ (16 - length e)" by (simp add: r hexnum_append)
qed

lemma processExtranonce_ok:
  assumes "pc_session s = Some x" and "e \<noteq> []" and "list_all is_hexdigit e" and "length e \<le> 16"
  shows "\<exists>t y. processExtranonce e s = (None, t) \<and> pc_session t = Some y \<and>
    se_extraNonce y = of_nat (hexnum e * 16 ^ (16 - length e)) \<and> se_extraNonceSizeBytes y = of_nat (length e) \<and>
    st_newjobprocessed t = st_newjobprocessed s"
proof -
  have "resize16 e \<noteq> []" using resize16_hexnum(2) [OF assms(3,4)] by auto
  then have "stoul16 (resize16 e) = Inr (hexnum e * 16 ^ (16 - length e))"
    using stoul16_digits [OF resize16_hexnum(1) [OF assms(3,4)]] resize16_hexnum(2,3) [OF assms(3,4)] by simp
  then show ?thesis
    by (simp add: processExtranonce_def with_session_def assms(1) session_upd_def Let_def)
qed

text \<open>The size of the extranonce is stored in narrower integers.\<close>

lemma ucast_small: "k \<le> 16 \<Longrightarrow> (ucast (of_nat k :: u32) :: u16) = of_nat k"
  by (simp add: unsigned_ucast_eq unsigned_of_nat take_bit_nat_eq_self)

section \<open>From the notification to the submission\<close>

lemma notify_corestratum_nonce:
  assumes "notify_corestratum js now prm t = (None, v)" and "st_newjobprocessed v" and "\<not> st_newjobprocessed t" and "pc_session t = Some y"
  shows "wp_startNonce (st_current v) = se_extraNonce y \<and> wp_exSizeBytes (st_current v) = ucast (se_extraNonceSizeBytes y)"
  using assms
  by (auto simp: notify_corestratum_def withv_def with_session_def upd_work_def new_job_def Let_def split: sum.splits if_splits)

text \<open>A nonce of the residual space of an extranonce, in hex: the digits of the extranonce first.\<close>

lemma residual_nonce:
  fixes nonce :: u64
  assumes "list_all is_hexdigit e" and "length e \<le> 16"
    and "unat (nonce - of_nat (hexnum e * 16 ^ (16 - length e))) < 16 ^ (16 - length e)"
  shows "unat nonce div 16 ^ (16 - length e) = hexnum e"
proof -
  let ?p = "(16 :: nat) ^ (16 - length e)"
  let ?d = "unat (nonce - of_nat (hexnum e * ?p))"
  have l: "hexnum e + 1 \<le> 16 ^ length e"
    using hexnum_less [of e] assms(1) by (simp add: list_all_iff)
  have "(hexnum e + 1) * ?p \<le> 16 ^ length e * ?p" using l by (rule mult_le_mono1)
  also have "\<dots> = 2 ^ 64" using assms(2) by (simp flip: power_add)
  finally have b: "hexnum e * ?p + ?p \<le> 2 ^ 64" by simp
  have n: "nonce = of_nat (hexnum e * ?p + ?d)" by simp
  have "unat nonce = (hexnum e * ?p + ?d) mod 2 ^ 64" by (subst n) (simp only: unat_of_nat, simp)
  also have "\<dots> = hexnum e * ?p + ?d" using b assms(3) by simp
  finally show ?thesis using assms(3) by simp
qed

lemma nonce_suffix_hexnum:
  fixes nonce :: u64
  assumes "list_all is_hexdigit e" and "length e \<le> 16" and "unat ex = length e"
    and "unat nonce div 16 ^ (16 - length e) = hexnum e"
  shows "\<exists>t. nonce_suffix nonce ex = Inr t \<and> length (e @ t) = 16 \<and> hexnum (e @ t) = unat nonce"
proof -
  let ?k = "16 - length e"
  have "hexfix 16 (unat nonce) = hexfix (length e) (unat nonce div 16 ^ ?k) @ hexfix ?k (unat nonce)"
    using hexfix_append [of "length e" ?k "unat nonce"] assms(2) by simp
  then have "nonce_suffix nonce ex = Inr (hexfix ?k (unat nonce))"
    using assms(2,3) by (simp add: nonce_suffix_def toHex_u64_16 add_prefix_def)
  moreover have "hexnum (e @ hexfix ?k (unat nonce)) = unat nonce"
    using assms(4) div_mult_mod_eq [of "unat nonce" "16 ^ ?k"] by (simp add: hexnum_append)
  ultimately show ?thesis using assms(2) by simp
qed

end
