(* ===== verification/Getwork.thy ===== *)
theory Getwork
  imports StratumProtocol
begin

text \<open>
  The getwork client (\<open>src/libpoolprotocols/getwork/XcbGetworkClient.h\<close>,
  \<open>src/libpoolprotocols/getwork/XcbGetworkClient.cpp\<close>): every request is an HTTP POST on a
  connection of its own, one after the other; a timer asks for new work. Handlers are functions on
  the client's record, asynchronous operations are appended to \<open>gw_ops\<close>, the calls of the manager's
  handlers to \<open>gw_events\<close>.
\<close>

section \<open>State\<close>

datatype gw_op =
    Gw_resolve string u16
  | Gw_connect string
  | Gw_write string
  | Gw_read

text \<open>
  \<open>gw_timer\<close> is the delay of the armed timer in milliseconds. \<open>gw_max_id\<close>, the member
  \<open>m_solution_submitted_max_id\<close>, is initialised nowhere: its first value is that of the memory.
\<close>

record 'j Getwork = PoolClient +
  gw_recheck :: nat
  gw_worktimeout :: int
  gw_current :: WorkPackage
  gw_current_tstamp :: nat
  gw_connecting :: bool
  gw_txPending :: bool
  gw_txQueue :: "string list"
  gw_socket_open :: bool
  gw_endpoints :: "string list"
  gw_request :: string
  gw_jsonGetWork :: string
  gw_pendingJReq :: 'j
  gw_pending_tstamp :: nat
  gw_timer :: "nat option"
  gw_max_id :: u32
  gw_uris :: "URI list"
  gw_ops :: "gw_op list"
  gw_events :: "client_event list"

definition getWork_request :: jout where
  "getWork_request =
     JObj [(''id'', JInt 1), (''jsonrpc'', JStr ''2.0''), (''method'', JStr ''xcb_getWork''), (''params'', JArr [])]"

definition new_Getwork :: "'j jsonlib \<Rightarrow> int \<Rightarrow> nat \<Rightarrow> u32 \<Rightarrow> URI list \<Rightarrow> 'j Getwork" where
  "new_Getwork js worktimeout recheck garbage uris =
     PoolClient.extend new_PoolClient
       \<lparr>gw_recheck = recheck, gw_worktimeout = worktimeout, gw_current = new_WorkPackage, gw_current_tstamp = 0,
        gw_connecting = False, gw_txPending = False, gw_txQueue = [], gw_socket_open = False, gw_endpoints = [],
        gw_request = [], gw_jsonGetWork = js_write js getWork_request, gw_pendingJReq = js_of js JNull,
        gw_pending_tstamp = 0, gw_timer = None, gw_max_id = garbage, gw_uris = uris, gw_ops = [], gw_events = []\<rparr>"

definition gw_do :: "gw_op \<Rightarrow> 'j Getwork \<Rightarrow> 'j Getwork" where
  "gw_do x s = s\<lparr>gw_ops := gw_ops s @ [x]\<rparr>"

definition gw_event :: "client_event \<Rightarrow> 'j Getwork \<Rightarrow> 'j Getwork" where
  "gw_event e s = s\<lparr>gw_events := gw_events s @ [e]\<rparr>"

text \<open>\<open>m_conn->...\<close>: undefined when there is no connection object.\<close>

definition gw_with_uri :: "'j Getwork \<Rightarrow> (URI \<Rightarrow> exn option \<times> 'j Getwork) \<Rightarrow> exn option \<times> 'j Getwork" where
  "gw_with_uri s k = (case pc_conn s of None \<Rightarrow> (Some UndefinedBehaviour, s) | Some i \<Rightarrow> k (gw_uris s ! i))"

section \<open>Connecting\<close>

definition gw_disconnect :: "nat \<Rightarrow> 'j Getwork \<Rightarrow> exn option \<times> 'j Getwork" where
  "gw_disconnect now s =
     (let s1 = s\<lparr>pc_connected := False\<rparr>;
          k = (\<lambda>s2. (None, gw_event OnDisconnected
                 (s2\<lparr>pc_session := None, gw_connecting := False, gw_txPending := False, gw_timer := None,
                     gw_txQueue := [], gw_request := []\<rparr>)))
      in case pc_session s1 of
           None \<Rightarrow> k s1
         | Some x \<Rightarrow> (case pc_conn s1 of
             None \<Rightarrow> (Some UndefinedBehaviour, s1)
           | Some i \<Rightarrow> k (s1\<lparr>gw_uris := upd_uri (addDuration (session_duration now x)) i (gw_uris s1)\<rparr>)))"

definition gw_begin_connect :: "nat \<Rightarrow> 'j Getwork \<Rightarrow> exn option \<times> 'j Getwork" where
  "gw_begin_connect now s =
     (case gw_endpoints s of
        e # es \<Rightarrow> (None, gw_do (Gw_connect e) (s\<lparr>pc_endpoint := e, gw_socket_open := True\<rparr>))
      | [] \<Rightarrow> gw_with_uri s (\<lambda>u. gw_disconnect now s))"

definition gw_send :: "nat \<Rightarrow> string \<Rightarrow> 'j Getwork \<Rightarrow> exn option \<times> 'j Getwork" where
  "gw_send now line s =
     (let s1 = s\<lparr>gw_txQueue := gw_txQueue s @ [line]\<rparr>
      in if gw_txPending s1 then (None, s1) else gw_begin_connect now (s1\<lparr>gw_txPending := True\<rparr>))"

text \<open>\<open>ep\<close> is the text of \<open>endpoint(address::from_string(host), port)\<close>, which may throw.\<close>

definition gw_connect :: "(string \<Rightarrow> u16 \<Rightarrow> exn + string) \<Rightarrow> nat \<Rightarrow> 'j Getwork \<Rightarrow> exn option \<times> 'j Getwork" where
  "gw_connect ep now s =
     (if gw_connecting s then (None, s)
      else let s1 = s\<lparr>gw_connecting := True, gw_timer := None, gw_endpoints := [], pc_endpoint := ''0.0.0.0:0''\<rparr> in
        gw_with_uri s1 (\<lambda>u.
          if ur_hostType u = HT_Dns \<or> ur_hostType u = HT_Basic
          then (None, gw_do (Gw_resolve (ur_host u) (ur_port u)) s1)
          else withv (ep (ur_host u) (ur_port u)) s1 (\<lambda>e.
            gw_send now (gw_jsonGetWork s1) (s1\<lparr>gw_endpoints := [e]\<rparr>))))"

text \<open>\<open>eps\<close> are the addresses the resolver found, \<open>None\<close> when it failed.\<close>

definition gw_handle_resolve :: "nat \<Rightarrow> string list option \<Rightarrow> 'j Getwork \<Rightarrow> exn option \<times> 'j Getwork" where
  "gw_handle_resolve now eps s =
     (case eps of
        Some es \<Rightarrow> gw_send now (gw_jsonGetWork s) (s\<lparr>gw_endpoints := gw_endpoints s @ es\<rparr>)
      | None \<Rightarrow> gw_with_uri s (\<lambda>u. gw_disconnect now s))"

text \<open>The endpoint in use is dropped and the next one tried; \<open>pop\<close> of an empty queue is undefined.\<close>

definition gw_next_endpoint :: "nat \<Rightarrow> 'j Getwork \<Rightarrow> exn option \<times> 'j Getwork" where
  "gw_next_endpoint now s =
     gw_with_uri s (\<lambda>u.
       case gw_endpoints s of
         [] \<Rightarrow> (Some UndefinedBehaviour, s)
       | e # es \<Rightarrow> gw_begin_connect now (s\<lparr>gw_endpoints := es\<rparr>))"

section \<open>One request\<close>

definition crlf :: string where
  "crlf = [CHR 0x0D, CHR 0x0A]"

definition http_request :: "URI \<Rightarrow> string \<Rightarrow> string" where
  "http_request u line =
     ''POST '' @ (if ur_path u = [] then ''/'' else ur_path u) @ '' HTTP/1.0'' @ crlf @
     ''Host: '' @ ur_host u @ crlf @ ''Content-Type: application/json'' @ crlf @
     ''Content-Length: '' @ decstr (length line) @ crlf @ ''Connection: close'' @ crlf @ crlf @ line"

definition gw_start_session :: "nat \<Rightarrow> 'j Getwork \<Rightarrow> 'j Getwork" where
  "gw_start_session now s =
     (if gw_connecting s
      then (gw_event OnConnected (s\<lparr>pc_connected := True,
              pc_session := Some ((new_Session now)\<lparr>se_subscribed := True, se_authorized := True\<rparr>),
              gw_connecting := False\<rparr>))\<lparr>gw_current_tstamp := now\<rparr>
      else s)"

text \<open>
  The first line of the queue that is not empty is written. The lines come from \<open>writeString\<close> and can
  be parsed again; one that cannot would leave the pending request as it is.
\<close>

definition gw_write_line :: "'j jsonlib \<Rightarrow> nat \<Rightarrow> string \<Rightarrow> string list \<Rightarrow> 'j Getwork \<Rightarrow> exn option \<times> 'j Getwork" where
  "gw_write_line js now line rest s =
     (let s1 = s\<lparr>gw_txQueue := rest, gw_pending_tstamp := now,
                 gw_pendingJReq := (case js_parse js line of Some v \<Rightarrow> v | None \<Rightarrow> gw_pendingJReq s)\<rparr>
      in gw_with_uri s1 (\<lambda>u.
           let req = gw_request s1 @ http_request u line
           in (None, gw_do (Gw_write req) (s1\<lparr>gw_request := req\<rparr>))))"

definition gw_submit_first :: "'j jsonlib \<Rightarrow> nat \<Rightarrow> 'j Getwork \<Rightarrow> exn option \<times> 'j Getwork" where
  "gw_submit_first js now s =
     (if gw_txQueue s = [] then (None, s\<lparr>gw_txPending := False\<rparr>)
      else case dropWhile (\<lambda>l. l = []) (gw_txQueue s) of
             [] \<Rightarrow> (None, s\<lparr>gw_txQueue := []\<rparr>)
           | line # rest \<Rightarrow> gw_write_line js now line rest s)"

text \<open>\<open>err\<close> is \<open>None\<close> on success, otherwise whether the operation was aborted.\<close>

definition gw_handle_connect :: "'j jsonlib \<Rightarrow> nat \<Rightarrow> bool option \<Rightarrow> 'j Getwork \<Rightarrow> exn option \<times> 'j Getwork" where
  "gw_handle_connect js now err s =
     (if err = None \<and> gw_socket_open s then gw_submit_first js now (gw_start_session now s)
      else if err = Some True then (None, s)
      else gw_next_endpoint now s)"

text \<open>A successful write has consumed the buffer, a failed one the first \<open>sent\<close> characters.\<close>

definition gw_handle_write :: "nat \<Rightarrow> bool option \<Rightarrow> nat \<Rightarrow> 'j Getwork \<Rightarrow> exn option \<times> 'j Getwork" where
  "gw_handle_write now err sent s =
     (case err of
        None \<Rightarrow> (None, gw_do Gw_read (s\<lparr>gw_request := []\<rparr>))
      | Some aborted \<Rightarrow>
          (let s1 = s\<lparr>gw_request := drop sent (gw_request s)\<rparr>
           in if aborted then (None, s1) else gw_next_endpoint now s1))"

section \<open>Responses\<close>

text \<open>\<open>processError\<close> is that of the stratum client, word for word.\<close>

definition gw_processError :: "'j jsonlib \<Rightarrow> 'j \<Rightarrow> exn + string" where
  "gw_processError js r =
     ebind (js_isMember js r ''error'') (\<lambda>m.
       if \<not> m then Inr ''Unknown error''
       else ebind (js_getd js r ''error'' JNull) (\<lambda>e.
         if js_isNull js e then Inr ''Unknown error''
         else if js_convertible js e JTstring then js_asString js e
         else if js_convertible js e JTarray then join_items js False (js_items js e)
         else if js_convertible js e JTobject then join_items js True (js_items js e)
         else Inr []))"

definition gw_read_work :: "'j jsonlib \<Rightarrow> 'j \<Rightarrow> exn + WorkPackage" where
  "gw_read_work js prm =
     ebind (ebind (str_item js prm 0) (\<lambda>t. h256_of t)) (\<lambda>header.
     ebind (ebind (str_item js prm 1) (\<lambda>t. h256_of t)) (\<lambda>seed.
     ebind (ebind (str_item js prm 2) (\<lambda>t. h256_of t)) (\<lambda>boundary.
       Inr (new_WorkPackage\<lparr>wp_header := header, wp_seed := seed, wp_boundary := boundary,
                            wp_job := h_hex header DontAdd\<rparr>))))"

definition gw_new_work :: "nat \<Rightarrow> WorkPackage \<Rightarrow> 'j Getwork \<Rightarrow> 'j Getwork" where
  "gw_new_work now wp s =
     (if wp_header (gw_current s) \<noteq> wp_header wp
      then gw_event (OnWorkReceived wp) (s\<lparr>gw_current := wp, gw_current_tstamp := now\<rparr>) else s)"

definition gw_work_response :: "'j jsonlib \<Rightarrow> nat \<Rightarrow> bool \<Rightarrow> 'j \<Rightarrow> 'j Getwork \<Rightarrow> exn option \<times> 'j Getwork" where
  "gw_work_response js now success r s =
     (if \<not> success then gw_with_uri s (\<lambda>u. (None, s\<lparr>gw_timer := Some 30000\<rparr>))
      else withv (js_isMember js r ''result'') s (\<lambda>m.
        if \<not> m then gw_with_uri s (\<lambda>u. (None, s))
        else withv (js_getd js r ''result'' JNull) s (\<lambda>prm.
          withv (gw_read_work js prm) s (\<lambda>wp.
            (None, (gw_new_work now wp s)\<lparr>gw_timer := Some (gw_recheck s)\<rparr>)))))"

definition gw_solution_response :: "'j jsonlib \<Rightarrow> nat \<Rightarrow> u32 \<Rightarrow> bool \<Rightarrow> 'j \<Rightarrow> 'j Getwork \<Rightarrow> exn option \<times> 'j Getwork" where
  "gw_solution_response js now i success r s =
     withv (if success
            then ebind (js_get js r ''result'') (\<lambda>v.
                   if js_convertible js v JTboolean then js_asBool js v else Inr success)
            else Inr success) s (\<lambda>ok.
       let delay = now - gw_pending_tstamp s
       in (None, if ok then gw_event (OnSolutionAccepted delay (i - 40) False) s
                 else gw_event (OnSolutionRejected delay (i - 40)) s))"

definition gw_processResponse :: "'j jsonlib \<Rightarrow> nat \<Rightarrow> 'j \<Rightarrow> 'j Getwork \<Rightarrow> exn option \<times> 'j Getwork" where
  "gw_processResponse js now r s =
     withv (js_isMember js r ''id'') s (\<lambda>m.
       if \<not> m then gw_with_uri s (\<lambda>u. (None, s))
       else withv (ebind (js_getd js (gw_pendingJReq s) ''id'' (JInt 0)) (js_asUInt js)) s (\<lambda>i.
         withv (js_getd js r ''error'' JNull) s (\<lambda>err.
         let success = js_empty js err in
         withv (if success then Inr [] else gw_processError js r) s (\<lambda>reason.
           if i = 0 \<or> i = 1 then gw_work_response js now success r s
           else if i = 9 then (None, s)
           else if 40 \<le> i \<and> i \<le> gw_max_id s then gw_solution_response js now i success r s
           else (None, s)))))"

section \<open>Reading an HTTP response\<close>

text \<open>\<open>find("\r\n")\<close>: the text before the first line end and the text behind it.\<close>

fun break_crlf :: "string \<Rightarrow> (string \<times> string) option" where
  "break_crlf [] = None"
| "break_crlf (c # cs) =
     (if take 2 (c # cs) = crlf then Some ([], drop 2 (c # cs))
      else map_option (\<lambda>(l, r). (c # l, r)) (break_crlf cs))"

lemma break_crlf_length: "break_crlf s = Some (l, r) \<Longrightarrow> length r < length s"
  by (induction s arbitrary: l r) (auto split: if_splits)

text \<open>The status line: \<open>False\<close> when the response is invalid or not a success.\<close>

definition http_status_ok :: "string \<Rightarrow> bool" where
  "http_status_ok line =
     (take 7 line = ''HTTP/1.'' \<and>
      (case find_char (CHR '' '') line of None \<Rightarrow> False | Some k \<Rightarrow> take 3 (drop (k + 1) line) = ''200''))"

definition gw_body_line :: "'j jsonlib \<Rightarrow> nat \<Rightarrow> string \<Rightarrow> 'j Getwork \<Rightarrow> exn option \<times> 'j Getwork" where
  "gw_body_line js now line s =
     (case js_parse js line of None \<Rightarrow> (None, s) | Some r \<Rightarrow> gw_processResponse js now r s)"

text \<open>
  The loop over the lines. \<open>Inl\<close> ends the handler: with an exception, or after the disconnection of
  a client that got an invalid status. \<open>Inr\<close> is the state after the last line.
\<close>

function (sequential) gw_lines ::
  "'j jsonlib \<Rightarrow> nat \<Rightarrow> nat \<Rightarrow> bool \<Rightarrow> string \<Rightarrow> 'j Getwork \<Rightarrow> (exn option \<times> 'j Getwork) + 'j Getwork" where
  "gw_lines js now linenum header rx s =
     (case break_crlf rx of
        None \<Rightarrow> Inr s
      | Some (line, rest) \<Rightarrow>
          (if line = []
              then case break_crlf rest of
                     Some _ \<Rightarrow> gw_lines js now (linenum + 1) False rest s
                   | None \<Rightarrow> (let last = filter (\<lambda>c. c \<noteq> CHR 0x0A) rest
                              in case gw_body_line js now last s of
                                   (Some e, s1) \<Rightarrow> Inl (Some e, s1)
                                 | (None, s1) \<Rightarrow> Inr s1)
              else if header
              then if linenum = 0 \<and> \<not> http_status_ok line
                   then Inl (gw_with_uri s (\<lambda>u. gw_disconnect now s))
                   else gw_lines js now (linenum + 1) True rest s
              else (case gw_body_line js now line s of
                      (Some e, s1) \<Rightarrow> Inl (Some e, s1)
                    | (None, s1) \<Rightarrow> gw_lines js now (linenum + 1) False rest s1)))"
  by pat_completeness auto

termination
  by (relation "measure (\<lambda>(js, now, k, h, rx, s). length rx)") (auto dest: break_crlf_length)

declare gw_lines.simps [simp del]

text \<open>
  \<open>handle_read\<close>: \<open>received\<close> is the whole response (\<open>None\<close> when the read failed), \<open>aborted\<close> tells whether
  the failed operation was aborted.
\<close>

definition gw_next_request :: "nat \<Rightarrow> 'j Getwork \<Rightarrow> exn option \<times> 'j Getwork" where
  "gw_next_request now s =
     (if gw_txQueue s \<noteq> [] then gw_begin_connect now s else (None, s\<lparr>gw_txPending := False\<rparr>))"

definition gw_handle_read :: "'j jsonlib \<Rightarrow> nat \<Rightarrow> string option \<Rightarrow> bool \<Rightarrow> 'j Getwork \<Rightarrow> exn option \<times> 'j Getwork" where
  "gw_handle_read js now received aborted s =
     (case received of
        Some rx \<Rightarrow>
          (let s1 = s\<lparr>gw_socket_open := False\<rparr>
           in if rx = [] then gw_with_uri s1 (\<lambda>u. gw_disconnect now s1)
              else case gw_lines js now 0 True rx s1 of
                     Inl r \<Rightarrow> r
                   | Inr s2 \<Rightarrow> gw_next_request now s2)
      | None \<Rightarrow> if aborted then (None, s) else gw_with_uri s (\<lambda>u. gw_disconnect now s))"

section \<open>Submissions and the timer\<close>

definition gw_submitHashrate :: "'j jsonlib \<Rightarrow> nat \<Rightarrow> u64 \<Rightarrow> string \<Rightarrow> 'j Getwork \<Rightarrow> exn option \<times> 'j Getwork" where
  "gw_submitHashrate js now rate idn s =
     (if pc_session s = None then (None, s)
      else gw_send now (js_write js (JObj [(''id'', JInt 9), (''jsonrpc'', JStr ''2.0''),
             (''method'', JStr ''xcb_submitHashrate''), (''params'', JArr [JStr (toHex_u64 rate Add 16), JStr idn])])) s)"

definition gw_submit_request :: "Solution \<Rightarrow> jout" where
  "gw_submit_request sol =
     JObj [(''id'', JInt (int (unat (40 + sol_midx sol)))), (''jsonrpc'', JStr ''2.0''), (''method'', JStr ''xcb_submitWork''),
           (''params'', JArr [JStr (''0x'' @ toHex_u64 (sol_nonce sol) DontAdd 16),
                              JStr (''0x'' @ h_hex (wp_header (sol_work sol)) DontAdd),
                              JStr (''0x'' @ h_hex (sol_mixHash sol) DontAdd)])]"

definition gw_submitSolution :: "'j jsonlib \<Rightarrow> nat \<Rightarrow> Solution \<Rightarrow> 'j Getwork \<Rightarrow> exn option \<times> 'j Getwork" where
  "gw_submitSolution js now sol s =
     (if pc_session s = None then (None, s)
      else gw_send now (js_write js (gw_submit_request sol)) (s\<lparr>gw_max_id := max (gw_max_id s) (40 + sol_midx sol)\<rparr>))"

definition getwork_timer_elapsed :: "nat \<Rightarrow> bool \<Rightarrow> 'j Getwork \<Rightarrow> exn option \<times> 'j Getwork" where
  "getwork_timer_elapsed now err s0 =
     (if err then (None, s0)
      else let s = s0\<lparr>gw_timer := None\<rparr> in
        if int ((now - gw_current_tstamp s) div 1000) > gw_worktimeout s
        then case gw_endpoints s of
               [] \<Rightarrow> (Some UndefinedBehaviour, s)
             | e # es \<Rightarrow> gw_disconnect now (s\<lparr>gw_endpoints := es\<rparr>)
        else gw_send now (gw_jsonGetWork s) s)"

end
