(* ===== verification/GetworkProps.thy ===== *)
theory GetworkProps
  imports Getwork ClientContract
begin

text \<open>
  The getwork client keeps the contract of the manager, and how its requests and responses follow
  each other. The identifier of a response is that of the pending request, so that the account of
  the solutions rests on the lines the client writes being read back with their identifiers.
\<close>

section \<open>What is required of the JSON library\<close>

definition request_id :: "'j jsonlib \<Rightarrow> 'j \<Rightarrow> exn + u32" where
  "request_id js v = ebind (js_getd js v ''id'' (JInt 0)) (js_asUInt js)"

text \<open>
  An object that is written and parsed again has its identifier, an absent value has none.
\<close>

definition json_ids :: "'j jsonlib \<Rightarrow> bool" where
  "json_ids js \<longleftrightarrow>
     request_id js (js_of js JNull) = Inr 0 \<and>
     (\<forall>ms i. map_of ms ''id'' = Some (JInt (int (unat i))) \<longrightarrow>
        js_write js (JObj ms) \<noteq> [] \<and>
        (\<exists>v. js_parse js (js_write js (JObj ms)) = Some v \<and> request_id js v = Inr i))"

section \<open>Invariant\<close>

definition id_ok :: "nat \<Rightarrow> u32 \<Rightarrow> bool" where
  "id_ok n i \<longleftrightarrow> i < 40 \<or> unat i < 40 + n"

definition gw_line_ok :: "'j jsonlib \<Rightarrow> nat \<Rightarrow> string \<Rightarrow> bool" where
  "gw_line_ok js n l \<longleftrightarrow>
     (\<exists>ms i. l = js_write js (JObj ms) \<and> map_of ms ''id'' = Some (JInt (int (unat i))) \<and> id_ok n i)"

definition gw_inv :: "'j jsonlib \<Rightarrow> nat \<Rightarrow> 'j Getwork \<Rightarrow> bool" where
  "gw_inv js n s \<longleftrightarrow>
     json_ids js \<and> wp_wf (gw_current s) \<and>
     (\<forall>i. pc_conn s = Some i \<longrightarrow> i < length (gw_uris s)) \<and>
     list_all (gw_line_ok js n) (gw_jsonGetWork s # gw_txQueue s) \<and>
     (\<forall>i. request_id js (gw_pendingJReq s) = Inr i \<longrightarrow> id_ok n i) \<and>
     list_all (event_ok n) (gw_events s)"

lemma gw_fields [inv_rules]:
  "gw_inv js n s \<Longrightarrow> gw_inv js n (s\<lparr>pc_connected := b\<rparr>)"
  "gw_inv js n s \<Longrightarrow> gw_inv js n (s\<lparr>pc_session := x\<rparr>)"
  "gw_inv js n s \<Longrightarrow> gw_inv js n (s\<lparr>pc_endpoint := e\<rparr>)"
  "gw_inv js n s \<Longrightarrow> gw_inv js n (s\<lparr>gw_connecting := b\<rparr>)"
  "gw_inv js n s \<Longrightarrow> gw_inv js n (s\<lparr>gw_txPending := b\<rparr>)"
  "gw_inv js n s \<Longrightarrow> gw_inv js n (s\<lparr>gw_txQueue := []\<rparr>)"
  "gw_inv js n s \<Longrightarrow> gw_inv js n (s\<lparr>gw_socket_open := b\<rparr>)"
  "gw_inv js n s \<Longrightarrow> gw_inv js n (s\<lparr>gw_endpoints := es\<rparr>)"
  "gw_inv js n s \<Longrightarrow> gw_inv js n (s\<lparr>gw_request := r\<rparr>)"
  "gw_inv js n s \<Longrightarrow> gw_inv js n (s\<lparr>gw_timer := t\<rparr>)"
  "gw_inv js n s \<Longrightarrow> gw_inv js n (s\<lparr>gw_current_tstamp := k\<rparr>)"
  "gw_inv js n s \<Longrightarrow> gw_inv js n (s\<lparr>gw_max_id := m\<rparr>)"
  "gw_inv js n s \<Longrightarrow> gw_inv js n (gw_do p s)"
  "gw_inv js n s \<Longrightarrow> event_ok n v \<Longrightarrow> gw_inv js n (gw_event v s)"
  "gw_inv js n s \<Longrightarrow> gw_inv js n (s\<lparr>gw_events := []\<rparr>)"
  by (simp_all add: gw_inv_def gw_do_def gw_event_def)

lemma gw_withv_inv:
  "gw_inv js n s \<Longrightarrow> (\<And>v. r = Inr v \<Longrightarrow> gw_inv js n (snd (k v))) \<Longrightarrow> gw_inv js n (snd (withv r s k))"
  by (cases r) simp_all

lemma gw_with_uri_inv:
  "gw_inv js n s \<Longrightarrow> (\<And>u. gw_inv js n (snd (k u))) \<Longrightarrow> gw_inv js n (snd (gw_with_uri s k))"
  by (simp add: gw_with_uri_def split: option.splits)

lemmas gw_intros = gw_withv_inv gw_with_uri_inv

lemma gw_uri_inv: "gw_inv js n s \<Longrightarrow> gw_inv js n (s\<lparr>gw_uris := upd_uri f i (gw_uris s)\<rparr>)"
  by (simp add: gw_inv_def)

lemma gw_disconnect_inv [inv_rules]: "gw_inv js n s \<Longrightarrow> gw_inv js n (snd (gw_disconnect now s))"
  using gw_uri_inv [of js n "s\<lparr>pc_connected := False\<rparr>"]
  by (auto simp: gw_disconnect_def inv_rules Let_def split: option.splits)

lemma gw_begin_connect_inv [inv_rules]: "gw_inv js n s \<Longrightarrow> gw_inv js n (snd (gw_begin_connect now s))"
  by (auto simp: gw_begin_connect_def inv_rules intro!: gw_intros split: list.splits)

lemma gw_queue_inv: "gw_inv js n s \<Longrightarrow> gw_line_ok js n l \<Longrightarrow> gw_inv js n (s\<lparr>gw_txQueue := gw_txQueue s @ [l]\<rparr>)"
  by (simp add: gw_inv_def)

lemma gw_send_inv [inv_rules]: "gw_inv js n s \<Longrightarrow> gw_line_ok js n l \<Longrightarrow> gw_inv js n (snd (gw_send now l s))"
  by (simp add: gw_send_def gw_queue_inv inv_rules Let_def)

lemma getWork_line [simp]: "gw_inv js n s \<Longrightarrow> gw_line_ok js n (gw_jsonGetWork s)"
  by (simp add: gw_inv_def)

lemma gw_connect_inv [inv_rules]: "gw_inv js n s \<Longrightarrow> gw_inv js n (snd (gw_connect ep now s))"
  by (auto simp: gw_connect_def inv_rules Let_def intro!: gw_intros)

lemma gw_handle_resolve_inv [inv_rules]: "gw_inv js n s \<Longrightarrow> gw_inv js n (snd (gw_handle_resolve now eps s))"
  by (auto simp: gw_handle_resolve_def inv_rules intro!: gw_intros split: option.splits)

lemma gw_next_endpoint_inv [inv_rules]: "gw_inv js n s \<Longrightarrow> gw_inv js n (snd (gw_next_endpoint now s))"
  by (auto simp: gw_next_endpoint_def inv_rules intro!: gw_intros split: list.splits)

lemma gw_start_session_inv [inv_rules]: "gw_inv js n s \<Longrightarrow> gw_inv js n (gw_start_session now s)"
  by (simp add: gw_start_session_def inv_rules)

lemma line_pending:
  assumes "json_ids js" and "gw_line_ok js n l" and "js_parse js l = Some v" and "request_id js v = Inr i"
  shows "id_ok n i"
  using assms by (force simp: json_ids_def gw_line_ok_def)

lemma gw_write_line_inv:
  assumes "gw_inv js n s" and "gw_line_ok js n l" and "list_all (gw_line_ok js n) rest"
  shows "gw_inv js n (snd (gw_write_line js now l rest s))"
proof -
  let ?s = "s\<lparr>gw_txQueue := rest, gw_pending_tstamp := now,
    gw_pendingJReq := (case js_parse js l of Some v \<Rightarrow> v | None \<Rightarrow> gw_pendingJReq s)\<rparr>"
  have "gw_inv js n ?s"
    using assms line_pending [of js n l] by (auto simp: gw_inv_def split: option.splits)
  then show ?thesis by (auto simp: gw_write_line_def inv_rules Let_def intro!: gw_intros)
qed

lemma gw_submit_first_inv [inv_rules]:
  assumes "gw_inv js n s"
  shows "gw_inv js n (snd (gw_submit_first js now s))"
proof -
  have q: "list_all (gw_line_ok js n) (dropWhile (\<lambda>l. l = []) (gw_txQueue s))"
    using assms by (auto simp: gw_inv_def list_all_iff dest: set_dropWhileD)
  show ?thesis
    using assms q gw_write_line_inv [OF assms]
    by (auto simp: gw_submit_first_def inv_rules split: list.splits)
qed

lemma gw_handle_connect_inv [inv_rules]: "gw_inv js n s \<Longrightarrow> gw_inv js n (snd (gw_handle_connect js now err s))"
  by (simp add: gw_handle_connect_def inv_rules)

lemma gw_handle_write_inv [inv_rules]: "gw_inv js n s \<Longrightarrow> gw_inv js n (snd (gw_handle_write now err sent s))"
  by (simp add: gw_handle_write_def inv_rules Let_def split: option.splits)

lemma gw_read_work_wf: "gw_read_work js prm = Inr wp \<Longrightarrow> wp_wf wp"
  unfolding gw_read_work_def by (auto simp: ebind_def wp_wf_def FixedHash_string_length split: sum.splits)

lemma gw_new_work_inv [inv_rules]: "gw_inv js n s \<Longrightarrow> wp_wf wp \<Longrightarrow> gw_inv js n (gw_new_work now wp s)"
  by (simp add: gw_new_work_def gw_inv_def gw_event_def)

lemma gw_work_response_inv [inv_rules]: "gw_inv js n s \<Longrightarrow> gw_inv js n (snd (gw_work_response js now ok r s))"
  by (auto simp: gw_work_response_def inv_rules gw_read_work_wf intro!: gw_intros)

lemma gw_solution_response_inv [inv_rules]:
  assumes "gw_inv js n s" and "40 \<le> i" and "id_ok n i"
  shows "gw_inv js n (snd (gw_solution_response js now i ok r s))"
proof -
  have "unat (i - 40) = unat i - 40" using assms(2) by (simp add: unat_sub)
  moreover have "40 \<le> unat i" using assms(2) by (simp add: word_le_nat_alt)
  ultimately have "unat (i - 40) < n" using assms(3) by (auto simp: id_ok_def word_less_nat_alt)
  then show ?thesis using assms(1) by (auto simp: gw_solution_response_def inv_rules Let_def intro!: gw_intros)
qed

lemma gw_processResponse_inv [inv_rules]:
  assumes "gw_inv js n s"
  shows "gw_inv js n (snd (gw_processResponse js now r s))"
proof -
  have "id_ok n i" if "ebind (js_getd js (gw_pendingJReq s) ''id'' (JInt 0)) (js_asUInt js) = Inr i" for i
    using assms that by (simp add: gw_inv_def request_id_def)
  then show ?thesis
    using assms by (auto simp: gw_processResponse_def inv_rules Let_def intro!: gw_intros)
qed

lemma gw_body_line_inv [inv_rules]: "gw_inv js n s \<Longrightarrow> gw_inv js n (snd (gw_body_line js now l s))"
  by (simp add: gw_body_line_def inv_rules split: option.splits)

lemma gw_lines_inv:
  "gw_inv js n s \<Longrightarrow>
     (case gw_lines js now k h rx s of Inl r \<Rightarrow> gw_inv js n (snd r) | Inr t \<Rightarrow> gw_inv js n t)"
proof (induction js now k h rx s rule: gw_lines.induct)
  case (1 js now k h rx s)
  have b: "gw_inv js n t" if "gw_body_line js now l s = (e, t)" for l e t
    using gw_body_line_inv [OF 1(4), of now l] that by simp
  have d: "gw_inv js n (snd (gw_with_uri s (\<lambda>u. gw_disconnect now s)))"
    using 1(4) by (auto simp: inv_rules intro!: gw_intros)
  note ih = 1(1) [OF _ refl] 1(2) [OF _ refl] 1(3) [OF _ refl]
  show ?case
  proof (cases "break_crlf rx")
    case None
    then show ?thesis using 1(4) by (simp add: gw_lines.simps)
  next
    case (Some lr)
    obtain l r where lr: "lr = (l, r)" by (cases lr)
    show ?thesis
      using Some 1(4) b d ih
      by (cases "l = []"; cases h; cases "gw_body_line js now l s"; cases "fst (gw_body_line js now l s)"; subst gw_lines.simps)
        (auto simp: lr Let_def split: option.splits prod.splits)
  qed
qed

lemma gw_handle_read_inv [inv_rules]: "gw_inv js n s \<Longrightarrow> gw_inv js n (snd (gw_handle_read js now rx ab s))"
proof (cases rx)
  case (Some t)
  assume "gw_inv js n s"
  then have i: "gw_inv js n (s\<lparr>gw_socket_open := False\<rparr>)" by (simp add: inv_rules)
  from gw_lines_inv [OF this, of now 0 True t] i show ?thesis
    by (auto simp: Some gw_handle_read_def gw_next_request_def inv_rules Let_def intro!: gw_intros split: sum.splits)
qed (auto simp: gw_handle_read_def inv_rules intro!: gw_intros)

lemma gw_line_okI:
  "l = js_write js (JObj ((''id'', JInt (int (unat i))) # ms)) \<Longrightarrow> id_ok n i \<Longrightarrow> gw_line_ok js n l"
  unfolding gw_line_ok_def by (intro exI conjI) (assumption, simp_all)

lemma gw_submitHashrate_inv [inv_rules]: "gw_inv js n s \<Longrightarrow> gw_inv js n (snd (gw_submitHashrate js now rate i s))"
proof -
  have "gw_line_ok js n (js_write js (JObj [(''id'', JInt 9), (''jsonrpc'', JStr ''2.0''),
             (''method'', JStr ''xcb_submitHashrate''), (''params'', JArr [JStr (toHex_u64 rate Add 16), JStr i])]))"
    by (rule gw_line_okI [of _ _ 9]) (simp_all add: id_ok_def)
  then show "gw_inv js n s \<Longrightarrow> ?thesis" by (simp add: gw_submitHashrate_def inv_rules)
qed

lemma gw_submitSolution_inv [inv_rules]:
  assumes "gw_inv js n s" and "unat (sol_midx sol) < n" and "40 + n < 2 ^ 32"
  shows "gw_inv js n (snd (gw_submitSolution js now sol s))"
proof -
  have "unat (40 + sol_midx sol) = 40 + unat (sol_midx sol)" using assms(2,3) by (simp add: unat_word_ariths)
  then have "id_ok n (40 + sol_midx sol)" using assms(2) by (simp add: id_ok_def)
  then have "gw_line_ok js n (js_write js (gw_submit_request sol))"
    unfolding gw_submit_request_def by (rule gw_line_okI [OF refl])
  then show ?thesis using assms(1) by (simp add: gw_submitSolution_def inv_rules)
qed

lemma getwork_timer_inv [inv_rules]: "gw_inv js n s \<Longrightarrow> gw_inv js n (snd (getwork_timer_elapsed now err s))"
  by (simp add: getwork_timer_elapsed_def inv_rules Let_def split: list.splits)

section \<open>The client as a machine\<close>

definition gw_setConnection :: "nat \<Rightarrow> 'j Getwork \<Rightarrow> 'j Getwork" where
  "gw_setConnection i s = (let (uris, s1) = setConnection i (gw_uris s) s in s1\<lparr>gw_uris := uris\<rparr>)"

inductive gw_step :: "'j jsonlib \<Rightarrow> nat \<Rightarrow> 'j Getwork \<Rightarrow> 'j Getwork \<Rightarrow> bool" for js n where
  set_conn: "i < length (gw_uris s) \<Longrightarrow> gw_step js n s (gw_setConnection i s)"
| unset_conn: "gw_step js n s (unsetConnection s)"
| connect: "gw_step js n s (snd (gw_connect ep now s))"
| disconnect: "gw_step js n s (snd (gw_disconnect now s))"
| resolved: "gw_step js n s (snd (gw_handle_resolve now eps s))"
| connected: "gw_step js n s (snd (gw_handle_connect js now err s))"
| written: "gw_step js n s (snd (gw_handle_write now err sent s))"
| received: "gw_step js n s (snd (gw_handle_read js now rx ab s))"
| timer: "gw_step js n s (snd (getwork_timer_elapsed now failed s))"
| hashrate: "gw_step js n s (snd (gw_submitHashrate js now rate idn s))"
| solution: "unat (sol_midx sol) < n \<Longrightarrow> 40 + n < 2 ^ 32 \<Longrightarrow> gw_step js n s (snd (gw_submitSolution js now sol s))"
| delivered: "gw_step js n s (s\<lparr>gw_events := []\<rparr>)"

inductive gw_init :: "'j jsonlib \<Rightarrow> nat \<Rightarrow> 'j Getwork \<Rightarrow> bool" for js n where
  fresh: "json_ids js \<Longrightarrow> gw_init js n (new_Getwork js wt recheck garbage uris)"

lemma new_Getwork_inv: "json_ids js \<Longrightarrow> gw_inv js n (new_Getwork js wt recheck garbage uris)"
proof -
  have "gw_line_ok js n (js_write js getWork_request)"
    unfolding getWork_request_def by (rule gw_line_okI [of _ _ 1]) (simp_all add: id_ok_def)
  then show "json_ids js \<Longrightarrow> ?thesis"
    by (simp add: gw_inv_def new_Getwork_def new_PoolClient_def PoolClient.defs json_ids_def id_ok_def)
qed

lemma gw_manager_inv [inv_rules]:
  "gw_inv js n s \<Longrightarrow> i < length (gw_uris s) \<Longrightarrow> gw_inv js n (gw_setConnection i s)"
  "gw_inv js n s \<Longrightarrow> gw_inv js n (unsetConnection s)"
  by (simp_all add: gw_inv_def gw_setConnection_def setConnection_def unsetConnection_def)

lemma gw_step_inv: "gw_step js n s t \<Longrightarrow> gw_inv js n s \<Longrightarrow> gw_inv js n t"
  by (induction rule: gw_step.induct) (simp_all add: inv_rules)

lemma gw_inv_events: "gw_inv js n s \<Longrightarrow> ev \<in> set (gw_events s) \<Longrightarrow> event_ok n ev"
  by (simp add: gw_inv_def list_all_iff)

interpretation getwork: pool_client "gw_init js" "gw_step js" gw_events "gw_inv js"
  by unfold_locales
    (auto elim!: gw_init.cases intro: new_Getwork_inv gw_step_inv gw_inv_events)

section \<open>HTTP responses\<close>

definition http_response :: "string list \<Rightarrow> string \<Rightarrow> string" where
  "http_response headers body = concat (map (\<lambda>l. l @ crlf) headers) @ crlf @ body"

definition plain_line :: "string \<Rightarrow> bool" where
  "plain_line l \<longleftrightarrow> l \<noteq> [] \<and> CHR 0x0D \<notin> set l"

lemma break_crlf_line: "CHR 0x0D \<notin> set l \<Longrightarrow> break_crlf (l @ crlf @ r) = Some (l, r)"
proof (induction l)
  case Nil
  show ?case by (simp add: crlf_def)
next
  case (Cons c l)
  then show ?case by (auto simp: crlf_def)
qed

lemma break_crlf_none: "CHR 0x0D \<notin> set l \<Longrightarrow> break_crlf l = None"
  by (induction l) (auto simp: crlf_def)

definition gw_end :: "exn option \<times> 'j Getwork \<Rightarrow> (exn option \<times> 'j Getwork) + 'j Getwork" where
  "gw_end r = (case r of (Some e, s) \<Rightarrow> Inl (Some e, s) | (None, s) \<Rightarrow> Inr s)"

lemma gw_lines_body:
  assumes "CHR 0x0D \<notin> set body"
  shows "gw_lines js now k h (crlf @ body) s = gw_end (gw_body_line js now (filter (\<lambda>c. c \<noteq> CHR 0x0A) body) s)"
  using break_crlf_line [of "[]" body] break_crlf_none [OF assms]
  by (subst gw_lines.simps) (simp add: gw_end_def Let_def)

lemma gw_lines_header:
  assumes "plain_line l" and "k = 0 \<longrightarrow> http_status_ok l"
  shows "gw_lines js now k True (l @ crlf @ r) s = gw_lines js now (k + 1) True r s"
  using assms break_crlf_line [of l r] by (subst gw_lines.simps) (auto simp: plain_line_def)

lemma gw_lines_headers:
  assumes "list_all plain_line hs" and "0 < k"
  shows "gw_lines js now k True (concat (map (\<lambda>l. l @ crlf) hs) @ r) s = gw_lines js now (k + length hs) True r s"
  using assms by (induction hs arbitrary: k) (auto simp: gw_lines_header [simplified])

lemma gw_lines_response:
  assumes "plain_line st" and "http_status_ok st" and "list_all plain_line hs" and "CHR 0x0D \<notin> set body"
  shows "gw_lines js now 0 True (http_response (st # hs) body) s =
    gw_end (gw_body_line js now (filter (\<lambda>c. c \<noteq> CHR 0x0A) body) s)"
  using gw_lines_header [of st 0 js now "concat (map (\<lambda>l. l @ crlf) hs) @ crlf @ body" s] assms
    gw_lines_headers [OF assms(3), of 1 js now "crlf @ body" s] gw_lines_body [OF assms(4), of js now "1 + length hs" True s]
  by (simp add: http_response_def)

section \<open>One request after the other\<close>

text \<open>A client that waits for its timer.\<close>

definition gw_idle :: "nat \<Rightarrow> 'j Getwork \<Rightarrow> bool" where
  "gw_idle i s \<longleftrightarrow>
     pc_conn s = Some i \<and> pc_session s \<noteq> None \<and> \<not> gw_connecting s \<and> \<not> gw_txPending s \<and> gw_txQueue s = [] \<and>
     gw_request s = [] \<and> gw_endpoints s \<noteq> []"

text \<open>A client whose request has been written, the response being awaited.\<close>

definition gw_awaiting :: "nat \<Rightarrow> string \<Rightarrow> 'j Getwork \<Rightarrow> bool" where
  "gw_awaiting i line s \<longleftrightarrow>
     pc_conn s = Some i \<and> pc_session s \<noteq> None \<and> \<not> gw_connecting s \<and> gw_txPending s \<and> gw_txQueue s = [] \<and>
     gw_request s = [] \<and> gw_endpoints s \<noteq> []"

text \<open>The timer elapses, the connection is made, the request is written.\<close>

definition gw_ask :: "'j jsonlib \<Rightarrow> nat \<Rightarrow> 'j Getwork \<Rightarrow> 'j Getwork" where
  "gw_ask js now s =
     snd (gw_handle_write now None 0 (snd (gw_handle_connect js now None (snd (getwork_timer_elapsed now False s)))))"

lemma gw_ask_awaiting:
  assumes "gw_idle i s" and "int ((now - gw_current_tstamp s) div 1000) \<le> gw_worktimeout s" and "gw_jsonGetWork s \<noteq> []"
    and "js_parse js (gw_jsonGetWork s) = Some v"
  shows "let t = gw_ask js now s in
    gw_ops t = gw_ops s @ [Gw_connect (hd (gw_endpoints s)), Gw_write (http_request (gw_uris s ! i) (gw_jsonGetWork s)), Gw_read] \<and>
    gw_awaiting i (gw_jsonGetWork s) t \<and> gw_pendingJReq t = v \<and> gw_current t = gw_current s \<and> gw_events t = gw_events s \<and>
    gw_recheck t = gw_recheck s \<and> gw_timer t = None"
  using assms
  by (cases "gw_endpoints s")
    (auto simp: gw_idle_def gw_awaiting_def gw_ask_def getwork_timer_elapsed_def gw_send_def gw_begin_connect_def gw_do_def
      gw_handle_connect_def gw_start_session_def gw_submit_first_def gw_write_line_def gw_with_uri_def gw_handle_write_def Let_def)

lemma gw_work_body:
  assumes "gw_awaiting i line t" and "js_parse js body = Some r" and "js_isMember js r ''id'' = Inr True"
    and "request_id js (gw_pendingJReq t) = Inr 1" and "js_getd js r ''error'' JNull = Inr err" and "js_empty js err"
    and "js_isMember js r ''result'' = Inr True" and "js_getd js r ''result'' JNull = Inr prm" and "gw_read_work js prm = Inr wp"
  shows "gw_body_line js now body t = (None, (gw_new_work now wp t)\<lparr>gw_timer := Some (gw_recheck t)\<rparr>)"
  using assms by (simp add: gw_body_line_def gw_processResponse_def gw_work_response_def request_id_def Let_def)

text \<open>
  C35: The client polls. When its timer elapses on an idle client, the request for work is written
  as one HTTP request; a response with any headers and the status 200 whose body carries a work
  package makes the client report it exactly when its header hash differs from that of the current
  one, and leaves the client idle with the timer armed for the next request.
\<close>

theorem getwork_polls:
  assumes "gw_idle i s" and "int ((now - gw_current_tstamp s) div 1000) \<le> gw_worktimeout s" and "gw_jsonGetWork s \<noteq> []"
    and "js_parse js (gw_jsonGetWork s) = Some v" and "request_id js v = Inr 1"
    and "plain_line st" and "http_status_ok st" and "list_all plain_line hs" and "CHR 0x0D \<notin> set body"
    and "js_parse js (filter (\<lambda>c. c \<noteq> CHR 0x0A) body) = Some r" and "js_isMember js r ''id'' = Inr True"
    and "js_getd js r ''error'' JNull = Inr err" and "js_empty js err"
    and "js_isMember js r ''result'' = Inr True" and "js_getd js r ''result'' JNull = Inr prm" and "gw_read_work js prm = Inr wp"
  shows "let (e, t) = gw_handle_read js now' (Some (http_response (st # hs) body)) False (gw_ask js now s) in
    e = None \<and> gw_idle i t \<and> gw_timer t = Some (gw_recheck s) \<and>
    wp_header (gw_current t) = wp_header wp \<and>
    gw_events t = gw_events s @ (if wp_header (gw_current s) = wp_header wp then [] else [OnWorkReceived wp]) \<and>
    gw_ops t = gw_ops s @ [Gw_connect (hd (gw_endpoints s)), Gw_write (http_request (gw_uris s ! i) (gw_jsonGetWork s)), Gw_read]"
proof -
  define t where "t = (gw_ask js now s)\<lparr>gw_socket_open := False\<rparr>"
  have a: "gw_awaiting i (gw_jsonGetWork s) t" "gw_pendingJReq t = v" "gw_current t = gw_current s" "gw_events t = gw_events s"
    "gw_recheck t = gw_recheck s"
    "gw_ops t = gw_ops s @ [Gw_connect (hd (gw_endpoints s)), Gw_write (http_request (gw_uris s ! i) (gw_jsonGetWork s)), Gw_read]"
    using gw_ask_awaiting [OF assms(1-4)] by (simp_all add: t_def gw_awaiting_def Let_def)
  let ?w = "(gw_new_work now' wp t)\<lparr>gw_timer := Some (gw_recheck t)\<rparr>"
  have "gw_lines js now' 0 True (http_response (st # hs) body) t = Inr ?w"
    using gw_lines_response [OF assms(6-9), of js now' t] gw_work_body [OF a(1) assms(10,11) _ assms(12-16)] assms(5) a(2)
    by (simp add: gw_end_def)
  moreover have "http_response (st # hs) body \<noteq> []" using assms(6) by (simp add: http_response_def plain_line_def)
  ultimately have h: "gw_handle_read js now' (Some (http_response (st # hs) body)) False (gw_ask js now s) = gw_next_request now' ?w"
    by (simp add: gw_handle_read_def t_def [symmetric])
  show ?thesis
    using a by (auto simp: h gw_next_request_def gw_new_work_def gw_event_def gw_idle_def gw_awaiting_def)
qed

text \<open>
  A lost request is not repeated. When the write of the request for work fails on a client with
  another endpoint left, the next connection finds the queue empty: the client becomes idle without
  an armed timer and without any operation under way, and so never asks for work again.
\<close>

theorem getwork_write_failure_stalls:
  assumes "gw_idle i s" and "int ((now - gw_current_tstamp s) div 1000) \<le> gw_worktimeout s" and "gw_jsonGetWork s \<noteq> []"
    and "gw_endpoints s = e1 # e2 # es"
  shows "let asked = snd (gw_handle_connect js now None (snd (getwork_timer_elapsed now False s)));
             failed = snd (gw_handle_write now' (Some False) k asked);
             (e, t) = gw_handle_connect js now'' None failed in
    e = None \<and> last (gw_ops t) = Gw_connect e2 \<and> gw_txQueue t = [] \<and> \<not> gw_txPending t \<and> gw_timer t = None \<and>
    gw_events t = gw_events s"
  using assms
  by (auto simp: gw_idle_def getwork_timer_elapsed_def gw_send_def gw_begin_connect_def gw_do_def gw_next_endpoint_def
      gw_handle_connect_def gw_start_session_def gw_submit_first_def gw_write_line_def gw_with_uri_def gw_handle_write_def Let_def)

section \<open>A sample\<close>

text \<open>A library whose texts are the identifiers; every other text is one response with work.\<close>

definition sample_response :: jout where
  "sample_response = JObj [(''id'', JInt 1), (''result'', JArr [JStr (concat (replicate 32 ''01'')), JStr ''00'', JStr ''00''])]"

definition sample_http_json :: "jout jsonlib" where
  "sample_http_json = (sample_json [])
     \<lparr>js_write := (\<lambda>j. case j of JObj ms \<Rightarrow> (case map_of ms ''id'' of Some (JInt i) \<Rightarrow> decstr (nat i) | _ \<Rightarrow> []) | _ \<Rightarrow> []),
      js_parse := (\<lambda>t. Some (if t = ''{}'' then sample_response else JObj [(''id'', JInt (int (decnum t)))]))\<rparr>"

lemma sample_http_json_ids: "json_ids sample_http_json"
proof -
  have d: "decstr k \<noteq> ''{}''" for k
  proof
    assume "decstr k = ''{}''"
    then obtain x where "CHR ''{'' = hexdig x" "x < 10" using decstr_digits [of k] by auto
    then have "digit_val (CHR ''{'') = Some x" by simp
    then show False by (simp add: digit_val_def split: if_splits)
  qed
  have i: "int (unat i) < 2 ^ 32" for i :: u32 using unsigned_less [of i] by simp
  show ?thesis
    using decstr_not_Nil d i
    by (auto simp: json_ids_def request_id_def sample_http_json_def sample_json_def decnum_decstr ebind_def)
qed

definition sample_getwork :: "jout Getwork" where
  "sample_getwork = (new_Getwork sample_http_json 180 500 0 [sample_uri ''eu''])
     \<lparr>pc_conn := Some 0, pc_session := Some (new_Session 0), gw_endpoints := [''10.0.0.1:80'', ''10.0.0.2:80'']\<rparr>"

lemma sample_getwork_idle:
  "gw_idle 0 sample_getwork" "gw_current_tstamp sample_getwork = 0" "gw_worktimeout sample_getwork = 180"
  "gw_jsonGetWork sample_getwork = ''1''" "gw_endpoints sample_getwork = [''10.0.0.1:80'', ''10.0.0.2:80'']"
  "gw_events sample_getwork = []" "wp_header (gw_current sample_getwork) = h256_zero" "gw_recheck sample_getwork = 500"
proof -
  have "decstr 1 = ''1''" by code_simp
  then show "gw_jsonGetWork sample_getwork = ''1''"
    by (simp add: sample_getwork_def new_Getwork_def PoolClient.defs getWork_request_def sample_http_json_def)
qed (simp_all add: gw_idle_def sample_getwork_def new_Getwork_def new_PoolClient_def PoolClient.defs new_WorkPackage_def)

lemma getwork_write_failure_stalls_witness:
  "gw_timer (snd (gw_handle_connect sample_http_json 30 None (snd (gw_handle_write 20 (Some False) 0
     (snd (gw_handle_connect sample_http_json 10 None (snd (getwork_timer_elapsed 10 False sample_getwork)))))))) = None"
  using getwork_write_failure_stalls [OF sample_getwork_idle(1) _ _ sample_getwork_idle(5), of 10 sample_http_json 20 0 30]
  by (simp add: sample_getwork_idle case_prod_beta Let_def)

lemma getwork_polls_witness:
  "\<exists>wp. gw_events (snd (gw_handle_read sample_http_json 20 (Some (http_response [''HTTP/1.1 200 OK'', ''Date: x''] ''{}'')) False
     (gw_ask sample_http_json 10 sample_getwork))) = [OnWorkReceived wp]"
proof -
  let ?js = sample_http_json
  let ?prm = "JArr [JStr (concat (replicate 32 ''01'')), JStr ''00'', JStr ''00'']"
  have h: "h256_of (concat (replicate 32 ''01'')) = Inr (replicate 32 1)" "h256_of ''00'' = Inr h256_zero"
    by code_simp+
  have i: "str_item ?js ?prm 0 = Inr (concat (replicate 32 ''01''))" "str_item ?js ?prm 1 = Inr ''00''" "str_item ?js ?prm 2 = Inr ''00''"
    by code_simp+
  obtain wp where wp: "gw_read_work ?js ?prm = Inr wp" "wp_header wp = replicate 32 1"
    using h by (simp add: gw_read_work_def i [unfolded One_nat_def])
  have r: "js_parse ?js (filter (\<lambda>c. c \<noteq> CHR 0x0A) ''{}'') = Some sample_response" "js_isMember ?js sample_response ''id'' = Inr True"
    "js_getd ?js sample_response ''error'' JNull = Inr JNull" "js_empty ?js JNull"
    "js_isMember ?js sample_response ''result'' = Inr True" "js_getd ?js sample_response ''result'' JNull = Inr ?prm"
    by (simp_all add: sample_http_json_def sample_json_def sample_response_def ebind_def)
  have n: "decnum ''1'' = 1" by code_simp
  have v: "js_parse ?js ''1'' = Some (JObj [(''id'', JInt 1)])" "request_id ?js (JObj [(''id'', JInt 1)]) = Inr 1"
    by (simp_all add: sample_http_json_def sample_json_def request_id_def ebind_def n)
  have s: "plain_line ''HTTP/1.1 200 OK''" "http_status_ok ''HTTP/1.1 200 OK''" "list_all plain_line [''Date: x'']" "CHR 0x0D \<notin> set ''{}''"
    by code_simp+
  have z: "h256_zero \<noteq> replicate 32 (1 :: byte)" by code_simp
  have "gw_events (snd (gw_handle_read ?js 20 (Some (http_response [''HTTP/1.1 200 OK'', ''Date: x''] ''{}'')) False (gw_ask ?js 10 sample_getwork)))
      = [OnWorkReceived wp]"
    using getwork_polls [of 0 sample_getwork 10 ?js, OF sample_getwork_idle(1) _ _ _ v(2) s r wp(1), of 20] v(1) wp(2) z
    by (simp add: sample_getwork_idle case_prod_beta Let_def)
  then show ?thesis by blast
qed

end
