(* ===== verification/Simulate.thy ===== *)
theory Simulate
  imports ClientContract
begin

text \<open>
  The simulation client (\<open>src/libpoolprotocols/testing/SimulateClient.h\<close>,
  \<open>src/libpoolprotocols/testing/SimulateClient.cpp\<close>): a session without a network, one made-up job,
  and solutions that are judged on the spot. Its thread is a \<open>Worker\<close>.
\<close>

section \<open>State\<close>

text \<open>\<open>si_max\<close> and \<open>si_mean\<close> are \<open>float\<close>s; \<open>f32\<close> below is the rounding of single precision.\<close>

record Simulate = PoolClient +
  si_block :: u32
  si_max :: real
  si_mean :: real
  si_worker :: Worker
  si_uris :: "URI list"
  si_events :: "client_event list"

definition new_Simulate :: "u32 \<Rightarrow> URI list \<Rightarrow> Simulate" where
  "new_Simulate block uris =
     PoolClient.extend new_PoolClient
       \<lparr>si_block = block, si_max = 0, si_mean = 0, si_worker = new_Worker, si_uris = uris, si_events = []\<rparr>"

definition si_event :: "client_event \<Rightarrow> Simulate \<Rightarrow> Simulate" where
  "si_event e s = s\<lparr>si_events := si_events s @ [e]\<rparr>"

section \<open>Operations\<close>

definition si_connect :: "nat \<Rightarrow> Simulate \<Rightarrow> Simulate" where
  "si_connect now s =
     (let s1 = si_event OnConnected
                 (s\<lparr>pc_connected := True,
                    pc_session := Some ((new_Session now)\<lparr>se_subscribed := True, se_authorized := True\<rparr>)\<rparr>)
      in s1\<lparr>si_worker := startWorking (si_worker s1)\<rparr>)"

text \<open>The two rates are formatted for the log first.\<close>

definition si_disconnect :: "'c pm_env \<Rightarrow> nat \<Rightarrow> Simulate \<Rightarrow> exn option \<times> Simulate" where
  "si_disconnect env now s =
     withv (getFormattedHashes (en_rnd env) (en_fmt env) (si_max s) AddSuffix 6) s (\<lambda>_.
     withv (getFormattedHashes (en_rnd env) (en_fmt env) (si_mean s) AddSuffix 6) s (\<lambda>_.
       case (pc_conn s, pc_session s) of
         (Some i, Some x) \<Rightarrow>
           (None, si_event OnDisconnected
              (s\<lparr>si_uris := upd_uri (addDuration (session_duration now x)) i (si_uris s), pc_session := None, pc_connected := False\<rparr>))
       | _ \<Rightarrow> (Some UndefinedBehaviour, s)))"

definition si_submitHashrate :: "u64 \<Rightarrow> string \<Rightarrow> Simulate \<Rightarrow> Simulate" where
  "si_submitHashrate rate idn s = s"

definition si_submitSolution :: "'c ethash_lib \<Rightarrow> nat \<Rightarrow> Solution \<Rightarrow> Simulate \<Rightarrow> Simulate" where
  "si_submitSolution lib delay sol s =
     (if h_le (res_value (EthashAux_eval lib (wp_epoch (sol_work sol)) (wp_header (sol_work sol)) (sol_nonce sol)))
           (wp_boundary (sol_work sol))
      then si_event (OnSolutionAccepted delay (sol_midx sol) False) s
      else si_event (OnSolutionRejected delay (sol_midx sol)) s)"

text \<open>The start of \<open>workLoop\<close>: a job with a random seed and header, and the boundary of difficulty 1.\<close>

definition si_job :: "'c pm_env \<Rightarrow> h256 \<Rightarrow> h256 \<Rightarrow> Simulate \<Rightarrow> exn option \<times> Simulate" where
  "si_job env seed header s =
     withv (ebind (getTargetFromDiff (en_mp env) (en_boost env) (en_rnd env) 1 Add) (\<lambda>t. h256_of t)) s (\<lambda>boundary.
       (None, si_event (OnWorkReceived (new_WorkPackage\<lparr>wp_seed := seed, wp_header := header,
                wp_block := sint (si_block s), wp_boundary := boundary\<rparr>)) s))"

text \<open>One turn of its loop, with the hash rate of the farm.\<close>

definition si_sample :: "(real \<Rightarrow> real) \<Rightarrow> real \<Rightarrow> Simulate \<Rightarrow> Simulate" where
  "si_sample f32 hr s =
     (if pc_session s = None then s
      else s\<lparr>si_max := max (si_max s) hr,
             si_mean := f32 (f32 (f32 0.45 * si_mean s) + f32 (f32 (1 - f32 0.45) * hr))\<rparr>)"

section \<open>The contract of the manager\<close>

definition si_inv :: "nat \<Rightarrow> Simulate \<Rightarrow> bool" where
  "si_inv n s \<longleftrightarrow> (\<forall>i. pc_conn s = Some i \<longrightarrow> i < length (si_uris s)) \<and> list_all (event_ok n) (si_events s)"

definition si_setConnection :: "nat \<Rightarrow> Simulate \<Rightarrow> Simulate" where
  "si_setConnection i s = (let (uris, s1) = setConnection i (si_uris s) s in s1\<lparr>si_uris := uris\<rparr>)"

inductive si_step :: "'c pm_env \<Rightarrow> nat \<Rightarrow> Simulate \<Rightarrow> Simulate \<Rightarrow> bool" for env n where
  set_conn: "i < length (si_uris s) \<Longrightarrow> si_step env n s (si_setConnection i s)"
| unset_conn: "si_step env n s (unsetConnection s)"
| connect: "si_step env n s (si_connect now s)"
| disconnect: "si_step env n s (snd (si_disconnect env now s))"
| hashrate: "si_step env n s (si_submitHashrate rate idn s)"
| solution: "unat (sol_midx sol) < n \<Longrightarrow> si_step env n s (si_submitSolution (en_ethash env) delay sol s)"
| job: "length seed = 32 \<Longrightarrow> length header = 32 \<Longrightarrow> si_step env n s (snd (si_job env seed header s))"
| sampled: "si_step env n s (si_sample f32 hr s)"
| thread: "worker_step (si_worker s) w \<Longrightarrow> si_step env n s (s\<lparr>si_worker := w\<rparr>)"
| delivered: "si_step env n s (s\<lparr>si_events := []\<rparr>)"

inductive si_init :: "nat \<Rightarrow> Simulate \<Rightarrow> bool" for n where
  fresh: "si_init n (new_Simulate block uris)"

lemmas si_defs = si_inv_def si_event_def si_setConnection_def setConnection_def unsetConnection_def si_connect_def
  si_submitHashrate_def si_submitSolution_def si_sample_def new_Simulate_def new_PoolClient_def PoolClient.defs

lemma si_disconnect_inv: "si_inv n s \<Longrightarrow> si_inv n (snd (si_disconnect env now s))"
  by (auto simp: si_disconnect_def withv_def si_defs split: sum.splits option.splits)

lemma si_job_inv: "si_inv n s \<Longrightarrow> length seed = 32 \<Longrightarrow> length header = 32 \<Longrightarrow> si_inv n (snd (si_job env seed header s))"
  by (auto simp: si_job_def withv_def ebind_def si_defs wp_wf_def FixedHash_string_length split: sum.splits)

lemma si_step_inv: "si_step env n s t \<Longrightarrow> si_inv n s \<Longrightarrow> si_inv n t"
  by (induction rule: si_step.induct) (simp_all add: si_disconnect_inv si_job_inv, auto simp: si_defs Let_def)

lemma si_inv_events: "si_inv n s \<Longrightarrow> ev \<in> set (si_events s) \<Longrightarrow> event_ok n ev"
  by (simp add: si_inv_def list_all_iff)

lemma new_Simulate_inv: "si_inv n (new_Simulate block uris)"
  by (simp add: si_defs)

interpretation simulation: pool_client si_init "si_step env" si_events si_inv
  by unfold_locales (auto elim!: si_init.cases intro: new_Simulate_inv si_step_inv si_inv_events)

text \<open>
  A client that is connected again while its thread is still in the loop of the previous session
  has no new job: \<open>startWorking\<close> leaves a thread alone that has not returned yet.
\<close>

lemma reconnect_without_job:
  assumes "m_work (si_worker s) = Some Working" and "m_state (si_worker s) = Started"
  shows "m_work (si_worker (si_connect now s)) = Some Working \<and> m_state (si_worker (si_connect now s)) = Started \<and>
    startWorking_wait_done (si_worker (si_connect now s)) \<and> si_events (si_connect now s) = si_events s @ [OnConnected]"
  using assms by (simp add: si_connect_def si_event_def startWorking_def cas_def startWorking_wait_done_def Let_def)

end
