(* ===== verification/ApiStats.thy ===== *)
theory ApiStats
  imports PoolManager
begin

text \<open>
  The statistics of the programming interface (\<open>libapicore/ApiServer.cpp\<close>, from line 960 on, and
  \<open>Farm::get_nonce_scrambler_json\<close>): the short list, the detailed tree with one entry per miner and
  the page for browsers, which is made from the detailed tree. Times are in milliseconds. A null
  pointer to the active connection is dereferenced and gives \<open>UndefinedBehaviour\<close>.
\<close>

section \<open>What the interface uses of its surroundings\<close>

text \<open>
  \<open>ae_f32\<close> is the rounding of a quotient to single precision, \<open>ae_hostname\<close> the name \<open>gethostname\<close>
  returns, \<open>ae_trim\<close> is \<open>boost::trim\<close>, \<open>ae_what\<close> the text of a caught exception,
  \<open>ae_parse_errors\<close> what the reader reports for a line it cannot parse, \<open>ae_reboot\<close> whether the
  reboot script was started.
\<close>

record ('c, 'j) api_env =
  ae_pm :: "'c pm_env"
  ae_js :: "'j jsonlib"
  ae_f32 :: "real \<Rightarrow> real"
  ae_version :: string
  ae_hostname :: "string option"
  ae_trim :: "string \<Rightarrow> string"
  ae_what :: "exn \<Rightarrow> string"
  ae_parse_errors :: "string \<Rightarrow> string"
  ae_reboot :: bool

definition intstr :: "int \<Rightarrow> string" where
  "intstr i = (if i < 0 then CHR ''-'' # decstr (nat (- i)) else decstr (nat i))"

abbreviation jword :: "'a::len word \<Rightarrow> jout" where
  "jword w \<equiv> JInt (uint w)"

section \<open>The nonce scrambler\<close>

definition get_nonce_scrambler_json :: "Farm \<Rightarrow> jout" where
  "get_nonce_scrambler_json f =
     JObj [(''start_nonce'', JStr (toHex_u64 (fm_nonce_scrambler f) Add 16)),
           (''device_width'', jword (fm_nonce_segment_with f)),
           (''device_count'', JInt (int (length (fm_miners f))))]"

section \<open>The short list\<close>

definition getMinerStat1 :: "('c, 'j) api_env \<Rightarrow> nat \<Rightarrow> PoolManager \<Rightarrow> exn + jout" where
  "getMinerStat1 env now p =
     (let t = fm_telemetry (pm_farm p); sol = ta_solutions (tm_farm t);
          kilo = (\<lambda>hr. en_fmt (ae_pm env) 0 (ae_f32 env (hr / 1000)))
      in case getActiveConnection p of
           None \<Rightarrow> Inl UndefinedBehaviour
         | Some c \<Rightarrow>
             Inr (JArr [JStr (ae_version env),
                        JStr (decstr ((now - tm_start t) div 60000)),
                        JStr (kilo (ta_hashrate (tm_farm t)) @ '';'' @ decstr (unat (sa_accepted sol)) @ '';'' @
                              decstr (unat (sa_rejected sol))),
                        JStr (join '';'' (map (\<lambda>m. kilo (ta_hashrate m)) (tm_miners t))),
                        JStr ''0;0;0'',
                        JStr (join '';'' (map (\<lambda>m. ''off'') (tm_miners t))),
                        JStr (join '';'' (map (\<lambda>m. intstr (hs_tempC (ta_sensors m)) @ '';'' @
                                                   intstr (hs_fanP (ta_sensors m))) (tm_miners t))),
                        JStr (ur_host (pm_uris p ! c) @ '':'' @ decstr (unat (ur_port (pm_uris p ! c)))),
                        JStr (decstr (unat (sa_failed sol)) @ '';0;0;0'')]))"

section \<open>The detailed tree\<close>

definition shares_json :: "nat \<Rightarrow> SolutionAccountType \<Rightarrow> jout" where
  "shares_json now s =
     JArr [jword (sa_accepted s), jword (sa_rejected s), jword (sa_failed s),
           JInt (int ((now - sa_tstamp s) div 1000))]"

definition hashrate_json :: "real \<Rightarrow> exn + jout" where
  "hashrate_json hr = ebind (to_uint32 hr) (\<lambda>r. Inr (JStr (toHex_u32 (ucast r) Add 8)))"

text \<open>A shift by 64 bits or more is undefined.\<close>

definition segment_json :: "Farm \<Rightarrow> u32 \<Rightarrow> exn + jout" where
  "segment_json f index =
     (let width = unat (fm_nonce_segment_with f);
          gpustartnonce = fm_nonce_scrambler f + push_bit width (ucast index)
      in if 64 \<le> width then Inl UndefinedBehaviour
         else Inr (JArr [JStr (toHex_u64 gpustartnonce Add 16),
                         JStr (toHex_u64 (gpustartnonce + push_bit width 1) Add 16)]))"

definition getMinerStatDetailPerMiner ::
  "'c pm_env \<Rightarrow> nat \<Rightarrow> Farm \<Rightarrow> TelemetryType \<Rightarrow> Miner \<Rightarrow> exn + jout" where
  "getMinerStatDetailPerMiner pe now f t m =
     ebind (getFormattedMemory (en_rnd pe) (en_fmt pe)
              (en_rnd pe (real (unat (dd_totalMemory (mi_deviceDescriptor m))))) AddSuffix 2) (\<lambda>mem.
     ebind (vec_at (tm_miners t) (unat (mi_index m))) (\<lambda>a.
     ebind (segment_json f (mi_index m)) (\<lambda>segment.
     ebind (hashrate_json (ta_hashrate a)) (\<lambda>hashrate.
       Inr (JObj
         [(''_index'', jword (mi_index m)),
          (''hardware'', JObj
             [(''pci'', JStr (dd_uniqueId (mi_deviceDescriptor m))),
              (''type'', JStr ''CPU''),
              (''name'', JStr (''CPU '' @ mem)),
              (''sensors'', JArr [JInt (hs_tempC (ta_sensors a)), JInt (hs_fanP (ta_sensors a)),
                                 JReal (hs_powerW (ta_sensors a))])]),
          (''mining'', JObj
             [(''shares'', shares_json now (ta_solutions a)),
              (''paused'', JBool (miner_paused m)),
              (''pause_reason'', if miner_paused m then JStr (pausedString m) else JNull),
              (''segment'', segment),
              (''hashrate'', hashrate)])])))))"

fun devices_json :: "(Miner \<Rightarrow> exn + jout) \<Rightarrow> Miner list \<Rightarrow> exn + jout list" where
  "devices_json g [] = Inr []"
| "devices_json g (m # ms) = ebind (g m) (\<lambda>j. ebind (devices_json g ms) (\<lambda>js. Inr (j # js)))"

definition getMinerStatDetail :: "('c, 'j) api_env \<Rightarrow> nat \<Rightarrow> PoolManager \<Rightarrow> exn + jout" where
  "getMinerStatDetail env now p =
     (let f = pm_farm p; t = fm_telemetry f in
      case getActiveConnection p of
        None \<Rightarrow> Inl UndefinedBehaviour
      | Some c \<Rightarrow>
          ebind (hashrate_json (ta_hashrate (tm_farm t))) (\<lambda>hashrate.
          ebind (getCurrentDifficulty (en_mp (ae_pm env)) p) (\<lambda>difficulty.
          ebind (devices_json (getMinerStatDetailPerMiner (ae_pm env) now f t) (fm_miners f)) (\<lambda>devices.
            Inr (JObj
              [(''devices'', JArr devices),
               (''connection'', JObj
                  [(''uri'', JStr (ur_uri (pm_uris p ! c))),
                   (''connected'', JBool (client_connected p)),
                   (''switches'', jword (getConnectionSwitches p))]),
               (''host'', JObj
                  [(''version'', JStr (ae_version env)),
                   (''runtime'', JInt (int ((now - tm_start t) div 1000))),
                   (''name'', case ae_hostname env of Some h \<Rightarrow> JStr h | None \<Rightarrow> JNull)]),
               (''mining'', JObj
                  [(''hashrate'', hashrate),
                   (''epoch'', JInt (getCurrentEpoch p)),
                   (''epoch_changes'', jword (getEpochChanges p)),
                   (''difficulty'', JReal difficulty),
                   (''shares'', shares_json now (ta_solutions (tm_farm t)))])])))))"

section \<open>The page for browsers\<close>

text \<open>\<open>dq s\<close> is a text in double quotes. \<open>path js v ks\<close> is \<open>v[k1][k2]...\<close>.\<close>

definition dq :: "string \<Rightarrow> string" where
  "dq s = CHR 0x22 # s @ [CHR 0x22]"

fun path :: "'j jsonlib \<Rightarrow> 'j \<Rightarrow> string list \<Rightarrow> exn + 'j" where
  "path js v [] = Inr v"
| "path js v (k # ks) = ebind (js_get js v k) (\<lambda>w. path js w ks)"

definition path_item :: "'j jsonlib \<Rightarrow> 'j \<Rightarrow> string list \<Rightarrow> nat \<Rightarrow> exn + 'j" where
  "path_item js v ks i = ebind (path js v ks) (\<lambda>w. js_idx js w i)"

definition path_str :: "'j jsonlib \<Rightarrow> 'j \<Rightarrow> string list \<Rightarrow> exn + string" where
  "path_str js v ks = ebind (path js v ks) (js_asString js)"

definition item_str :: "'j jsonlib \<Rightarrow> 'j \<Rightarrow> string list \<Rightarrow> nat \<Rightarrow> exn + string" where
  "item_str js v ks i = ebind (path_item js v ks i) (js_asString js)"

definition td_right :: "string \<Rightarrow> string" where
  "td_right s = ''<td class=right>'' @ s @ ''</td>''"

definition td :: "string \<Rightarrow> string" where
  "td s = ''<td>'' @ s @ ''</td>''"

definition page_style :: string where
  "page_style =
     ''<style>'' @ ''body{font-family:-apple-system,BlinkMacSystemFont,'' @ dq ''Segoe UI'' @ '',Roboto,'' @
     dq ''Helvetica Neue'' @ '',Helvetica,Arial,sans-serif;font-size:16px;line-height:1.5;'' @
     ''text-align:center;}'' @ ''table,td,th{border:1px inset #000;}'' @ ''table{border-spacing:0;}'' @
     ''td,th{padding:3px;}'' @ ''tbody tr:nth-child(even){background-color:'' @ ''#f8f8f8'' @ '';}'' @
     ''tbody tr:nth-child(odd){background-color:'' @ ''#ffffff'' @ '';}'' @
     ''.mx-auto{margin-left:auto;margin-right:auto;}'' @ ''.bg-header1{background-color:'' @ ''#f0f0f0'' @ '';}'' @
     ''.bg-header0{background-color:'' @ ''#e8e8e8'' @ '';}'' @ ''.bg-red{color:'' @ ''#f46542'' @ '';}'' @
     ''.right{text-align: right;}'' @ ''</style>''"

definition page_head :: "string \<Rightarrow> string \<Rightarrow> int \<Rightarrow> int \<Rightarrow> string \<Rightarrow> string" where
  "page_head name version hours minutes uri =
     (let hoursSize = (if hours > 9 then if hours > 99 then 3 else 2 else 1) in
      ''<!doctype html>'' @ ''<html lang=en>'' @ ''<head>'' @ ''<meta charset=utf-8>'' @
      ''<meta http-equiv='' @ dq ''refresh'' @ '' content='' @ dq ''30'' @ ''>'' @
      ''<title>'' @ name @ ''</title>'' @ page_style @
      ''<meta http-equiv=refresh content=30>'' @ ''</head>'' @ ''<body>'' @ ''<table class=mx-auto>'' @
      ''<thead>'' @ ''<tr class=bg-header1>'' @ ''<th colspan=9>'' @ version @ '' - '' @
      setw hoursSize (CHR '' '') (intstr hours) @ '':'' @ setw 2 (CHR ''0'') (intstr minutes) @
      ''<br>Pool: '' @ uri @ ''</th>'' @ ''</tr>'' @ ''<tr class=bg-header0>'' @ ''<th>PCI</th>'' @
      ''<th>Device</th>'' @ ''<th>Mode</th>'' @ ''<th>Paused</th>'' @ ''<th class=right>Hash Rate</th>'' @
      ''<th class=right>Solutions</th>'' @ ''<th class=right>Temp.</th>'' @ ''<th class=right>Fan %</th>'' @
      ''<th class=right>Power</th>'' @ ''</tr>'' @ ''</thead><tbody>'')"

text \<open>A row of the table, with what it adds to the sums.\<close>

definition page_row :: "'c pm_env \<Rightarrow> 'j jsonlib \<Rightarrow> 'j \<Rightarrow> exn + string \<times> real \<times> real \<times> u32" where
  "page_row pe js device =
     ebind (path_str js device [''mining'', ''hashrate'']) (\<lambda>hex.
     ebind (stoul16 hex) (\<lambda>n. let hashrate = en_rnd pe (real n) in
     ebind (ebind (path_item js device [''hardware'', ''sensors''] 2) (js_asDouble js)) (\<lambda>power.
     ebind (ebind (path_item js device [''mining'', ''shares''] 0) (js_asUInt js)) (\<lambda>solutions.
     ebind (ebind (path js device [''mining'', ''paused'']) (js_asBool js)) (\<lambda>paused.
     ebind (path_str js device [''hardware'', ''pci'']) (\<lambda>pci.
     ebind (path_str js device [''hardware'', ''name'']) (\<lambda>name.
     ebind (path_str js device [''_mode'']) (\<lambda>mode.
     ebind (if paused then path_str js device [''mining'', ''pause_reason''] else Inr ''No'') (\<lambda>reason.
     ebind (getFormattedHashes (en_rnd pe) (en_fmt pe) hashrate AddSuffix 2) (\<lambda>rate.
     ebind (item_str js device [''mining'', ''shares''] 0) (\<lambda>a.
     ebind (item_str js device [''mining'', ''shares''] 1) (\<lambda>r.
     ebind (item_str js device [''mining'', ''shares''] 2) (\<lambda>f.
     ebind (item_str js device [''hardware'', ''sensors''] 0) (\<lambda>temp.
     ebind (item_str js device [''hardware'', ''sensors''] 1) (\<lambda>fan.
       Inr (''<tr'' @ (if paused then '' class='' @ dq ''bg-red'' else []) @ ''>'' @
            td pci @ td name @ td mode @ td reason @ td_right rate @
            td_right (''A'' @ a @ '':R'' @ r @ '':F'' @ f) @ td_right temp @ td_right fan @
            td_right (en_fmt pe 2 power) @ ''</tr>'',
            hashrate, power, solutions))))))))))))))))"

fun page_rows :: "'c pm_env \<Rightarrow> 'j jsonlib \<Rightarrow> 'j \<Rightarrow> nat list \<Rightarrow> string \<Rightarrow> real \<Rightarrow> real \<Rightarrow> u32 \<Rightarrow>
    exn + string \<times> real \<times> real \<times> u32" where
  "page_rows pe js stat [] out hashrates powers solutions = Inr (out, hashrates, powers, solutions)"
| "page_rows pe js stat (i # is) out hashrates powers solutions =
     ebind (path_item js stat [''devices''] i) (\<lambda>device.
     ebind (page_row pe js device) (\<lambda>(row, h, w, s).
       page_rows pe js stat is (out @ row) (en_rnd pe (hashrates + h)) (en_rnd pe (powers + w)) (solutions + s)))"

text \<open>\<open>hours * 3600\<close> is a product of type \<open>int\<close>; its overflow is undefined.\<close>

definition getHttpMinerStatDetail :: "('c, 'j) api_env \<Rightarrow> nat \<Rightarrow> PoolManager \<Rightarrow> exn + string" where
  "getHttpMinerStatDetail env now p =
     (let js = ae_js env; pe = ae_pm env in
      ebind (getMinerStatDetail env now p) (\<lambda>tree. let stat = js_of js tree in
      ebind (ebind (path js stat [''host'', ''runtime'']) (js_asUInt64 js)) (\<lambda>duration.
        let hours = int (unat duration div 3600) in
        if 2 ^ 31 \<le> hours * 3600 then Inl UndefinedBehaviour
        else let minutes = int (unat duration mod 3600 div 60) in
      ebind (path_str js stat [''host'', ''name'']) (\<lambda>name.
      ebind (path_str js stat [''host'', ''version'']) (\<lambda>version.
      ebind (path_str js stat [''connection'', ''uri'']) (\<lambda>uri.
      ebind (path js stat [''devices'']) (\<lambda>devices.
      ebind (page_rows pe js stat [0..<js_size js devices] [] 0 0 0) (\<lambda>(rows, hashrates, powers, solutions).
      ebind (getFormattedHashes (en_rnd pe) (en_fmt pe) hashrates AddSuffix 2) (\<lambda>total.
        Inr (page_head name version hours minutes uri @ rows @ ''</tbody>'' @
             ''<tfoot><tr class=bg-header0><td colspan=4 class=right>Total</td><td class=right>'' @
             total @ ''</td><td class=right>'' @ decstr (unat solutions) @
             ''</td><td colspan=3 class=right>'' @ en_fmt pe 2 powers @ ''</td></tfoot>'' @
             ''</table></body></html>''))))))))))"

end
