(* ===== verification/ApiServer.thy ===== *)
theory ApiServer
  imports ApiStats StratumProtocol
begin

text \<open>
  The programming interface (\<open>libapicore/ApiServer.cpp\<close>): the server that accepts connections, a
  connection with its two protocols (JSON lines and HTTP), and the methods a client may call. The
  methods act on the manager of the pools and on the farm, which are part of the state.

  A response is kept as the members the code may set: its identifier, the code and the message of
  its error, and its result. The received text is divided into lines by the loop that the stratum
  client has too. Asynchronous operations are recorded in the order in which they are started.
\<close>

section \<open>Responses\<close>

record response =
  rp_id :: "jout option"
  rp_code :: "int option"
  rp_message :: "string option"
  rp_result :: "jout option"

definition no_response :: response where
  "no_response = \<lparr>rp_id = None, rp_code = None, rp_message = None, rp_result = None\<rparr>"

definition opt_member :: "string \<Rightarrow> ('a \<Rightarrow> jout) \<Rightarrow> 'a option \<Rightarrow> (string \<times> jout) list" where
  "opt_member k f v = (case v of None \<Rightarrow> [] | Some x \<Rightarrow> [(k, f x)])"

definition response_json :: "response \<Rightarrow> jout" where
  "response_json r =
     JObj ([(''jsonrpc'', JStr ''2.0'')] @ opt_member ''id'' id (rp_id r) @
           (if rp_code r = None \<and> rp_message r = None then []
            else [(''error'', JObj (opt_member ''code'' JInt (rp_code r) @ opt_member ''message'' JStr (rp_message r)))]) @
           opt_member ''result'' id (rp_result r))"

definition set_error :: "int \<Rightarrow> string \<Rightarrow> response \<Rightarrow> response" where
  "set_error code msg r = r\<lparr>rp_code := Some code, rp_message := Some msg\<rparr>"

section \<open>Values of a request\<close>

text \<open>
  \<open>getRequestValue\<close>: the response, the value returned and, when the member is present and accepted,
  its value. The overloads differ in the test of the type and in the conversion.
\<close>

type_synonym 'a fetched = "exn + response \<times> bool \<times> 'a option"

definition about_member :: "string \<Rightarrow> string \<Rightarrow> string" where
  "about_member text name = text @ '' '' @ CHR 0x27 # name @ [CHR 0x27]"

definition missing_value :: "string \<Rightarrow> bool \<Rightarrow> response \<Rightarrow> 'a fetched" where
  "missing_value name optional r =
     Inr (if optional then r else set_error (- 32602) (about_member ''Missing'' name) r, optional, None)"

definition bad_value :: "string \<Rightarrow> string \<Rightarrow> response \<Rightarrow> 'a fetched" where
  "bad_value text name r = Inr (set_error (- 32602) (about_member text name) r, False, None)"

definition typed_value ::
  "'j jsonlib \<Rightarrow> ('j \<Rightarrow> bool) \<Rightarrow> ('j \<Rightarrow> exn + 'a) \<Rightarrow> string \<Rightarrow> 'j \<Rightarrow> bool \<Rightarrow> response \<Rightarrow> 'a fetched" where
  "typed_value js is_type as_type name req optional r =
     ebind (js_isMember js req name) (\<lambda>m.
       if \<not> m then missing_value name optional r
       else ebind (js_get js req name) (\<lambda>v.
         if \<not> is_type v then bad_value ''Invalid type of value'' name r
         else if js_empty js v then bad_value ''Empty'' name r
         else ebind (as_type v) (\<lambda>x. Inr (r, True, Some x))))"

definition getRequestValue_bool :: "'j jsonlib \<Rightarrow> string \<Rightarrow> 'j \<Rightarrow> bool \<Rightarrow> response \<Rightarrow> bool fetched" where
  "getRequestValue_bool js = typed_value js (js_isBool js) (js_asBool js)"

definition getRequestValue_unsigned :: "'j jsonlib \<Rightarrow> string \<Rightarrow> 'j \<Rightarrow> bool \<Rightarrow> response \<Rightarrow> u32 fetched" where
  "getRequestValue_unsigned js = typed_value js (js_isUInt js) (js_asUInt js)"

definition getRequestValue_object :: "'j jsonlib \<Rightarrow> string \<Rightarrow> 'j \<Rightarrow> bool \<Rightarrow> response \<Rightarrow> 'j fetched" where
  "getRequestValue_object js = typed_value js (js_isObject js) Inr"

definition getRequestValue_string :: "'j jsonlib \<Rightarrow> string \<Rightarrow> 'j \<Rightarrow> bool \<Rightarrow> response \<Rightarrow> string fetched" where
  "getRequestValue_string js = typed_value js (js_isString js) (js_asString js)"

text \<open>
  The overload for 64 bits has no test of the type. It catches the exception of the conversion, and
  then writes the error code into the request instead of the response.
\<close>

definition getRequestValue_uint64 :: "'j jsonlib \<Rightarrow> string \<Rightarrow> 'j \<Rightarrow> bool \<Rightarrow> response \<Rightarrow> u64 fetched" where
  "getRequestValue_uint64 js name req optional r =
     ebind (js_isMember js req name) (\<lambda>m.
       if \<not> m then missing_value name optional r
       else ebind (js_get js req name) (\<lambda>v.
         if js_empty js v then bad_value ''Empty'' name r
         else case js_asUInt64 js v of
                Inr x \<Rightarrow> Inr (r, True, Some x)
              | Inl UndefinedBehaviour \<Rightarrow> Inl UndefinedBehaviour
              | Inl _ \<Rightarrow>
                  ebind (js_get js req ''error'') (\<lambda>e. ebind (js_get js e ''code'') (\<lambda>_.
                    Inr (r\<lparr>rp_message := Some (about_member ''Bad value in'' name)\<rparr>, False, None)))))"

definition checkApiWriteAccess :: "bool \<Rightarrow> response \<Rightarrow> response \<times> bool" where
  "checkApiWriteAccess is_read_only r =
     (if is_read_only then set_error (- 32601) ''Method not available'' r else r, \<not> is_read_only)"

definition invalid_id :: "string \<Rightarrow> response \<Rightarrow> response \<times> bool" where
  "invalid_id text r = (set_error (- 32600) text (r\<lparr>rp_id := Some JNull\<rparr>), False)"

definition parseRequestId :: "'j jsonlib \<Rightarrow> 'j \<Rightarrow> response \<Rightarrow> exn + response \<times> bool" where
  "parseRequestId js req r =
     ebind (js_isMember js req ''id'') (\<lambda>m.
       if \<not> m then Inr (invalid_id ''Invalid Request (missing or empty id)'' r)
       else ebind (js_get js req ''id'') (\<lambda>v.
         if js_empty js v then Inr (invalid_id ''Invalid Request (missing or empty id)'' r)
         else if js_isUInt js v then ebind (js_asUInt js v) (\<lambda>n. Inr (r\<lparr>rp_id := Some (jword n)\<rparr>, True))
         else if js_isString js v then ebind (js_asString js v) (\<lambda>s. Inr (r\<lparr>rp_id := Some (JStr s)\<rparr>, True))
         else Inr (invalid_id ''Invalid Request (id has invalid type)'' r)))"

section \<open>Connections\<close>

datatype api_op = Api_read | Api_write string bool | Api_disconnected int

record ApiConnection =
  ac_sessionId :: int
  ac_open :: bool
  ac_readonly :: bool
  ac_password :: string
  ac_is_authenticated :: bool
  ac_message :: string
  ac_sendBuffer :: string
  ac_ops :: "api_op list"

definition new_ApiConnection :: "int \<Rightarrow> bool \<Rightarrow> string \<Rightarrow> ApiConnection" where
  "new_ApiConnection i readonly password =
     \<lparr>ac_sessionId = i, ac_open = False, ac_readonly = readonly, ac_password = password,
      ac_is_authenticated = (password = []), ac_message = [], ac_sendBuffer = [], ac_ops = []\<rparr>"

text \<open>
  What the methods act on: the manager with the farm, the restarts that were posted, the runs of the
  reboot script and the verbosity of the log.
\<close>

record ApiWorld =
  aw_manager :: PoolManager
  aw_restarts :: nat
  aw_reboots :: nat
  aw_logOptions :: u32

record ApiState =
  ax_conn :: ApiConnection
  ax_world :: ApiWorld
  ax_resp :: response

text \<open>The time, the random number and the content of uninitialised memory a request meets.\<close>

record api_draw =
  ad_now :: nat
  ad_random :: u64
  ad_garbage :: u64

definition api_error :: "int \<Rightarrow> string \<Rightarrow> ApiState \<Rightarrow> ApiState" where
  "api_error code msg s = s\<lparr>ax_resp := set_error code msg (ax_resp s)\<rparr>"

definition api_result :: "jout \<Rightarrow> ApiState \<Rightarrow> ApiState" where
  "api_result j s = s\<lparr>ax_resp := (ax_resp s)\<lparr>rp_result := Some j\<rparr>\<rparr>"

abbreviation upd_manager :: "(PoolManager \<Rightarrow> PoolManager) \<Rightarrow> ApiState \<Rightarrow> ApiState" where
  "upd_manager f s \<equiv> s\<lparr>ax_world := (ax_world s)\<lparr>aw_manager := f (aw_manager (ax_world s))\<rparr>\<rparr>"

abbreviation the_farm :: "ApiState \<Rightarrow> Farm" where
  "the_farm s \<equiv> pm_farm (aw_manager (ax_world s))"

abbreviation upd_farm :: "(Farm \<Rightarrow> Farm) \<Rightarrow> ApiState \<Rightarrow> ApiState" where
  "upd_farm f s \<equiv> upd_manager (\<lambda>p. p\<lparr>pm_farm := f (pm_farm p)\<rparr>) s"

text \<open>
  Going on with a value of the request, or returning when \<open>getRequestValue\<close> returned false. Without
  a value the variable is not initialised.
\<close>

definition with_value ::
  "(response \<Rightarrow> 'a fetched) \<Rightarrow> ApiState \<Rightarrow> ('a \<Rightarrow> ApiState \<Rightarrow> exn option \<times> ApiState) \<Rightarrow> exn option \<times> ApiState" where
  "with_value r s k =
     withv (r (ax_resp s)) s (\<lambda>(resp, ok, v).
       let s1 = s\<lparr>ax_resp := resp\<rparr> in
       if \<not> ok then (None, s1) else case v of Some x \<Rightarrow> k x s1 | None \<Rightarrow> (Some UndefinedBehaviour, s1))"

definition with_params ::
  "'j jsonlib \<Rightarrow> 'j \<Rightarrow> ApiState \<Rightarrow> ('j \<Rightarrow> ApiState \<Rightarrow> exn option \<times> ApiState) \<Rightarrow> exn option \<times> ApiState" where
  "with_params js req s k = with_value (getRequestValue_object js ''params'' req False) s k"

definition write_access :: "ApiState \<Rightarrow> (ApiState \<Rightarrow> exn option \<times> ApiState) \<Rightarrow> exn option \<times> ApiState" where
  "write_access s k =
     (let (resp, ok) = checkApiWriteAccess (ac_readonly (ax_conn s)) (ax_resp s); s1 = s\<lparr>ax_resp := resp\<rparr>
      in if ok then k s1 else (None, s1))"

section \<open>Authentication\<close>

text \<open>\<open>copy\<close> of a text into an array of 500 characters that was filled with zeros.\<close>

definition padded :: "string \<Rightarrow> string" where
  "padded s = take 500 s @ replicate (500 - length s) (CHR 0x00)"

definition xor_all :: "string \<Rightarrow> string \<Rightarrow> byte" where
  "xor_all a b = foldl (OR) 0 (map2 (\<lambda>x y. of_char x XOR of_char y) a b)"

definition api_authorize :: "'j jsonlib \<Rightarrow> 'j \<Rightarrow> ApiState \<Rightarrow> exn option \<times> ApiState" where
  "api_authorize js req s =
     (let out = s\<lparr>ax_conn := (ax_conn s)\<lparr>ac_is_authenticated := False\<rparr>\<rparr> in
      with_params js req out (\<lambda>prm s1.
      with_value (getRequestValue_string js ''psw'' prm False) s1 (\<lambda>psw s2.
        (None,
         if xor_all (padded psw) (padded (ac_password (ax_conn s2))) = 0
         then s2\<lparr>ax_conn := (ax_conn s2)\<lparr>ac_is_authenticated := True\<rparr>\<rparr>
         else api_error (- 401) ''Invalid password'' s2))))"

section \<open>Methods\<close>

text \<open>
  A call of the manager in a try block: \<open>catches\<close> are the exceptions of the handler, \<open>text\<close> is its
  message.
\<close>

definition manager_call ::
  "(exn \<Rightarrow> bool) \<Rightarrow> (exn \<Rightarrow> string) \<Rightarrow> (PoolManager \<Rightarrow> exn option \<times> PoolManager) \<Rightarrow> ApiState \<Rightarrow> exn option \<times> ApiState" where
  "manager_call catches text f s =
     (let (e, p) = f (aw_manager (ax_world s)); s1 = upd_manager (\<lambda>_. p) s in
      case e of
        None \<Rightarrow> (None, api_result (JBool True) s1)
      | Some x \<Rightarrow> if catches x then (None, api_error (- 422) (text x) s1) else (Some x, s1))"

definition miner_addconnection ::
  "('c, 'j) api_env \<Rightarrow> api_draw \<Rightarrow> 'j \<Rightarrow> ApiState \<Rightarrow> exn option \<times> ApiState" where
  "miner_addconnection env d req s =
     with_params (ae_js env) req s (\<lambda>prm s1.
     with_value (getRequestValue_string (ae_js env) ''uri'' prm False) s1 (\<lambda>sUri s2.
       manager_call (\<lambda>x. x \<noteq> UndefinedBehaviour) (\<lambda>_. ''Bad URI : '' @ sUri)
         (addConnection_str (en_boost (ae_pm env)) (ad_garbage d) sUri) s2))"

text \<open>
  \<open>miner_setactiveconnection\<close> replaces the error that \<open>getRequestValue\<close> has written when it returned
  false.
\<close>

definition value_or_invalid ::
  "(response \<Rightarrow> 'a fetched) \<Rightarrow> ApiState \<Rightarrow> ('a \<Rightarrow> ApiState \<Rightarrow> exn option \<times> ApiState) \<Rightarrow> exn option \<times> ApiState" where
  "value_or_invalid r s k =
     withv (r (ax_resp s)) s (\<lambda>(resp, ok, v).
       let s1 = s\<lparr>ax_resp := resp\<rparr> in
       if \<not> ok then (None, api_error (- 422) ''Invalid index'' s1)
       else case v of Some x \<Rightarrow> k x s1 | None \<Rightarrow> (Some UndefinedBehaviour, s1))"

definition miner_setactiveconnection :: "('c, 'j) api_env \<Rightarrow> 'j \<Rightarrow> ApiState \<Rightarrow> exn option \<times> ApiState" where
  "miner_setactiveconnection env req s =
     with_params (ae_js env) req s (\<lambda>prm s1.
     withv (js_isMember (ae_js env) prm ''index'') s1 (\<lambda>m.
       if m
       then value_or_invalid (getRequestValue_unsigned (ae_js env) ''index'' prm False) s1 (\<lambda>index.
              manager_call std_exception (ae_what env) (setActiveConnection index))
       else value_or_invalid (getRequestValue_string (ae_js env) ''URI'' prm False) s1 (\<lambda>uri.
              manager_call std_exception (ae_what env) (setActiveConnection_str (en_iequals (ae_pm env)) uri))))"

definition miner_removeconnection :: "('c, 'j) api_env \<Rightarrow> 'j \<Rightarrow> ApiState \<Rightarrow> exn option \<times> ApiState" where
  "miner_removeconnection env req s =
     with_params (ae_js env) req s (\<lambda>prm s1.
     with_value (getRequestValue_unsigned (ae_js env) ''index'' prm False) s1 (\<lambda>index.
       manager_call std_exception (ae_what env) (removeConnection index)))"

text \<open>The new value of the scrambler and of the width, and whether the member was given.\<close>

definition scrambler_nonce ::
  "'j jsonlib \<Rightarrow> 'j \<Rightarrow> ApiState \<Rightarrow> (bool \<Rightarrow> u64 \<Rightarrow> ApiState \<Rightarrow> exn option \<times> ApiState) \<Rightarrow> exn option \<times> ApiState" where
  "scrambler_nonce js prm s k =
     withv (js_isMember js prm ''noncescrambler'') s (\<lambda>m.
       if \<not> m then k False (fm_nonce_scrambler (the_farm s)) s
       else withv (ebind (js_get js prm ''noncescrambler'') (js_asString js)) s (\<lambda>nonceHex.
         if take 2 nonceHex = ''0x''
         then case stoul16 nonceHex of
                Inr n \<Rightarrow> k True (of_nat n) s
              | Inl _ \<Rightarrow> (None, api_error (- 422) ''Invalid nonce'' s)
         else with_value (getRequestValue_uint64 js ''noncescrambler'' prm False) s (k True)))"

definition scrambler_width ::
  "'j jsonlib \<Rightarrow> 'j \<Rightarrow> ApiState \<Rightarrow> (bool \<Rightarrow> u32 \<Rightarrow> ApiState \<Rightarrow> exn option \<times> ApiState) \<Rightarrow> exn option \<times> ApiState" where
  "scrambler_width js prm s k =
     withv (js_isMember js prm ''segmentwidth'') s (\<lambda>m.
       if \<not> m then k False (fm_nonce_segment_with (the_farm s)) s
       else with_value (getRequestValue_unsigned js ''segmentwidth'' prm False) s (k True))"

definition clamp_width :: "u32 \<Rightarrow> u32" where
  "clamp_width e = (let e1 = (if e < 10 then 10 else e) in if e1 > 50 then 40 else e1)"

definition miner_setscramblerinfo :: "'j jsonlib \<Rightarrow> 'j \<Rightarrow> ApiState \<Rightarrow> exn option \<times> ApiState" where
  "miner_setscramblerinfo js req s =
     with_params js req s (\<lambda>prm s1.
     scrambler_nonce js prm s1 (\<lambda>given1 nonce s2.
     scrambler_width js prm s2 (\<lambda>given2 e s3.
       (None,
        if \<not> given1 \<and> \<not> given2 then api_error (- 32602) ''Missing parameters'' s3
        else api_result (JBool True)
               (upd_farm (\<lambda>f. set_nonce_segment_width (clamp_width e) (set_nonce_scrambler nonce f)) s3)))))"

definition miner_pausegpu :: "'j jsonlib \<Rightarrow> 'j \<Rightarrow> ApiState \<Rightarrow> exn option \<times> ApiState" where
  "miner_pausegpu js req s =
     with_params js req s (\<lambda>prm s1.
     with_value (getRequestValue_unsigned js ''index'' prm False) s1 (\<lambda>index s2.
     with_value (getRequestValue_bool js ''pause'' prm False) s2 (\<lambda>pause s3.
       (None,
        case getMiner (the_farm s3) index of
          Some m \<Rightarrow>
            api_result (JBool True)
              (upd_farm (\<lambda>f. f\<lparr>fm_miners := (fm_miners f)[unat index :=
                 (if pause then miner_pause PauseDueToAPIRequest m else miner_resume PauseDueToAPIRequest m)]\<rparr>) s3)
        | None \<Rightarrow> api_error (- 422) ''Index out of bounds'' s3))))"

definition LOG_NEXT :: u32 where
  "LOG_NEXT = 512"

definition miner_setverbosity :: "'j jsonlib \<Rightarrow> 'j \<Rightarrow> ApiState \<Rightarrow> exn option \<times> ApiState" where
  "miner_setverbosity js req s =
     with_params js req s (\<lambda>prm s1.
     with_value (getRequestValue_unsigned js ''verbosity'' prm False) s1 (\<lambda>verbosity s2.
       (None,
        if LOG_NEXT \<le> verbosity
        then api_error (- 422) (''Verbosity out of bounds (0-'' @ decstr (unat (LOG_NEXT - 1)) @ '')'') s2
        else api_result (JBool True) (s2\<lparr>ax_world := (ax_world s2)\<lparr>aw_logOptions := verbosity\<rparr>\<rparr>))))"

definition restart_async :: "ApiState \<Rightarrow> ApiState" where
  "restart_async s = s\<lparr>ax_world := (ax_world s)\<lparr>aw_restarts := Suc (aw_restarts (ax_world s))\<rparr>\<rparr>"

definition api_reboot :: "bool \<Rightarrow> ApiState \<Rightarrow> ApiState" where
  "api_reboot started s =
     api_result (JBool started) (s\<lparr>ax_world := (ax_world s)\<lparr>aw_reboots := Suc (aw_reboots (ax_world s))\<rparr>\<rparr>)"

text \<open>The methods that are open to every authenticated client, and those that need write access.\<close>

definition read_method ::
  "('c, 'j) api_env \<Rightarrow> api_draw \<Rightarrow> string \<Rightarrow> ApiState \<Rightarrow> (exn option \<times> ApiState) option" where
  "read_method env d name s =
     (let p = aw_manager (ax_world s); return = (\<lambda>r. withv r s (\<lambda>j. (None, api_result j s))) in
      if name = ''miner_getstat1'' then Some (return (getMinerStat1 env (ad_now d) p))
      else if name = ''miner_getstatdetail'' then Some (return (getMinerStatDetail env (ad_now d) p))
      else if name = ''miner_ping'' then Some (return (Inr (JStr ''pong'')))
      else if name = ''miner_getconnections'' then Some (return (Inr (getConnectionsJson p)))
      else if name = ''miner_getscramblerinfo'' then Some (return (Inr (get_nonce_scrambler_json (pm_farm p))))
      else None)"

definition write_method ::
  "('c, 'j) api_env \<Rightarrow> api_draw \<Rightarrow> string \<Rightarrow> 'j \<Rightarrow> (ApiState \<Rightarrow> exn option \<times> ApiState) option" where
  "write_method env d name req =
     (if name = ''miner_shuffle''
      then Some (\<lambda>s. (None, upd_farm (shuffle (ad_random d)) (api_result (JBool True) s)))
      else if name = ''miner_restart'' then Some (\<lambda>s. (None, restart_async (api_result (JBool True) s)))
      else if name = ''miner_reboot'' then Some (\<lambda>s. (None, api_reboot (ae_reboot env) s))
      else if name = ''miner_addconnection'' then Some (miner_addconnection env d req)
      else if name = ''miner_setactiveconnection'' then Some (miner_setactiveconnection env req)
      else if name = ''miner_removeconnection'' then Some (miner_removeconnection env req)
      else if name = ''miner_setscramblerinfo'' then Some (miner_setscramblerinfo (ae_js env) req)
      else if name = ''miner_pausegpu'' then Some (miner_pausegpu (ae_js env) req)
      else if name = ''miner_setverbosity'' then Some (miner_setverbosity (ae_js env) req)
      else None)"

definition call_method ::
  "('c, 'j) api_env \<Rightarrow> api_draw \<Rightarrow> string \<Rightarrow> 'j \<Rightarrow> ApiState \<Rightarrow> exn option \<times> ApiState" where
  "call_method env d name req s =
     (case read_method env d name s of
        Some r \<Rightarrow> r
      | None \<Rightarrow>
          (case write_method env d name req of
             Some k \<Rightarrow> write_access s k
           | None \<Rightarrow> (None, api_error (- 32601) ''Method not found'' s)))"

section \<open>A request\<close>

text \<open>The version and the method, \<open>None\<close> when the request is invalid.\<close>

definition request_method :: "'j jsonlib \<Rightarrow> 'j \<Rightarrow> response \<Rightarrow> exn + response \<times> string option" where
  "request_method js req r =
     ebind (getRequestValue_string js ''jsonrpc'' req False r) (\<lambda>(r1, ok1, v).
       if \<not> ok1 \<or> v \<noteq> Some ''2.0'' then Inr (set_error (- 32600) ''Invalid Request'' r1, None)
       else ebind (getRequestValue_string js ''method'' req False r1) (\<lambda>(r2, ok2, m).
         if \<not> ok2 then Inr (set_error (- 32600) ''Invalid Request'' r2, None) else Inr (r2, m)))"

definition processRequest ::
  "('c, 'j) api_env \<Rightarrow> api_draw \<Rightarrow> 'j \<Rightarrow> ApiState \<Rightarrow> exn option \<times> ApiState" where
  "processRequest env d req s =
     withv (parseRequestId (ae_js env) req (ax_resp s)) s (\<lambda>(r, ok).
       let s1 = s\<lparr>ax_resp := r\<rparr> in
       if \<not> ok then (None, s1)
       else withv (request_method (ae_js env) req r) s1 (\<lambda>(r', m).
         let s2 = s1\<lparr>ax_resp := r'\<rparr> in
         case m of
           None \<Rightarrow> (None, s2)
         | Some name \<Rightarrow>
             if name = ''api_authorize'' then api_authorize (ae_js env) req s2
             else if \<not> ac_is_authenticated (ax_conn s2)
             then (None, api_error (- 403) ''Authorization needed'' s2)
             else call_method env d name req s2))"

section \<open>Sending and closing\<close>

abbreviation api_upd :: "(ApiConnection \<Rightarrow> ApiConnection) \<Rightarrow> ApiState \<Rightarrow> ApiState" where
  "api_upd f s \<equiv> s\<lparr>ax_conn := f (ax_conn s)\<rparr>"

definition api_start_op :: "api_op \<Rightarrow> ApiConnection \<Rightarrow> ApiConnection" where
  "api_start_op o' c = c\<lparr>ac_ops := ac_ops c @ [o']\<rparr>"

definition recvSocketData :: "ApiConnection \<Rightarrow> ApiConnection" where
  "recvSocketData c = api_start_op Api_read c"

text \<open>A write is started with all the buffer holds, also while another one is in progress.\<close>

definition api_sendSocketData :: "string \<Rightarrow> bool \<Rightarrow> ApiConnection \<Rightarrow> ApiConnection" where
  "api_sendSocketData s disc c =
     (if \<not> ac_open c then c
      else let buf = ac_sendBuffer c @ s in api_start_op (Api_write buf disc) (c\<lparr>ac_sendBuffer := buf\<rparr>))"

definition sendSocketData_json :: "'j jsonlib \<Rightarrow> jout \<Rightarrow> bool \<Rightarrow> ApiConnection \<Rightarrow> ApiConnection" where
  "sendSocketData_json js j disc c =
     (if \<not> ac_open c then c else api_sendSocketData (js_write js j @ [CHR 0x0A]) disc c)"

text \<open>\<open>cancel\<close> of a socket that is closed throws.\<close>

definition api_disconnect :: "ApiConnection \<Rightarrow> exn option \<times> ApiConnection" where
  "api_disconnect c =
     (if \<not> ac_open c then (Some (RuntimeError ''cancel: Bad file descriptor''), c)
      else (None, api_start_op (Api_disconnected (ac_sessionId c)) (c\<lparr>ac_open := False\<rparr>)))"

text \<open>The bytes a completed write has sent leave the buffer.\<close>

definition api_onSendSocketDataCompleted :: "bool \<Rightarrow> nat \<Rightarrow> bool \<Rightarrow> ApiConnection \<Rightarrow> exn option \<times> ApiConnection" where
  "api_onSendSocketDataCompleted ec sent disc c =
     (let c1 = c\<lparr>ac_sendBuffer := drop sent (ac_sendBuffer c)\<rparr> in
      if ec \<or> disc then api_disconnect c1 else (None, c1))"

section \<open>HTTP\<close>

definition is_upper :: "char \<Rightarrow> bool" where
  "is_upper c = (65 \<le> (of_char c :: nat) \<and> (of_char c :: nat) \<le> 90)"

definition http_pattern :: re where
  "http_pattern =
     seq_list [Bol, Grp 1 (upto 6 (Cls is_upper)), chr (CHR '' ''),
               Grp 2 (Seq (chr (CHR ''/'')) (Star (Cls (\<lambda>c. \<not> is_space c)))), chr (CHR '' ''),
               Grp 3 (seq_list (map chr ''HTTP/1.'' @ [Cls (\<lambda>c. 48 \<le> (of_char c :: nat) \<and> (of_char c :: nat) \<le> 57)]))]"

definition crlf :: string where
  "crlf = [CHR 0x0D, CHR 0x0A]"

definition http_answer :: "('c, 'j) api_env \<Rightarrow> string \<Rightarrow> string \<Rightarrow> string \<Rightarrow> string \<Rightarrow> string" where
  "http_answer env ver status content body =
     ver @ '' '' @ status @ crlf @ ''Server: '' @ ae_version env @ crlf @ ''Content-Type: '' @ content @ crlf @
     ''Content-Length: '' @ decstr (length body) @ crlf @ crlf @ body @ crlf"

definition http_reply :: "('c, 'j) api_env \<Rightarrow> nat \<Rightarrow> PoolManager \<Rightarrow> string \<Rightarrow> string \<Rightarrow> string \<Rightarrow> exn + string" where
  "http_reply env now p meth pth ver =
     (if meth \<noteq> ''GET''
      then Inr (http_answer env ver ''405 Method not allowed'' ''text/plain'' (''Method '' @ meth @ '' not allowed''))
      else if pth \<noteq> ''/'' \<and> pth \<noteq> ''/getstat1''
      then Inr (http_answer env ver ''404 Not Found'' ''text/plain''
                  (''The requested resource '' @ pth @ '' not found on this server''))
      else case getHttpMinerStatDetail env now p of
             Inr body \<Rightarrow> Inr (http_answer env ver ''200 Ok Error'' ''text/html; charset=utf-8'' body)
           | Inl x \<Rightarrow>
               if std_exception x
               then Inr (http_answer env ver ''500 Internal Server Error'' ''text/plain'' (''Internal error : '' @ ae_what env x))
               else Inl x)"

definition http_request_received ::
  "('c, 'j) api_env \<Rightarrow> nat \<Rightarrow> captures \<Rightarrow> ApiState \<Rightarrow> exn option \<times> ApiState" where
  "http_request_received env now g s =
     withv (http_reply env now (aw_manager (ax_world s)) (group g 1) (group g 2) (group g 3)) s (\<lambda>text.
       (None, api_upd (\<lambda>c. (api_sendSocketData text True c)\<lparr>ac_message := []\<rparr>) s))"

section \<open>JSON lines\<close>

definition error_json :: "string \<Rightarrow> string \<Rightarrow> jout" where
  "error_json code msg =
     JObj [(''jsonrpc'', JStr ''2.0''), (''id'', JNull),
           (''error'', JObj [(''errorcode'', JStr code), (''message'', JStr msg)])]"

definition no_newlines :: "string \<Rightarrow> string" where
  "no_newlines s = map (\<lambda>c. if c = CHR 0x0A then CHR '' '' else c) s"

definition api_line ::
  "('c, 'j) api_env \<Rightarrow> api_draw \<Rightarrow> string \<Rightarrow> ApiState \<Rightarrow> exn option \<times> ApiState" where
  "api_line env d l s =
     (let t = ae_trim env l; js = ae_js env;
          reply = (\<lambda>j s1. (None, api_upd (sendSocketData_json js j False) s1)) in
      if l = [] \<or> t = [] then (None, s)
      else case js_parse js t of
             None \<Rightarrow> reply (error_json ''-32700'' (''Json parse error : '' @ no_newlines (ae_parse_errors env t))) s
           | Some msg \<Rightarrow>
               (let (e, s1) = processRequest env d msg (s\<lparr>ax_resp := no_response\<rparr>) in
                case e of
                  None \<Rightarrow> reply (response_json (ax_resp s1)) s1
                | Some x \<Rightarrow> if std_exception x then reply (error_json ''500'' (ae_what env x)) s1 else (Some x, s1)))"

text \<open>A line leaves the buffer after it was processed; \<open>ds k\<close> are the draws of the \<open>k\<close>-th line.\<close>

fun api_lines ::
  "('c, 'j) api_env \<Rightarrow> (nat \<Rightarrow> api_draw) \<Rightarrow> nat \<Rightarrow> string list \<Rightarrow> string \<Rightarrow> ApiState \<Rightarrow> exn option \<times> ApiState" where
  "api_lines env ds k [] rest s = (None, api_upd (\<lambda>c. c\<lparr>ac_message := rest\<rparr>) s)"
| "api_lines env ds k (l # ls) rest s =
     (let (e, s1) = api_line env (ds k) l s in
      case e of
        None \<Rightarrow> api_lines env ds (Suc k) ls rest s1
      | Some x \<Rightarrow> (Some x, api_upd (\<lambda>c. c\<lparr>ac_message := concat (map (\<lambda>m. m @ [CHR 0x0A]) (l # ls)) @ rest\<rparr>) s1))"

section \<open>Receiving\<close>

text \<open>The received data, \<open>None\<close> when the read failed or returned nothing.\<close>

definition api_onRecvSocketDataCompleted ::
  "('c, 'j) api_env \<Rightarrow> (nat \<Rightarrow> api_draw) \<Rightarrow> string option \<Rightarrow> ApiState \<Rightarrow> exn option \<times> ApiState" where
  "api_onRecvSocketDataCompleted env ds received s =
     (case received of
        Some rx \<Rightarrow>
          (let msg = ac_message (ax_conn s) @ rx; s1 = api_upd (\<lambda>c. c\<lparr>ac_message := msg\<rparr>) s in
           if length msg < 4 then (None, s1)
           else case regex_search http_pattern msg of
                  Some g \<Rightarrow> http_request_received env (ad_now (ds 0)) g s1
                | None \<Rightarrow>
                    (let (ls, rest) = split_lines msg; (e, s2) = api_lines env ds 0 ls rest s1 in
                     (e, if e = None \<and> ac_open (ax_conn s2) then api_upd recvSocketData s2 else s2)))
      | None \<Rightarrow> (let (e, c) = api_disconnect (ax_conn s) in (e, s\<lparr>ax_conn := c\<rparr>)))"

section \<open>The server\<close>

text \<open>
  \<open>as_pending\<close> is the session handed to the acceptor. The thread of the server runs \<open>begin_accept\<close>
  once and ends.
\<close>

record ApiServer =
  as_password :: string
  as_address :: string
  as_portnumber :: u16
  as_readonly :: bool
  as_running :: bool
  as_lastSessionId :: int
  as_pending :: "ApiConnection option"
  as_sessions :: "ApiConnection list"

definition new_ApiServer :: "string \<Rightarrow> int \<Rightarrow> string \<Rightarrow> ApiServer" where
  "new_ApiServer address portnum password =
     \<lparr>as_password = password, as_address = address,
      as_portnumber = of_int (if portnum < 0 then - portnum else portnum), as_readonly = (portnum < 0),
      as_running = False, as_lastSessionId = 0, as_pending = None, as_sessions = []\<rparr>"

text \<open>The identifiers are of type \<open>int\<close>; its overflow is undefined.\<close>

definition begin_accept :: "ApiServer \<Rightarrow> exn option \<times> ApiServer" where
  "begin_accept a =
     (if \<not> as_running a then (None, a)
      else if 2 ^ 31 - 1 \<le> as_lastSessionId a then (Some UndefinedBehaviour, a)
      else let i = as_lastSessionId a + 1
           in (None, a\<lparr>as_lastSessionId := i,
                       as_pending := Some (new_ApiConnection i (as_readonly a) (as_password a))\<rparr>))"

text \<open>
  \<open>address\<close> is the outcome of reading the address, \<open>listening\<close> whether opening, binding and listening
  succeeded, \<open>endpoint\<close> the outcome of \<open>local_endpoint\<close>, which the handler of the failure asks for.
\<close>

definition api_start :: "exn + unit \<Rightarrow> bool \<Rightarrow> exn + u16 \<Rightarrow> ApiServer \<Rightarrow> exn option \<times> ApiServer" where
  "api_start address listening endpoint a =
     (if as_portnumber a = 0 then (None, a)
      else withv address a (\<lambda>_.
        withv endpoint a (\<lambda>port.
          if \<not> listening then (None, a) else begin_accept (a\<lparr>as_running := True\<rparr>))))"

definition api_stop :: "ApiServer \<Rightarrow> ApiServer" where
  "api_stop a = (if \<not> as_running a then a else a\<lparr>as_running := False, as_sessions := []\<rparr>)"

text \<open>The handler that the server gives to a session, called with the identifier of the session.\<close>

fun drop_session :: "int \<Rightarrow> ApiConnection list \<Rightarrow> ApiConnection list" where
  "drop_session i [] = []"
| "drop_session i (c # cs) = (if ac_sessionId c = i then cs else c # drop_session i cs)"

definition start_session :: "ApiConnection \<Rightarrow> ApiConnection" where
  "start_session c = recvSocketData c"

text \<open>\<open>peer\<close> is the exception of \<open>remote_endpoint\<close> when the peer has already gone.\<close>

definition handle_accept :: "bool \<Rightarrow> exn option \<Rightarrow> ApiServer \<Rightarrow> exn option \<times> ApiServer" where
  "handle_accept ec peer a =
     (case as_pending a of
        None \<Rightarrow> (None, a)
      | Some session \<Rightarrow>
          (let a1 = a\<lparr>as_pending := None\<rparr>; session' = session\<lparr>ac_open := True\<rparr> in
           if ec then begin_accept a1
           else case peer of
                  Some x \<Rightarrow> (Some x, a1\<lparr>as_sessions := as_sessions a1 @ [session']\<rparr>)
                | None \<Rightarrow> begin_accept (a1\<lparr>as_sessions := as_sessions a1 @ [start_session session']\<rparr>)))"

section \<open>The server at work\<close>

record Api =
  ai_server :: ApiServer
  ai_world :: ApiWorld

text \<open>
  A handler of the \<open>i\<close>-th session: a session that is closed is dropped by the server, which destroys
  it. The handlers of its other operations remain bound to the destroyed object, see \<open>completion\<close>.
\<close>

definition serve :: "(ApiState \<Rightarrow> exn option \<times> ApiState) \<Rightarrow> nat \<Rightarrow> Api \<Rightarrow> exn option \<times> Api" where
  "serve h i a =
     (let ss = as_sessions (ai_server a);
          (e, s) = h \<lparr>ax_conn = ss ! i, ax_world = ai_world a, ax_resp = no_response\<rparr>;
          ss1 = ss[i := ax_conn s];
          ss2 = (if ac_open (ax_conn s) then ss1 else drop_session (ac_sessionId (ax_conn s)) ss1)
      in (e, a\<lparr>ai_server := (ai_server a)\<lparr>as_sessions := ss2\<rparr>, ai_world := ax_world s\<rparr>))"

definition serve_recv :: "('c, 'j) api_env \<Rightarrow> (nat \<Rightarrow> api_draw) \<Rightarrow> string option \<Rightarrow> nat \<Rightarrow> Api \<Rightarrow> exn option \<times> Api" where
  "serve_recv env ds received = serve (api_onRecvSocketDataCompleted env ds received)"

definition session_sent :: "bool \<Rightarrow> nat \<Rightarrow> bool \<Rightarrow> ApiState \<Rightarrow> exn option \<times> ApiState" where
  "session_sent ec sent disc s =
     (let (e, c) = api_onSendSocketDataCompleted ec sent disc (ax_conn s) in (e, s\<lparr>ax_conn := c\<rparr>))"

definition serve_sent :: "bool \<Rightarrow> nat \<Rightarrow> bool \<Rightarrow> nat \<Rightarrow> Api \<Rightarrow> exn option \<times> Api" where
  "serve_sent ec sent disc = serve (session_sent ec sent disc)"

text \<open>
  The completion of an operation: its handler is bound to the session object, here by the session's
  identifier, and not to a shared pointer. When the server has dropped the session meanwhile, the
  handler runs on a destroyed object.
\<close>

definition session_index :: "int \<Rightarrow> ApiServer \<Rightarrow> nat option" where
  "session_index sid a = List.find (\<lambda>i. ac_sessionId (as_sessions a ! i) = sid) [0..<length (as_sessions a)]"

definition completion :: "(ApiState \<Rightarrow> exn option \<times> ApiState) \<Rightarrow> int \<Rightarrow> Api \<Rightarrow> exn option \<times> Api" where
  "completion h sid a =
     (case session_index sid (ai_server a) of
        Some i \<Rightarrow> serve h i a
      | None \<Rightarrow> (Some UndefinedBehaviour, a))"

end
