(* ===== verification/ApiProps.thy ===== *)
theory ApiProps
  imports ApiServer
begin

text \<open>
  What the programming interface guarantees: how a request is answered, which requests may change
  the state of the program, who may send them, and that every change is one the manager of the pools
  allows for.
\<close>

section \<open>Fetching values\<close>

text \<open>A response that is still open, one with an error, and one with a result.\<close>

definition asked :: "response \<Rightarrow> bool" where
  "asked r \<longleftrightarrow> rp_id r \<noteq> None \<and> rp_code r = None \<and> rp_message r = None \<and> rp_result r = None"

definition refused :: "response \<Rightarrow> bool" where
  "refused r \<longleftrightarrow> rp_id r \<noteq> None \<and> rp_message r \<noteq> None \<and> rp_result r = None"

definition granted :: "response \<Rightarrow> bool" where
  "granted r \<longleftrightarrow> rp_id r \<noteq> None \<and> rp_code r = None \<and> rp_message r = None \<and> rp_result r \<noteq> None"

definition answered :: "response \<Rightarrow> bool" where
  "answered r \<longleftrightarrow> refused r \<or> granted r"

lemmas answer_defs = asked_def refused_def granted_def answered_def

lemma refused_answered [simp]: "refused r \<Longrightarrow> answered r"
  by (simp add: answered_def)

definition fetches :: "(response \<Rightarrow> 'a fetched) \<Rightarrow> bool" where
  "fetches f \<longleftrightarrow> (\<forall>r r' ok v. f r = Inr (r', ok, v) \<longrightarrow>
     (if ok then r' = r \<and> v \<noteq> None else asked r \<longrightarrow> refused r'))"

lemma ebind_InrD: "ebind r k = Inr v \<Longrightarrow> \<exists>x. r = Inr x \<and> k x = Inr v"
  by (cases r) simp_all

lemma set_error_refused [simp]: "asked r \<or> refused r \<Longrightarrow> refused (set_error code msg r)"
  by (auto simp: answer_defs set_error_def)

lemma typed_value_fetches [simp]: "fetches (typed_value js is_t as_t name req False)"
  by (auto simp: fetches_def typed_value_def missing_value_def bad_value_def split: if_splits
      dest!: ebind_InrD)

lemma getRequestValue_fetches [simp]:
  "fetches (getRequestValue_bool js name req False)"
  "fetches (getRequestValue_unsigned js name req False)"
  "fetches (getRequestValue_object js name req False)"
  "fetches (getRequestValue_string js name req False)"
  by (simp_all add: getRequestValue_bool_def getRequestValue_unsigned_def getRequestValue_object_def
      getRequestValue_string_def)

lemma getRequestValue_uint64_fetches [simp]: "fetches (getRequestValue_uint64 js name req False)"
  by (auto simp: fetches_def getRequestValue_uint64_def missing_value_def bad_value_def answer_defs
      set_error_def split: if_splits sum.splits exn.splits dest!: ebind_InrD)

text \<open>
  Reasoning about a handler that asks for a value: every way to leave it early, and the way on with
  the response as it was.
\<close>

lemma with_value_cases:
  assumes "fetches f"
  shows "(\<exists>e. with_value f s k = (Some e, s)) \<or>
         (\<exists>r. with_value f s k = (None, s\<lparr>ax_resp := r\<rparr>) \<and> (asked (ax_resp s) \<longrightarrow> refused r)) \<or>
         (\<exists>x. with_value f s k = k x s)"
proof (cases "f (ax_resp s)")
  case (Inl e)
  then show ?thesis by (simp add: with_value_def)
next
  case (Inr q)
  obtain r ok v where q: "q = (r, ok, v)" by (cases q)
  have "if ok then r = ax_resp s \<and> v \<noteq> None else asked (ax_resp s) \<longrightarrow> refused r"
    using assms Inr q by (auto simp: fetches_def)
  then show ?thesis using Inr q by (cases ok; cases v) (auto simp: with_value_def)
qed

lemma value_or_invalid_cases:
  assumes "fetches f"
  shows "(\<exists>e. value_or_invalid f s k = (Some e, s)) \<or>
         (\<exists>r. value_or_invalid f s k = (None, s\<lparr>ax_resp := r\<rparr>) \<and> (asked (ax_resp s) \<longrightarrow> refused r)) \<or>
         (\<exists>x. value_or_invalid f s k = k x s)"
proof (cases "f (ax_resp s)")
  case (Inl e)
  then show ?thesis by (simp add: value_or_invalid_def)
next
  case (Inr q)
  obtain r ok v where q: "q = (r, ok, v)" by (cases q)
  have "if ok then r = ax_resp s \<and> v \<noteq> None else asked (ax_resp s) \<longrightarrow> refused r"
    using assms Inr q by (auto simp: fetches_def)
  then show ?thesis using Inr q
    by (cases ok; cases v) (auto simp: value_or_invalid_def api_error_def set_error_def answer_defs)
qed

section \<open>What a handler does\<close>

text \<open>
  The effect of a method on the state: the connection stays as it is, the world changes by \<open>R\<close>, and
  an open response is answered unless an exception leaves the method.
\<close>

definition effect :: "(ApiWorld \<Rightarrow> ApiWorld \<Rightarrow> bool) \<Rightarrow> ApiState \<Rightarrow> exn option \<times> ApiState \<Rightarrow> bool" where
  "effect R s out \<longleftrightarrow> ax_conn (snd out) = ax_conn s \<and> R (ax_world s) (ax_world (snd out)) \<and>
     (asked (ax_resp s) \<longrightarrow> fst out = None \<longrightarrow> answered (ax_resp (snd out)))"

lemma effect_throw: "reflp R \<Longrightarrow> effect R s (Some e, s)"
  by (simp add: effect_def reflpD)

lemma effect_with_value:
  assumes "reflp R" and "fetches f" and "\<And>x. effect R s (k x s)"
  shows "effect R s (with_value f s k)"
  using with_value_cases [OF assms(2), of s k] assms(1,3) by (auto simp: effect_def reflpD)

lemma effect_value_or_invalid:
  assumes "reflp R" and "fetches f" and "\<And>x. effect R s (k x s)"
  shows "effect R s (value_or_invalid f s k)"
  using value_or_invalid_cases [OF assms(2), of s k] assms(1,3) by (auto simp: effect_def reflpD)

lemma effect_with_params:
  assumes "reflp R" and "\<And>x. effect R s (k x s)"
  shows "effect R s (with_params js req s k)"
  unfolding with_params_def by (intro effect_with_value assms getRequestValue_fetches)

lemma effect_withv:
  assumes "reflp R" and "\<And>x. r = Inr x \<Longrightarrow> effect R s (k x)"
  shows "effect R s (withv r s k)"
  using assms effect_throw [of R] by (cases r) simp_all

lemma effect_error: "reflp R \<Longrightarrow> effect R s (None, api_error code msg s)"
  by (simp add: effect_def reflpD api_error_def)

lemma effect_result:
  assumes "R (ax_world s) (ax_world t)" and "ax_conn t = ax_conn s" and "ax_resp t = ax_resp s"
  shows "effect R s (None, api_result j t)"
  using assms by (simp add: effect_def api_result_def answer_defs)

lemma effect_write_access:
  assumes "reflp R" and "\<not> ac_readonly (ax_conn s) \<Longrightarrow> effect R s (k s)"
  shows "effect R s (write_access s k)"
  using assms by (cases "ac_readonly (ax_conn s)")
    (simp_all add: write_access_def checkApiWriteAccess_def effect_def reflpD)

lemma effect_manager_call:
  assumes "reflp R" and "R (ax_world s) ((ax_world s)\<lparr>aw_manager := snd (f (aw_manager (ax_world s)))\<rparr>)"
  shows "effect R s (manager_call catches text f s)"
proof -
  obtain e p where f: "f (aw_manager (ax_world s)) = (e, p)" by (cases "f (aw_manager (ax_world s))")
  show ?thesis using assms(2) f
    by (cases e) (auto simp: manager_call_def effect_def api_result_def api_error_def answer_defs
        set_error_def Let_def)
qed

lemmas effect_rules = effect_with_value effect_value_or_invalid effect_with_params effect_withv effect_error
  effect_manager_call

text \<open>
  What a request may change of the world: the manager does steps of its own, with at most one more
  connection.
\<close>

definition api_change :: "('c, 'j) api_env \<Rightarrow> ApiWorld \<Rightarrow> ApiWorld \<Rightarrow> bool" where
  "api_change env w w' \<longleftrightarrow>
     (Suc (length (pm_connections (aw_manager w))) < 2 ^ 32 \<longrightarrow>
        (pm_step (ae_pm env))\<^sup>*\<^sup>* (aw_manager w) (aw_manager w') \<and>
        length (pm_connections (aw_manager w')) \<le> Suc (length (pm_connections (aw_manager w))))"

lemma api_change_refl: "reflp (api_change env)"
  by (simp add: reflp_def api_change_def)

lemma api_change_same: "aw_manager w' = aw_manager w \<Longrightarrow> api_change env w w'"
  by (simp add: api_change_def)

lemma api_change_step:
  assumes "Suc (length (pm_connections p)) < 2 ^ 32 \<Longrightarrow> pm_step (ae_pm env) p q"
    and "aw_manager w = p" and "length (pm_connections q) \<le> Suc (length (pm_connections p))"
  shows "api_change env w (w\<lparr>aw_manager := q\<rparr>)"
  using assms by (auto simp: api_change_def)

lemma length_erase_at_le: "length (erase_at i xs) \<le> length xs"
  by (simp add: erase_at_def)

lemma setActiveConnectionCommon_conns [simp]:
  "pm_connections (snd (setActiveConnectionCommon i p)) = pm_connections p"
  by (auto simp: setActiveConnectionCommon_def call_def Let_def)

lemma addConnection_str_length:
  "length (pm_connections (snd (addConnection_str bo g u p))) \<le> Suc (length (pm_connections p))"
proof (cases "new_URI bo g u False")
  case (Inl e)
  then show ?thesis by (simp add: addConnection_str_def)
next
  case (Inr v)
  then show ?thesis by (simp add: addConnection_str_def set_connections_def)
qed

lemma add_change: "api_change env w (w\<lparr>aw_manager := snd (addConnection_str (en_boost (ae_pm env)) g u (aw_manager w))\<rparr>)"
  by (rule api_change_step [OF ps_add_str refl addConnection_str_length])

lemma remove_change: "api_change env w (w\<lparr>aw_manager := snd (removeConnection i (aw_manager w))\<rparr>)"
  by (rule api_change_step [OF ps_remove refl])
     (simp add: removeConnection_def Let_def length_erase_at_le le_SucI)

lemma active_change: "api_change env w (w\<lparr>aw_manager := snd (setActiveConnection i (aw_manager w))\<rparr>)"
  by (rule api_change_step [OF ps_active refl]) (simp add: setActiveConnection_def)

lemma active_str_change:
  "api_change env w (w\<lparr>aw_manager := snd (setActiveConnection_str (en_iequals (ae_pm env)) u (aw_manager w))\<rparr>)"
  by (rule api_change_step [OF ps_active_str refl]) (simp add: setActiveConnection_str_def split: option.split)

lemma farm_change:
  assumes "(farm_step (en_ethash (ae_pm env)))\<^sup>*\<^sup>* (pm_farm (aw_manager w)) f"
  shows "api_change env w (w\<lparr>aw_manager := (aw_manager w)\<lparr>pm_farm := f\<rparr>\<rparr>)"
proof -
  have "(pm_step (ae_pm env))\<^sup>*\<^sup>* (aw_manager w) ((aw_manager w)\<lparr>pm_farm := f\<rparr>)"
    using assms
  proof (induction rule: rtranclp_induct)
    case base
    then show ?case by simp
  next
    case (step g h)
    have "pm_step (ae_pm env) ((aw_manager w)\<lparr>pm_farm := g\<rparr>) ((aw_manager w)\<lparr>pm_farm := g\<rparr>\<lparr>pm_farm := h\<rparr>)"
      by (rule ps_farm) (simp add: step.hyps(2))
    then show ?case using step.IH by simp
  qed
  then show ?thesis by (simp add: api_change_def)
qed

lemmas change_rules = add_change remove_change active_change active_str_change

section \<open>The methods\<close>

lemma read_method_effect:
  assumes "reflp R" and "read_method env d name s = Some out"
  shows "effect R s out"
proof -
  have return: "effect R s (withv r s (\<lambda>j. (None, api_result j s)))" for r
    using assms(1) by (intro effect_withv effect_result) (simp_all add: reflpD)
  have plain: "effect R s (None, api_result j s)" for j
    using return [of "Inr j"] by simp
  show ?thesis using assms(2) return plain by (auto simp: read_method_def Let_def split: if_splits)
qed

lemma addconnection_effect: "effect (api_change env) s (miner_addconnection env d req s)"
  unfolding miner_addconnection_def
  by (intro effect_rules api_change_refl getRequestValue_fetches change_rules)

lemma setactive_effect: "effect (api_change env) s (miner_setactiveconnection env req s)"
  unfolding miner_setactiveconnection_def
  by (intro effect_with_params effect_withv api_change_refl)
     (simp add: effect_value_or_invalid effect_manager_call api_change_refl change_rules)

lemma remove_effect: "effect (api_change env) s (miner_removeconnection env req s)"
  unfolding miner_removeconnection_def
  by (intro effect_rules api_change_refl getRequestValue_fetches change_rules)

lemma setverbosity_effect: "effect (api_change env) s (miner_setverbosity js req s)"
  unfolding miner_setverbosity_def
  by (intro effect_with_params effect_with_value api_change_refl getRequestValue_fetches)
     (simp add: effect_error effect_result api_change_refl api_change_same)

lemma pausegpu_effect: "effect (api_change env) s (miner_pausegpu js req s)"
proof -
  have farm: "(farm_step lib)\<^sup>*\<^sup>* f (f\<lparr>fm_miners := (fm_miners f)[unat i := miner_pause PauseDueToAPIRequest m]\<rparr>)"
      "(farm_step lib)\<^sup>*\<^sup>* f (f\<lparr>fm_miners := (fm_miners f)[unat i := miner_resume PauseDueToAPIRequest m]\<rparr>)"
    if "getMiner f i = Some m" for lib :: "'a ethash_lib" and f i m
    using that fs_api_pause [of "unat i" f lib] fs_api_resume [of "unat i" f lib]
    by (auto simp: getMiner_def vec_at_def split: if_splits)
  show ?thesis
    unfolding miner_pausegpu_def
    by (intro effect_with_params effect_with_value api_change_refl getRequestValue_fetches)
       (auto split: option.split intro!: effect_error effect_result api_change_refl farm_change farm)
qed

lemma effect_scrambler_nonce:
  assumes "reflp R" and "\<And>g n. effect R s (k g n s)"
  shows "effect R s (scrambler_nonce js prm s k)"
  unfolding scrambler_nonce_def
  by (intro effect_withv assms(1))
     (auto split: sum.split intro!: effect_withv effect_error effect_with_value assms getRequestValue_uint64_fetches)

lemma effect_scrambler_width:
  assumes "reflp R" and "\<And>g n. effect R s (k g n s)"
  shows "effect R s (scrambler_width js prm s k)"
  unfolding scrambler_width_def
  by (intro effect_withv assms(1)) (simp add: effect_with_value assms)

lemma setscrambler_effect: "effect (api_change env) s (miner_setscramblerinfo js req s)"
proof -
  have "(farm_step lib)\<^sup>*\<^sup>* f (set_nonce_segment_width e (set_nonce_scrambler n f))"
    for lib :: "'a ethash_lib" and f e n
    using fs_scrambler [of lib f n] fs_width [of lib "set_nonce_scrambler n f" e]
    by (meson r_into_rtranclp rtranclp.rtrancl_into_rtrancl)
  then show ?thesis
    unfolding miner_setscramblerinfo_def
    by (intro effect_with_params effect_scrambler_nonce effect_scrambler_width api_change_refl)
       (auto intro!: effect_error effect_result api_change_refl farm_change)
qed

lemma shuffle_effect: "effect (api_change env) s (None, upd_farm (shuffle r) (api_result (JBool True) s))"
proof -
  have "api_change env (ax_world s) ((ax_world s)\<lparr>aw_manager := (aw_manager (ax_world s))\<lparr>pm_farm :=
      shuffle r (the_farm s)\<rparr>\<rparr>)"
    by (intro farm_change r_into_rtranclp fs_shuffle)
  then show ?thesis by (simp add: effect_def api_result_def answer_defs)
qed

lemma write_method_effect:
  assumes "write_method env d name req = Some k"
  shows "effect (api_change env) s (k s)"
proof -
  have "effect (api_change env) s (None, restart_async (api_result (JBool True) s))"
       "effect (api_change env) s (None, api_reboot b s)" for b
    by (simp_all add: effect_def restart_async_def api_reboot_def api_result_def api_change_same answer_defs)
  then show ?thesis
    using assms by (auto simp: write_method_def addconnection_effect setactive_effect remove_effect
        setscrambler_effect pausegpu_effect setverbosity_effect shuffle_effect split: if_splits)
qed

text \<open>A method changes the world only as the manager allows, and not at all on a read-only connection.\<close>

lemma call_method_effect: "effect (api_change env) s (call_method env d name req s)"
proof (cases "read_method env d name s")
  case None
  then show ?thesis
    by (cases "write_method env d name req")
       (simp_all add: call_method_def api_change_refl effect_write_access effect_error write_method_effect)
next
  case (Some out)
  then show ?thesis by (simp add: call_method_def read_method_effect [OF api_change_refl])
qed

lemma call_method_readonly:
  assumes "ac_readonly (ax_conn s)"
  shows "effect (=) s (call_method env d name req s)"
proof (cases "read_method env d name s")
  case None
  then show ?thesis using assms
    by (auto simp: call_method_def reflp_def intro!: effect_write_access effect_error split: option.split)
next
  case (Some out)
  then show ?thesis by (simp add: call_method_def read_method_effect reflp_def)
qed

section \<open>Requests\<close>

text \<open>The method of a request that is well formed.\<close>

definition requested :: "'j jsonlib \<Rightarrow> 'j \<Rightarrow> string option" where
  "requested js req =
     (case parseRequestId js req no_response of
        Inr (r, True) \<Rightarrow> (case request_method js req r of Inr (_, m) \<Rightarrow> m | Inl _ \<Rightarrow> None)
      | _ \<Rightarrow> None)"

lemma parseRequestId_answer:
  assumes "parseRequestId js req no_response = Inr (r, ok)"
  shows "if ok then asked r else refused r"
  using assms by (auto simp: parseRequestId_def invalid_id_def no_response_def set_error_def answer_defs
      split: if_splits dest!: ebind_InrD)

lemma request_method_answer:
  assumes "request_method js req r = Inr (r', m)"
  shows "case m of Some _ \<Rightarrow> r' = r | None \<Rightarrow> asked r \<longrightarrow> refused r'"
proof -
  obtain r1 ok1 v where first: "getRequestValue_string js ''jsonrpc'' req False r = Inr (r1, ok1, v)"
    using assms by (auto simp: request_method_def dest!: ebind_InrD)
  have yes: "q' = q" "x \<noteq> None"
    if "getRequestValue_string js name req False q = Inr (q', True, x)" for name q q' x
    using getRequestValue_fetches(4) [of js name req] that by (auto simp: fetches_def)
  have no: "refused q'"
    if "getRequestValue_string js name req False q = Inr (q', False, x)" and "asked q" for name q q' x
    using getRequestValue_fetches(4) [of js name req] that by (auto simp: fetches_def)
  show ?thesis
  proof (cases "ok1 \<and> v = Some ''2.0''")
    case False
    then have "r' = set_error (- 32600) ''Invalid Request'' r1" "m = None"
      using assms first by (auto simp: request_method_def)
    then show ?thesis using first yes(1) [of "''jsonrpc''" r r1 v] no [of "''jsonrpc''" r r1 v] by (cases ok1) auto
  next
    case True
    then have r1: "r1 = r" using yes(1) [of "''jsonrpc''" r r1 v] first by simp
    obtain r2 ok2 w where second: "getRequestValue_string js ''method'' req False r = Inr (r2, ok2, w)"
      using assms first r1 True by (auto simp: request_method_def dest!: ebind_InrD)
    then show ?thesis using assms first r1 True yes [of "''method''" r r2 w] no [of "''method''" r r2 w]
      by (cases ok2) (auto simp: request_method_def split: option.split)
  qed
qed

lemma processRequest_cases:
  assumes "ax_resp s = no_response"
  shows "case requested (ae_js env) req of
     None \<Rightarrow> \<exists>e r. processRequest env d req s = (e, s\<lparr>ax_resp := r\<rparr>) \<and> (e = None \<longrightarrow> refused r)
   | Some name \<Rightarrow> \<exists>r. asked r \<and> processRequest env d req s =
       (let t = s\<lparr>ax_resp := r\<rparr> in
        if name = ''api_authorize'' then api_authorize (ae_js env) req t
        else if \<not> ac_is_authenticated (ax_conn s) then (None, api_error (- 403) ''Authorization needed'' t)
        else call_method env d name req t)"
proof (cases "parseRequestId (ae_js env) req no_response")
  case (Inl e)
  then show ?thesis using assms by (auto simp: requested_def processRequest_def intro!: exI [of _ "ax_resp s"])
next
  case (Inr q)
  obtain r ok where q: "q = (r, ok)" by (cases q)
  show ?thesis
  proof (cases ok)
    case False
    then show ?thesis using assms Inr q parseRequestId_answer [of "ae_js env" req r ok]
      by (auto simp: requested_def processRequest_def)
  next
    case True
    have asked: "asked r" using parseRequestId_answer [of "ae_js env" req r ok] Inr q True by simp
    show ?thesis
    proof (cases "request_method (ae_js env) req r")
      case (Inl e)
      then show ?thesis using assms Inr q True by (auto simp: requested_def processRequest_def)
    next
      case m: (Inr w)
      obtain r' n where w: "w = (r', n)" by (cases w)
      show ?thesis using assms Inr q True asked m w request_method_answer [of "ae_js env" req r r' n]
        by (cases n) (auto simp: requested_def processRequest_def Let_def)
    qed
  qed
qed

section \<open>Authentication\<close>

lemma of_char_byte_eq: "(of_char x :: byte) = of_char y \<longleftrightarrow> x = y"
proof -
  have "unat (of_char c :: byte) = of_char c" for c
    using unat_of_nat [of "of_char c", where 'a = 8] by (simp add: of_nat_of_char)
  then show ?thesis by (metis of_char_eq_iff)
qed

lemma foldl_or_0: "foldl (OR) a xs = 0 \<longleftrightarrow> a = 0 \<and> (\<forall>x \<in> set xs. x = (0 :: byte))"
  by (induction xs arbitrary: a) (auto simp: or_eq_0_iff)

lemma xor_byte_0: "(a :: byte) XOR b = 0 \<longleftrightarrow> a = b"
  by (simp add: bit_eq_iff bit_xor_iff)

lemma xor_all_0: "length a = length b \<Longrightarrow> xor_all a b = 0 \<longleftrightarrow> a = b"
  by (induction a b rule: list_induct2) (auto simp: xor_all_def foldl_or_0 xor_byte_0 of_char_byte_eq)

lemma length_padded [simp]: "length (padded s) = 500"
  by (simp add: padded_def)

text \<open>The value that a fetch yields, whatever the response is.\<close>

definition fetched_value :: "(response \<Rightarrow> 'a fetched) \<Rightarrow> 'a option" where
  "fetched_value f = (case f no_response of Inr (_, True, v) \<Rightarrow> v | _ \<Rightarrow> None)"

lemma with_typed:
  assumes f_def: "f = typed_value js is_t as_t name req False"
  shows "case fetched_value f of
     Some x \<Rightarrow> with_value f s k = k x s
   | None \<Rightarrow> \<exists>e r. with_value f s k = (e, s\<lparr>ax_resp := r\<rparr>) \<and> (e = None \<longrightarrow> asked (ax_resp s) \<longrightarrow> refused r)"
proof (cases "\<exists>x. fetched_value f = Some x")
  case True
  then obtain x where x: "fetched_value f = Some x" by blast
  then have "f r = Inr (r, True, Some x)" for r
    by (auto simp: f_def fetched_value_def typed_value_def missing_value_def bad_value_def ebind_def
        split: sum.splits if_splits bool.splits)
  then show ?thesis using x by (simp add: with_value_def)
next
  case False
  then have "f r \<noteq> Inr (r', True, Some x)" for r r' x
    by (auto simp: f_def fetched_value_def typed_value_def missing_value_def bad_value_def ebind_def
        split: sum.splits if_splits bool.splits)
  note no_value = this
  show ?thesis
  proof (cases "f (ax_resp s)")
    case (Inl e)
    then show ?thesis using False by (auto simp: with_value_def split: option.split intro!: exI [of _ "ax_resp s"])
  next
    case (Inr q)
    obtain r ok v where q: "q = (r, ok, v)" by (cases q)
    have "if ok then v \<noteq> None else asked (ax_resp s) \<longrightarrow> refused r"
      using typed_value_fetches [of js is_t as_t name req] Inr q by (auto simp: f_def fetches_def)
    then show ?thesis using False Inr q no_value [of "ax_resp s" r]
      by (cases ok) (auto simp: with_value_def split: option.split)
  qed
qed

definition presented_password :: "'j jsonlib \<Rightarrow> 'j \<Rightarrow> string option" where
  "presented_password js req =
     (case fetched_value (getRequestValue_object js ''params'' req False) of
        None \<Rightarrow> None
      | Some prm \<Rightarrow> fetched_value (getRequestValue_string js ''psw'' prm False))"

definition opens :: "string \<Rightarrow> 'j jsonlib \<Rightarrow> 'j \<Rightarrow> bool" where
  "opens password js req =
     (case presented_password js req of None \<Rightarrow> False | Some psw \<Rightarrow> padded psw = padded password)"

lemma api_authorize_cases:
  obtains e r where "api_authorize js req s =
      (e, s\<lparr>ax_conn := (ax_conn s)\<lparr>ac_is_authenticated := opens (ac_password (ax_conn s)) js req\<rparr>, ax_resp := r\<rparr>)"
    and "if opens (ac_password (ax_conn s)) js req then e = None \<and> r = ax_resp s
         else e = None \<longrightarrow> asked (ax_resp s) \<longrightarrow> refused r"
proof -
  define out where "out = s\<lparr>ax_conn := (ax_conn s)\<lparr>ac_is_authenticated := False\<rparr>\<rparr>"
  define k2 where "k2 = (\<lambda>psw s2.
    (None :: exn option,
     if xor_all (padded psw) (padded (ac_password (ax_conn s2))) = 0
     then s2\<lparr>ax_conn := (ax_conn s2)\<lparr>ac_is_authenticated := True\<rparr>\<rparr>
     else api_error (- 401) ''Invalid password'' s2))"
  define k1 where "k1 = (\<lambda>prm s1. with_value (getRequestValue_string js ''psw'' prm False) s1 k2)"
  have whole: "api_authorize js req s = with_value (getRequestValue_object js ''params'' req False) out k1"
    by (simp add: api_authorize_def with_params_def out_def k1_def k2_def)
  have first: "case fetched_value (getRequestValue_object js ''params'' req False) of
      Some x \<Rightarrow> with_value (getRequestValue_object js ''params'' req False) out k1 = k1 x out
    | None \<Rightarrow> \<exists>e r. with_value (getRequestValue_object js ''params'' req False) out k1 = (e, out\<lparr>ax_resp := r\<rparr>) \<and>
        (e = None \<longrightarrow> asked (ax_resp out) \<longrightarrow> refused r)"
    unfolding getRequestValue_object_def by (rule with_typed [OF refl])
  have second: "case fetched_value (getRequestValue_string js ''psw'' prm False) of
      Some x \<Rightarrow> k1 prm out = k2 x out
    | None \<Rightarrow> \<exists>e r. k1 prm out = (e, out\<lparr>ax_resp := r\<rparr>) \<and> (e = None \<longrightarrow> asked (ax_resp out) \<longrightarrow> refused r)" for prm
    unfolding k1_def getRequestValue_string_def by (rule with_typed [OF refl])
  have given: "case presented_password js req of
      Some psw \<Rightarrow> api_authorize js req s = k2 psw out
    | None \<Rightarrow> \<exists>e r. api_authorize js req s = (e, out\<lparr>ax_resp := r\<rparr>) \<and> (e = None \<longrightarrow> asked (ax_resp out) \<longrightarrow> refused r)"
  proof (cases "fetched_value (getRequestValue_object js ''params'' req False)")
    case None
    then show ?thesis using first by (simp add: whole presented_password_def)
  next
    case (Some prm)
    then show ?thesis using first second [of prm] by (simp add: whole presented_password_def split: option.splits)
  qed
  show thesis
  proof (cases "presented_password js req")
    case None
    then show thesis using that given by (auto simp: opens_def out_def)
  next
    case (Some psw)
    then show thesis using that given
      by (cases "padded psw = padded (ac_password (ax_conn s))")
         (auto simp: k2_def out_def opens_def xor_all_0 api_error_def)
  qed
qed

section \<open>Transmissions\<close>

text \<open>What the rights of a connection and the changes of the world depend on.\<close>

definition view :: "ApiState \<Rightarrow> ApiWorld \<times> int \<times> bool \<times> string \<times> bool" where
  "view s = (ax_world s, ac_sessionId (ax_conn s), ac_readonly (ax_conn s), ac_password (ax_conn s),
     ac_is_authenticated (ax_conn s))"

lemma send_view [simp]:
  "view (api_upd (api_sendSocketData t disc) s) = view s"
  "view (api_upd (sendSocketData_json js j disc) s) = view s"
  "view (api_upd recvSocketData s) = view s"
  "view (api_upd (\<lambda>c. c\<lparr>ac_message := m\<rparr>) s) = view s"
  "view (api_upd (\<lambda>c. (api_sendSocketData t disc c)\<lparr>ac_message := m\<rparr>) s) = view s"
  "view (s\<lparr>ax_resp := r\<rparr>) = view s"
  by (simp_all add: view_def api_sendSocketData_def sendSocketData_json_def recvSocketData_def api_start_op_def Let_def)

lemma disconnect_view [simp]: "view (s\<lparr>ax_conn := snd (api_disconnect (ax_conn s))\<rparr>) = view s"
  by (simp add: view_def api_disconnect_def api_start_op_def)

definition line_request :: "('c, 'j) api_env \<Rightarrow> string \<Rightarrow> 'j option" where
  "line_request env l = (if l = [] \<or> ae_trim env l = [] then None else js_parse (ae_js env) (ae_trim env l))"

lemma api_line_view:
  "view (snd (api_line env d l s)) =
     (case line_request env l of
        None \<Rightarrow> view s
      | Some req \<Rightarrow> view (snd (processRequest env d req (s\<lparr>ax_resp := no_response\<rparr>))))"
  by (auto simp: api_line_def line_request_def Let_def case_prod_beta split: option.split)

lemma api_lines_view:
  assumes "\<And>d l s. l \<in> set ls \<Longrightarrow> J (view s) \<Longrightarrow> J (view (snd (api_line env d l s)))" and "J (view s)"
  shows "J (view (snd (api_lines env ds k ls rest s)))"
  using assms
proof (induction ls arbitrary: k s)
  case Nil
  then show ?case by simp
next
  case (Cons l ls)
  have first: "J (view (snd (api_line env (ds k) l s)))" using Cons.prems by simp
  have rest: "J (view (snd (api_lines env ds (Suc k) ls rest (snd (api_line env (ds k) l s)))))"
    by (rule Cons.IH) (use Cons.prems first in simp_all)
  show ?case using first rest by (simp add: Let_def case_prod_beta split: option.split)
qed

lemma http_view [simp]: "view (snd (http_request_received env now g s)) = view s"
  by (simp add: http_request_received_def withv_def split: sum.split)

definition received_lines :: "string option \<Rightarrow> ApiState \<Rightarrow> string list" where
  "received_lines rx s = (case rx of None \<Rightarrow> [] | Some t \<Rightarrow> fst (split_lines (ac_message (ax_conn s) @ t)))"

lemma api_recv_view:
  assumes "\<And>d l t. l \<in> set (received_lines rx s) \<Longrightarrow> J (view t) \<Longrightarrow> J (view (snd (api_line env d l t)))"
    and "J (view s)"
  shows "J (view (snd (api_onRecvSocketDataCompleted env ds rx s)))"
proof (cases rx)
  case None
  then show ?thesis using assms(2) by (simp add: api_onRecvSocketDataCompleted_def case_prod_beta)
next
  case (Some t)
  define m where "m = ac_message (ax_conn s) @ t"
  define s1 where "s1 = api_upd (\<lambda>c. c\<lparr>ac_message := m\<rparr>) s"
  have J1: "J (view s1)" using assms(2) by (simp add: s1_def)
  have "J (view (snd (api_lines env ds 0 (fst (split_lines m)) (snd (split_lines m)) s1)))"
    by (rule api_lines_view [where J = J, OF _ J1]) (rule assms(1), simp_all add: received_lines_def Some m_def)
  then show ?thesis using J1 Some
    by (simp add: api_onRecvSocketDataCompleted_def m_def [symmetric] s1_def [symmetric] Let_def case_prod_beta
        split: option.split)
qed

section \<open>Rights\<close>

text \<open>What a request leaves of the connection and of the world.\<close>

lemma processRequest_view:
  assumes "ax_resp s = no_response"
  shows "\<exists>w auth. view (snd (processRequest env d req s)) =
      (w, ac_sessionId (ax_conn s), ac_readonly (ax_conn s), ac_password (ax_conn s), auth) \<and>
    api_change env (ax_world s) w \<and>
    (ac_readonly (ax_conn s) \<longrightarrow> w = ax_world s) \<and>
    (\<not> ac_is_authenticated (ax_conn s) \<longrightarrow> w = ax_world s \<and>
       auth = (requested (ae_js env) req = Some ''api_authorize'' \<and> opens (ac_password (ax_conn s)) (ae_js env) req))"
proof (cases "requested (ae_js env) req")
  case None
  then show ?thesis using processRequest_cases [OF assms, of env d req]
    by (auto simp: view_def api_change_same)
next
  case (Some name)
  then obtain r where run: "processRequest env d req s =
       (let t = s\<lparr>ax_resp := r\<rparr> in
        if name = ''api_authorize'' then api_authorize (ae_js env) req t
        else if \<not> ac_is_authenticated (ax_conn s) then (None, api_error (- 403) ''Authorization needed'' t)
        else call_method env d name req t)"
    using processRequest_cases [OF assms, of env d req] by auto
  define t where "t = s\<lparr>ax_resp := r\<rparr>"
  consider "name = ''api_authorize''" | "name \<noteq> ''api_authorize''" "\<not> ac_is_authenticated (ax_conn s)"
    | "name \<noteq> ''api_authorize''" "ac_is_authenticated (ax_conn s)" by blast
  then show ?thesis
  proof cases
    case 1
    show ?thesis
      by (rule api_authorize_cases [of "ae_js env" req t]) (simp add: run 1 Some t_def view_def api_change_same)
  next
    case 2
    then show ?thesis using Some by (auto simp: run view_def api_error_def api_change_same)
  next
    case 3
    then show ?thesis using call_method_effect [of env t d name req] call_method_readonly [of t env d name req]
      by (auto simp: run view_def effect_def t_def)
  qed
qed

definition grants :: "('c, 'j) api_env \<Rightarrow> string \<Rightarrow> string \<Rightarrow> bool" where
  "grants env password l =
     (case line_request env l of
        None \<Rightarrow> False
      | Some req \<Rightarrow> requested (ae_js env) req = Some ''api_authorize'' \<and> opens password (ae_js env) req)"

lemma api_line_rights:
  "\<exists>w auth. view (snd (api_line env d l s)) =
      (w, ac_sessionId (ax_conn s), ac_readonly (ax_conn s), ac_password (ax_conn s), auth) \<and>
    api_change env (ax_world s) w \<and>
    (ac_readonly (ax_conn s) \<longrightarrow> w = ax_world s) \<and>
    (\<not> ac_is_authenticated (ax_conn s) \<longrightarrow> w = ax_world s \<and> auth = grants env (ac_password (ax_conn s)) l)"
proof (cases "line_request env l")
  case None
  then show ?thesis unfolding api_line_view by (simp add: view_def grants_def api_change_same)
next
  case (Some req)
  then show ?thesis using processRequest_view [of "s\<lparr>ax_resp := no_response\<rparr>" env d req]
    by (simp add: api_line_view grants_def)
qed

lemma viewD: "view s = (w, i, ro, pw, auth) \<Longrightarrow> ax_world s = w \<and> ac_sessionId (ax_conn s) = i \<and>
    ac_readonly (ax_conn s) = ro \<and> ac_password (ax_conn s) = pw \<and> ac_is_authenticated (ax_conn s) = auth"
  by (auto simp: view_def)

lemma api_recv_identity:
  "\<exists>w auth. view (snd (api_onRecvSocketDataCompleted env ds rx s)) =
      (w, ac_sessionId (ax_conn s), ac_readonly (ax_conn s), ac_password (ax_conn s), auth) \<and>
    (ac_readonly (ax_conn s) \<longrightarrow> w = ax_world s)"
proof -
  define J where "J = (\<lambda>(w, i, ro, pw, auth :: bool). i = ac_sessionId (ax_conn s) \<and> ro = ac_readonly (ax_conn s) \<and>
    pw = ac_password (ax_conn s) \<and> (ro \<longrightarrow> w = ax_world s))"
  have "J (view (snd (api_onRecvSocketDataCompleted env ds rx s)))"
  proof (rule api_recv_view)
    fix d l t
    assume "J (view t)"
    then show "J (view (snd (api_line env d l t)))"
      using api_line_rights [of env d l t] by (auto simp: J_def view_def)
  qed (simp add: J_def view_def)
  then show ?thesis by (auto simp: J_def view_def)
qed

lemma api_recv_locked:
  assumes "\<not> ac_is_authenticated (ax_conn s)"
    and "\<forall>l \<in> set (received_lines rx s). \<not> grants env (ac_password (ax_conn s)) l"
  shows "view (snd (api_onRecvSocketDataCompleted env ds rx s)) = view s"
proof (rule api_recv_view [where J = "\<lambda>v. v = view s"])
  fix d l t
  assume "l \<in> set (received_lines rx s)" and t: "view t = view s"
  then show "view (snd (api_line env d l t)) = view s"
    using api_line_rights [of env d l t] assms by (auto simp: view_def)
qed simp

text \<open>A number of requests: as many steps of the manager, each with at most one more connection.\<close>

definition changes :: "('c, 'j) api_env \<Rightarrow> nat \<Rightarrow> ApiWorld \<Rightarrow> ApiWorld \<Rightarrow> bool" where
  "changes env n w w' \<longleftrightarrow>
     (length (pm_connections (aw_manager w)) + n < 2 ^ 32 \<longrightarrow>
        (pm_step (ae_pm env))\<^sup>*\<^sup>* (aw_manager w) (aw_manager w') \<and>
        length (pm_connections (aw_manager w')) \<le> length (pm_connections (aw_manager w)) + n)"

lemma changes_refl: "changes env n w w"
  by (simp add: changes_def)

lemma changes_Suc:
  assumes "api_change env w w1" and "changes env n w1 w2"
  shows "changes env (Suc n) w w2"
  using assms rtranclp_trans [of "pm_step (ae_pm env)"] by (auto simp: changes_def api_change_def)

lemma changes_1: "api_change env w w1 \<Longrightarrow> changes env (Suc n) w w1"
  by (rule changes_Suc [OF _ changes_refl])

lemma api_lines_changes: "changes env (length ls) (ax_world s) (ax_world (snd (api_lines env ds k ls rest s)))"
proof (induction ls arbitrary: k s)
  case Nil
  then show ?case by (simp add: changes_refl)
next
  case (Cons l ls)
  define s1 where "s1 = snd (api_line env (ds k) l s)"
  have first: "api_change env (ax_world s) (ax_world s1)"
    using api_line_rights [of env "ds k" l s] by (auto simp: s1_def view_def)
  have "changes env (length (l # ls)) (ax_world s) (ax_world (snd (api_lines env ds (Suc k) ls rest s1)))"
    using changes_Suc [OF first Cons.IH] by simp
  then show ?case using changes_1 [OF first]
    by (simp add: s1_def Let_def case_prod_beta split: option.split)
qed

lemma view_world: "view s = view t \<Longrightarrow> ax_world s = ax_world t"
  by (simp add: view_def)

lemma api_recv_changes:
  "changes env (length (received_lines rx s)) (ax_world s) (ax_world (snd (api_onRecvSocketDataCompleted env ds rx s)))"
proof (cases rx)
  case None
  then show ?thesis by (simp add: api_onRecvSocketDataCompleted_def case_prod_beta changes_refl)
next
  case (Some t)
  define m where "m = ac_message (ax_conn s) @ t"
  define s1 where "s1 = api_upd (\<lambda>c. c\<lparr>ac_message := m\<rparr>) s"
  have w: "ax_world s1 = ax_world s" by (simp add: s1_def)
  have http: "ax_world (snd (http_request_received env now g s1)) = ax_world s" for now g
    using view_world [OF http_view] w by metis
  have "changes env (length (fst (split_lines m))) (ax_world s)
      (ax_world (snd (api_lines env ds 0 (fst (split_lines m)) (snd (split_lines m)) s1)))"
    using api_lines_changes [of env "fst (split_lines m)" s1] w by simp
  then show ?thesis using Some w http
    by (simp add: api_onRecvSocketDataCompleted_def received_lines_def m_def [symmetric] s1_def [symmetric] Let_def
        case_prod_beta changes_refl split: option.split)
qed

section \<open>The server\<close>

text \<open>
  The sessions of a server are open, carry its password and its mode, and have different identifiers.
\<close>

definition session_ok :: "ApiServer \<Rightarrow> ApiConnection \<Rightarrow> bool" where
  "session_ok a c \<longleftrightarrow> ac_readonly c = as_readonly a \<and> ac_password c = as_password a \<and>
     ac_sessionId c \<le> as_lastSessionId a"

definition server_ok :: "ApiServer \<Rightarrow> bool" where
  "server_ok a \<longleftrightarrow>
     (\<forall>c \<in> set (as_sessions a). session_ok a c \<and> ac_open c) \<and>
     distinct (map ac_sessionId (as_sessions a)) \<and>
     (case as_pending a of
        None \<Rightarrow> True
      | Some c \<Rightarrow> session_ok a c \<and> ac_sessionId c \<notin> ac_sessionId ` set (as_sessions a))"

lemma new_ApiServer_ok: "server_ok (new_ApiServer address portnum password)"
  by (simp add: server_ok_def new_ApiServer_def)

lemma begin_accept_ok:
  assumes "server_ok a"
  shows "server_ok (snd (begin_accept a))"
  using assms by (force simp: server_ok_def begin_accept_def session_ok_def new_ApiConnection_def Let_def
      split: option.splits)

lemma api_start_ok:
  assumes "server_ok a"
  shows "server_ok (snd (api_start address listening endpoint a))"
proof -
  have "server_ok (a\<lparr>as_running := True\<rparr>)" using assms by (simp add: server_ok_def session_ok_def split: option.splits)
  then show ?thesis using assms begin_accept_ok
    by (simp add: api_start_def withv_def split: sum.split)
qed

lemma api_stop_ok: "server_ok a \<Longrightarrow> server_ok (api_stop a)"
  by (auto simp: server_ok_def api_stop_def session_ok_def split: option.splits)

lemma handle_accept_ok:
  assumes "server_ok a"
  shows "server_ok (snd (handle_accept ec peer a))"
proof (cases "as_pending a")
  case None
  then show ?thesis using assms by (simp add: handle_accept_def)
next
  case (Some c)
  have none: "server_ok (a\<lparr>as_pending := None\<rparr>)" using assms by (simp add: server_ok_def session_ok_def)
  have more: "server_ok (a\<lparr>as_pending := None, as_sessions := as_sessions a @ [c']\<rparr>)"
    if "ac_open c'" "ac_sessionId c' = ac_sessionId c" "ac_readonly c' = ac_readonly c" "ac_password c' = ac_password c" for c'
    using assms Some that by (auto simp: server_ok_def session_ok_def)
  have "server_ok (a\<lparr>as_pending := None, as_sessions := as_sessions a @ [c\<lparr>ac_open := True\<rparr>]\<rparr>)"
    "server_ok (a\<lparr>as_pending := None, as_sessions := as_sessions a @ [start_session (c\<lparr>ac_open := True\<rparr>)]\<rparr>)"
    by (rule more; simp add: start_session_def recvSocketData_def api_start_op_def)+
  then show ?thesis using Some none
    by (auto simp: handle_accept_def Let_def intro!: begin_accept_ok split: option.split)
qed

lemma drop_session_update:
  assumes "distinct (map ac_sessionId ss)" and "i < length ss" and "ac_sessionId c = ac_sessionId (ss ! i)"
  shows "drop_session (ac_sessionId c) (ss[i := c]) = erase_at i ss"
  using assms
proof (induction ss arbitrary: i)
  case Nil
  then show ?case by simp
next
  case (Cons x xs)
  show ?case
  proof (cases i)
    case 0
    then show ?thesis by (simp add: erase_at_def)
  next
    case (Suc j)
    have "ac_sessionId x \<noteq> ac_sessionId c" using Cons.prems Suc nth_mem [of j xs] by auto
    then show ?thesis using Cons Suc by (simp add: erase_at_def)
  qed
qed

text \<open>A handler that keeps the identity of its connection keeps the sessions in order.\<close>

definition same_identity :: "ApiState \<Rightarrow> ApiState \<Rightarrow> bool" where
  "same_identity s t \<longleftrightarrow> ac_sessionId (ax_conn t) = ac_sessionId (ax_conn s) \<and>
     ac_readonly (ax_conn t) = ac_readonly (ax_conn s) \<and> ac_password (ax_conn t) = ac_password (ax_conn s)"

lemma distinct_erase_at: "distinct xs \<Longrightarrow> distinct (erase_at i xs)"
  by (auto simp: erase_at_def dest: in_set_takeD in_set_dropD)
     (metis append_take_drop_id distinct_append disjoint_iff Suc_n_not_le_n le_refl set_take_disj_set_drop_if_distinct
       disjoint_iff_not_equal le_SucI)

lemma serve_server:
  fixes a :: Api and h :: "ApiState \<Rightarrow> exn option \<times> ApiState" and i :: nat
  defines "s \<equiv> \<lparr>ax_conn = as_sessions (ai_server a) ! i, ax_world = ai_world a, ax_resp = no_response\<rparr>"
  assumes ok: "server_ok (ai_server a)" and i: "i < length (as_sessions (ai_server a))"
    and same: "same_identity s (snd (h s))"
  shows "server_ok (ai_server (snd (serve h i a)))" and "ai_world (snd (serve h i a)) = ax_world (snd (h s))"
proof -
  define ss c where "ss = as_sessions (ai_server a)" and "c = ax_conn (snd (h s))"
  have id: "ac_sessionId c = ac_sessionId (ss ! i)" "ac_readonly c = ac_readonly (ss ! i)"
      "ac_password c = ac_password (ss ! i)"
    using same by (simp_all add: same_identity_def s_def ss_def c_def)
  have d: "distinct (map ac_sessionId ss)" and all: "\<forall>c \<in> set ss. session_ok (ai_server a) c \<and> ac_open c"
    using ok by (simp_all add: server_ok_def ss_def)
  have map: "map ac_sessionId (ss[i := c]) = map ac_sessionId ss"
    using id i by (metis list_update_id map_update ss_def)
  have c: "session_ok (ai_server a) c" using all i id by (auto simp: session_ok_def ss_def)
  define ss2 where "ss2 = (if ac_open c then ss[i := c] else drop_session (ac_sessionId c) (ss[i := c]))"
  have ss2: "ss2 = (if ac_open c then ss[i := c] else erase_at i ss)"
    using drop_session_update [OF d _ id(1)] i by (simp add: ss2_def ss_def)
  have out: "snd (serve h i a) = a\<lparr>ai_server := (ai_server a)\<lparr>as_sessions := ss2\<rparr>, ai_world := ax_world (snd (h s))\<rparr>"
    by (simp add: serve_def s_def ss2_def ss_def c_def Let_def case_prod_beta)
  have sub: "ac_sessionId ` set ss2 \<subseteq> ac_sessionId ` set ss"
    using arg_cong [OF map, of set] set_erase_at_subset [of i ss] by (auto simp: ss2)
  have dist: "distinct (map ac_sessionId ss2)"
    using d map distinct_erase_at [of "map ac_sessionId ss" i]
    by (auto simp: ss2 erase_at_def take_map drop_map)
  have "\<forall>x \<in> set ss2. session_ok (ai_server a) x \<and> ac_open x"
    using all c set_erase_at_subset [of i ss] set_update_subset_insert [of ss i c] by (auto simp: ss2)
  then show "server_ok (ai_server (snd (serve h i a)))"
    using ok sub dist unfolding out by (auto simp: server_ok_def session_ok_def ss_def split: option.splits)
  show "ai_world (snd (serve h i a)) = ax_world (snd (h s))" by (simp add: out)
qed

lemma recv_identity: "same_identity s (snd (api_onRecvSocketDataCompleted env ds rx s))"
  using api_recv_identity [of env ds rx s] by (auto simp: same_identity_def view_def)

lemma sent_identity:
  "same_identity s (snd (session_sent ec sent disc s))" "ax_world (snd (session_sent ec sent disc s)) = ax_world s"
  by (simp_all add: same_identity_def session_sent_def case_prod_beta api_onSendSocketDataCompleted_def api_disconnect_def api_start_op_def Let_def)

text \<open>
  The program with its interface: the server is started and stopped, sessions are accepted, receive
  and send, and the rest of the program does the steps of the manager. The connections of the
  manager are counted with 32 bits; a transmission of that many lines is left out.
\<close>

inductive api_step :: "('c, 'j) api_env \<Rightarrow> Api \<Rightarrow> Api \<Rightarrow> bool" for env :: "('c, 'j) api_env" where
  ap_start: "api_step env a (a\<lparr>ai_server := snd (api_start address listening endpoint (ai_server a))\<rparr>)"
| ap_stop: "api_step env a (a\<lparr>ai_server := api_stop (ai_server a)\<rparr>)"
| ap_accept: "api_step env a (a\<lparr>ai_server := snd (handle_accept ec peer (ai_server a))\<rparr>)"
| ap_recv: "i < length (as_sessions (ai_server a)) \<Longrightarrow>
    length (pm_connections (aw_manager (ai_world a))) +
      length (received_lines rx \<lparr>ax_conn = as_sessions (ai_server a) ! i, ax_world = ai_world a, ax_resp = no_response\<rparr>)
      < 2 ^ 32 \<Longrightarrow> api_step env a (snd (serve_recv env ds rx i a))"
| ap_sent: "i < length (as_sessions (ai_server a)) \<Longrightarrow> api_step env a (snd (serve_sent ec sent disc i a))"
| ap_manager: "pm_step (ae_pm env) (aw_manager (ai_world a)) p \<Longrightarrow>
    api_step env a (a\<lparr>ai_world := (ai_world a)\<lparr>aw_manager := p\<rparr>\<rparr>)"

definition api_init :: "Api \<Rightarrow> bool" where
  "api_init a \<longleftrightarrow> pm_init (aw_manager (ai_world a)) \<and>
     (\<exists>address portnum password. ai_server a = new_ApiServer address portnum password)"

definition api_inv :: "('c, 'j) api_env \<Rightarrow> Api \<Rightarrow> bool" where
  "api_inv env a \<longleftrightarrow> server_ok (ai_server a) \<and> reach pm_init (pm_step (ae_pm env)) (aw_manager (ai_world a))"

lemma reach_steps: "reach init step s \<Longrightarrow> step\<^sup>*\<^sup>* s t \<Longrightarrow> reach init step t"
  by (rotate_tac, induction rule: rtranclp_induct) (auto intro: reach_step)

text \<open>
  The handlers of a session that is still listed run on it; the handler of any other operation of a
  session runs on a destroyed object once one of its writes has failed. This happens whenever a
  write fails, since the next read is started along with the write.
\<close>

lemma completion_listed:
  assumes "distinct (map ac_sessionId (as_sessions (ai_server a)))" and "i < length (as_sessions (ai_server a))"
  shows "completion h (ac_sessionId (as_sessions (ai_server a) ! i)) a = serve h i a"
proof -
  let ?ss = "as_sessions (ai_server a)"
  have "ac_sessionId (?ss ! j) = ac_sessionId (?ss ! i) \<longleftrightarrow> j = i" if "j < length ?ss" for j
    using assms that by (simp add: distinct_conv_nth) metis
  then have "session_index (ac_sessionId (?ss ! i)) (ai_server a) = Some i"
    using assms(2) by (auto simp: session_index_def find_Some_iff)
  then show ?thesis by (simp add: completion_def)
qed

theorem failed_write_uses_freed_session:
  assumes "server_ok (ai_server a)" and "i < length (as_sessions (ai_server a))"
    and "sid = ac_sessionId (as_sessions (ai_server a) ! i)"
  shows "\<exists>b. completion (session_sent True sent disc) sid a = (None, b) \<and>
    completion h sid b = (Some UndefinedBehaviour, b)"
proof -
  let ?ss = "as_sessions (ai_server a)"
  have d: "distinct (map ac_sessionId ?ss)" and "ac_open (?ss ! i)"
    using assms(1,2) by (simp_all add: server_ok_def)
  obtain c where c: "session_sent True sent disc \<lparr>ax_conn = ?ss ! i, ax_world = ai_world a, ax_resp = no_response\<rparr> =
      (None, \<lparr>ax_conn = c, ax_world = ai_world a, ax_resp = no_response\<rparr>)" "\<not> ac_open c" "ac_sessionId c = sid"
    using \<open>ac_open (?ss ! i)\<close> assms(3)
    by (simp add: session_sent_def api_onSendSocketDataCompleted_def api_disconnect_def api_start_op_def Let_def)
  let ?b = "a\<lparr>ai_server := (ai_server a)\<lparr>as_sessions := drop_session sid (?ss[i := c])\<rparr>\<rparr>"
  have "serve (session_sent True sent disc) i a = (None, ?b)"
    using c by (simp add: serve_def Let_def)
  moreover have "sid \<notin> ac_sessionId ` set (erase_at i ?ss)"
    using d assms(2,3) by (auto simp: erase_at_def distinct_conv_nth in_set_conv_nth nth_append min_def)
  then have "ac_sessionId (erase_at i ?ss ! j) \<noteq> sid" if "j < length (erase_at i ?ss)" for j
    using nth_mem [OF that] by blast
  then have "session_index sid (ai_server ?b) = None"
    using drop_session_update [OF d assms(2)] c(3) assms(3)
    by (auto simp: session_index_def find_None_iff)
  ultimately show ?thesis using completion_listed [OF d assms(2)] assms(3) by (auto simp: completion_def)
qed

lemma serve_recv_inv:
  assumes "server_ok (ai_server a)" and "i < length (as_sessions (ai_server a))"
  shows "server_ok (ai_server (snd (serve_recv env ds rx i a)))"
    and "ai_world (snd (serve_recv env ds rx i a)) = ax_world (snd (api_onRecvSocketDataCompleted env ds rx
      \<lparr>ax_conn = as_sessions (ai_server a) ! i, ax_world = ai_world a, ax_resp = no_response\<rparr>))"
  unfolding serve_recv_def
  using serve_server [OF assms, of "api_onRecvSocketDataCompleted env ds rx"] recv_identity by blast+

lemma serve_sent_inv:
  assumes "server_ok (ai_server a)" and "i < length (as_sessions (ai_server a))"
  shows "server_ok (ai_server (snd (serve_sent ec sent disc i a)))"
    and "ai_world (snd (serve_sent ec sent disc i a)) = ai_world a"
  unfolding serve_sent_def
  using serve_server [OF assms, of "session_sent ec sent disc"] by (simp_all add: sent_identity)

lemma api_step_manager:
  assumes ok: "server_ok (ai_server a)" and "api_step env a b"
  shows "(pm_step (ae_pm env))\<^sup>*\<^sup>* (aw_manager (ai_world a)) (aw_manager (ai_world b))"
  using assms(2)
proof cases
  case (ap_recv i rx ds)
  define s where "s = \<lparr>ax_conn = as_sessions (ai_server a) ! i, ax_world = ai_world a, ax_resp = no_response\<rparr>"
  show ?thesis
    using ap_recv(1,3) serve_recv_inv(2) [OF ok ap_recv(2), of env ds rx] api_recv_changes [of env rx s ds]
    by (simp add: changes_def s_def [symmetric]) (simp add: s_def)
qed (auto simp: serve_sent_inv ok)

lemma api_step_inv:
  assumes "api_inv env a" and "api_step env a b"
  shows "api_inv env b"
proof -
  have ok: "server_ok (ai_server a)" using assms(1) by (simp add: api_inv_def)
  have "server_ok (ai_server b)"
    using assms(2) ok by cases (auto simp: serve_sent_inv serve_recv_inv intro: api_start_ok api_stop_ok handle_accept_ok)
  then show ?thesis
    using assms(1) reach_steps [OF _ api_step_manager [OF ok assms(2)]] by (simp add: api_inv_def)
qed

lemma api_init_inv: "api_init a \<Longrightarrow> api_inv env a"
  by (auto simp: api_init_def api_inv_def intro: new_ApiServer_ok reach_init)

interpretation api: machine api_init "api_step env" "api_inv env" for env :: "('c, 'j) api_env"
  by unfold_locales (rule api_init_inv, assumption, rule api_step_inv)

text \<open>The response to a request.\<close>

lemma processRequest_answer:
  assumes "ax_resp s = no_response" and "processRequest env d req s = (None, t)"
  shows "if requested (ae_js env) req = Some ''api_authorize'' \<and> opens (ac_password (ax_conn s)) (ae_js env) req
    then asked (ax_resp t) else answered (ax_resp t)"
proof (cases "requested (ae_js env) req")
  case None
  then show ?thesis using processRequest_cases [OF assms(1), of env d req] assms(2) by auto
next
  case (Some name)
  then obtain r where r: "asked r" and run: "processRequest env d req s =
       (let t = s\<lparr>ax_resp := r\<rparr> in
        if name = ''api_authorize'' then api_authorize (ae_js env) req t
        else if \<not> ac_is_authenticated (ax_conn s) then (None, api_error (- 403) ''Authorization needed'' t)
        else call_method env d name req t)"
    using processRequest_cases [OF assms(1), of env d req] by auto
  show ?thesis
  proof (cases "name = ''api_authorize''")
    case True
    show ?thesis
      by (rule api_authorize_cases [of "ae_js env" req "s\<lparr>ax_resp := r\<rparr>"])
         (use assms(2) run True Some r in \<open>auto split: if_splits\<close>)
  next
    case False
    then show ?thesis using assms(2) run Some r call_method_effect [of env "s\<lparr>ax_resp := r\<rparr>" d name req]
      by (auto simp: effect_def api_error_def Let_def split: if_splits)
  qed
qed

section \<open>Replies\<close>

definition wire :: "ApiState \<Rightarrow> bool \<times> string \<times> api_op list" where
  "wire s = (ac_open (ax_conn s), ac_sendBuffer (ax_conn s), ac_ops (ax_conn s))"

lemma processRequest_wire:
  assumes "ax_resp s = no_response"
  shows "wire (snd (processRequest env d req s)) = wire s"
proof (cases "requested (ae_js env) req")
  case None
  then show ?thesis using processRequest_cases [OF assms, of env d req] by (auto simp: wire_def)
next
  case (Some name)
  then obtain r where run: "processRequest env d req s =
       (let t = s\<lparr>ax_resp := r\<rparr> in
        if name = ''api_authorize'' then api_authorize (ae_js env) req t
        else if \<not> ac_is_authenticated (ax_conn s) then (None, api_error (- 403) ''Authorization needed'' t)
        else call_method env d name req t)"
    using processRequest_cases [OF assms, of env d req] by auto
  have "wire (snd (api_authorize (ae_js env) req (s\<lparr>ax_resp := r\<rparr>))) = wire s"
    by (rule api_authorize_cases [of "ae_js env" req "s\<lparr>ax_resp := r\<rparr>"]) (simp add: wire_def)
  then show ?thesis using call_method_effect [of env "s\<lparr>ax_resp := r\<rparr>" d name req]
    by (simp add: run Let_def effect_def api_error_def) (simp add: wire_def)
qed

definition blank :: "('c, 'j) api_env \<Rightarrow> string \<Rightarrow> bool" where
  "blank env l \<longleftrightarrow> l = [] \<or> ae_trim env l = []"

lemma api_line_wire:
  assumes "ac_open (ax_conn s)" and "fst (api_line env d l s) = None"
  shows "if blank env l then wire (snd (api_line env d l s)) = wire s
    else \<exists>t. wire (snd (api_line env d l s)) =
      (True, ac_sendBuffer (ax_conn s) @ t, ac_ops (ax_conn s) @ [Api_write (ac_sendBuffer (ax_conn s) @ t) False])"
proof -
  have sent: "\<exists>t. wire (api_upd (sendSocketData_json js j False) u) =
      (True, ac_sendBuffer (ax_conn s) @ t, ac_ops (ax_conn s) @ [Api_write (ac_sendBuffer (ax_conn s) @ t) False])"
    if "wire u = wire s" for js :: "'b jsonlib" and j u
    using that assms(1)
    by (auto simp: wire_def sendSocketData_json_def api_sendSocketData_def api_start_op_def Let_def)
  show ?thesis using assms(2) sent processRequest_wire [of "s\<lparr>ax_resp := no_response\<rparr>" env d]
    by (auto simp: api_line_def blank_def Let_def case_prod_beta wire_def split: option.splits if_splits)
qed

lemma api_lines_wire:
  assumes "fst (api_lines env ds k ls rest s) = None" and "\<forall>l \<in> set ls. \<not> blank env l"
    and "wire s = (True, buf, ops)"
  shows "\<exists>ts. length ts = length ls \<and> wire (snd (api_lines env ds k ls rest s)) =
    (True, buf @ concat ts, ops @ map (\<lambda>n. Api_write (buf @ concat (take (Suc n) ts)) False) [0..<length ls])"
  using assms
proof (induction ls arbitrary: k s buf ops)
  case Nil
  then show ?case by (simp add: wire_def)
next
  case (Cons l ls)
  define s1 where "s1 = snd (api_line env (ds k) l s)"
  have first: "fst (api_line env (ds k) l s) = None"
    using Cons.prems(1) by (cases "api_line env (ds k) l s") (auto split: option.splits)
  have run: "api_lines env ds k (l # ls) rest s = api_lines env ds (Suc k) ls rest s1"
    using first by (simp add: s1_def Let_def case_prod_beta)
  have "ac_open (ax_conn s)" "ac_sendBuffer (ax_conn s) = buf" "ac_ops (ax_conn s) = ops"
    using Cons.prems(3) by (simp_all add: wire_def)
  then obtain t where t: "wire s1 = (True, buf @ t, ops @ [Api_write (buf @ t) False])"
    using api_line_wire [OF _ first] Cons.prems(2) by (auto simp: s1_def)
  obtain ts where ts: "length ts = length ls" "wire (snd (api_lines env ds (Suc k) ls rest s1)) =
      (True, (buf @ t) @ concat ts, (ops @ [Api_write (buf @ t) False]) @
        map (\<lambda>n. Api_write ((buf @ t) @ concat (take (Suc n) ts)) False) [0..<length ls])"
    using Cons.IH [OF _ _ t, of "Suc k"] Cons.prems(1,2) run by auto
  have "[0..<length (l # ls)] = 0 # map Suc [0..<length ls]" by (simp add: upt_conv_Cons map_Suc_upt del: upt_Suc)
  then show ?case using ts run by (intro exI [of _ "t # ts"]) (simp add: comp_def)
qed

section \<open>Properties\<close>

text \<open>
  C36: A request that is processed without an exception is answered with the version, one identifier,
  and either a result or an error with a message, never both. The one exception is a successful
  authorisation, whose response has neither.
\<close>

theorem api_request_answered:
  assumes "ax_resp s = no_response" and "processRequest env d req s = (None, t)"
  shows "\<exists>i body. response_json (ax_resp t) = JObj ([(''jsonrpc'', JStr ''2.0''), (''id'', i)] @ body) \<and>
    (if requested (ae_js env) req = Some ''api_authorize'' \<and> opens (ac_password (ax_conn s)) (ae_js env) req
     then body = []
     else (\<exists>j. body = [(''result'', j)]) \<or>
          (\<exists>code msg. set code \<subseteq> {''code''} \<times> range JInt \<and> body = [(''error'', JObj (code @ [(''message'', JStr msg)]))]))"
proof -
  have shape: "\<exists>i body. response_json r = JObj ([(''jsonrpc'', JStr ''2.0''), (''id'', i)] @ body) \<and>
      (if asked r then body = []
       else (\<exists>j. body = [(''result'', j)]) \<or>
          (\<exists>code msg. set code \<subseteq> {''code''} \<times> range JInt \<and> body = [(''error'', JObj (code @ [(''message'', JStr msg)]))]))"
    if "asked r \<or> answered r" for r
    using that by (auto simp: answer_defs response_json_def opt_member_def split: option.split)
  have "if requested (ae_js env) req = Some ''api_authorize'' \<and> opens (ac_password (ax_conn s)) (ae_js env) req
      then asked (ax_resp t) else answered (ax_resp t)"
    using processRequest_answer [OF assms] .
  moreover have "\<not> asked r" if "answered r" for r using that by (auto simp: answer_defs)
  ultimately show ?thesis using shape [of "ax_resp t"] by (auto split: if_splits)
qed

text \<open>
  C13: A connection that is not authenticated cannot change anything: whatever is received, the
  world and the rights stay as they are, unless one of the lines is an authorisation request whose
  password agrees with that of the server, both cut to 500 characters and filled up with zeros. Such
  a request, and no other, makes the connection authenticated.
\<close>

theorem api_authentication:
  assumes "\<not> ac_is_authenticated (ax_conn s)"
  shows "((\<forall>l \<in> set (received_lines rx s). \<not> grants env (ac_password (ax_conn s)) l) \<longrightarrow>
      view (snd (api_onRecvSocketDataCompleted env ds rx s)) = view s) \<and>
    (let t = snd (processRequest env d req (s\<lparr>ax_resp := no_response\<rparr>)) in
     ax_world t = ax_world s \<and>
     (ac_is_authenticated (ax_conn t) \<longleftrightarrow> requested (ae_js env) req = Some ''api_authorize'' \<and>
        (\<exists>psw. presented_password (ae_js env) req = Some psw \<and> padded psw = padded (ac_password (ax_conn s)))))"
  using assms api_recv_locked [OF assms, of rx env ds] processRequest_view [of "s\<lparr>ax_resp := no_response\<rparr>" env d req]
  by (auto simp: Let_def view_def opens_def split: option.splits)

text \<open>
  C14: A server that was given a negative port is read-only: in every reachable state of the program,
  no transmission of any session changes the manager, the farm, the log or the restarts.
\<close>

theorem api_read_only:
  assumes "reach api_init (api_step env) a" and "as_readonly (ai_server a)" and "i < length (as_sessions (ai_server a))"
  shows "ai_world (snd (serve_recv env ds rx i a)) = ai_world a"
proof -
  have ok: "server_ok (ai_server a)" using api.reach_inv [OF assms(1)] by (simp add: api_inv_def)
  then have "ac_readonly (as_sessions (ai_server a) ! i)"
    using assms(2,3) by (auto simp: server_ok_def session_ok_def)
  then show ?thesis
    using serve_recv_inv(2) [OF ok assms(3), of env ds rx]
      api_recv_identity [of env ds rx "\<lparr>ax_conn = as_sessions (ai_server a) ! i, ax_world = ai_world a, ax_resp = no_response\<rparr>"]
    by (auto simp: view_def)
qed

text \<open>
  C12: The interface refines the manager: with clients that send arbitrary data, every state of the
  manager is one it reaches by its own steps, so that its invariants hold. The sessions of the server
  stay open, carry its password and its mode, and have different identifiers.
\<close>

theorem api_manager_reachable:
  assumes "reach api_init (api_step env) a"
  shows "reach pm_init (pm_step (ae_pm env)) (aw_manager (ai_world a)) \<and> pm_inv (aw_manager (ai_world a)) \<and>
    (\<forall>c \<in> set (as_sessions (ai_server a)). ac_open c \<and> ac_readonly c = as_readonly (ai_server a) \<and>
       ac_password c = as_password (ai_server a)) \<and>
    distinct (map ac_sessionId (as_sessions (ai_server a)))"
  using api.reach_inv [OF assms] manager.reach_inv [of "ae_pm env"]
  by (auto simp: api_inv_def server_ok_def session_ok_def)

text \<open>
  C38: A reply is written together with every reply that is still in the buffer: when several requests
  arrive in one transmission, the write of the n-th reply repeats all those before it. A message of
  less than four characters ends the reading of the connection.
\<close>

theorem api_replies_repeated:
  assumes "ac_open (ax_conn s)" and "ac_sendBuffer (ax_conn s) = []"
    and "regex_search http_pattern (ac_message (ax_conn s) @ rx) = None"
    and "\<forall>l \<in> set (received_lines (Some rx) s). \<not> blank env l"
    and "api_onRecvSocketDataCompleted env ds (Some rx) s = (None, t)"
  shows "if length (ac_message (ax_conn s) @ rx) < 4 then ac_ops (ax_conn t) = ac_ops (ax_conn s)
    else \<exists>ts. length ts = length (received_lines (Some rx) s) \<and>
      ac_ops (ax_conn t) = ac_ops (ax_conn s) @
        map (\<lambda>n. Api_write (concat (take (Suc n) ts)) False) [0..<length ts] @ [Api_read]"
proof (cases "length (ac_message (ax_conn s) @ rx) < 4")
  case True
  then show ?thesis using assms(5) by (auto simp: api_onRecvSocketDataCompleted_def)
next
  case False
  define m where "m = ac_message (ax_conn s) @ rx"
  define s1 where "s1 = api_upd (\<lambda>c. c\<lparr>ac_message := m\<rparr>) s"
  define out where "out = api_lines env ds 0 (fst (split_lines m)) (snd (split_lines m)) s1"
  have t: "fst out = None" "t = (if ac_open (ax_conn (snd out)) then api_upd recvSocketData (snd out) else snd out)"
    using assms(3,5) False
    by (auto simp: api_onRecvSocketDataCompleted_def m_def [symmetric] s1_def [symmetric] out_def Let_def case_prod_beta)
  have "wire s1 = (True, [], ac_ops (ax_conn s))" using assms(1,2) by (simp add: wire_def s1_def)
  then obtain ts where ts: "length ts = length (fst (split_lines m))" "wire (snd out) =
      (True, concat ts, ac_ops (ax_conn s) @ map (\<lambda>n. Api_write (concat (take (Suc n) ts)) False) [0..<length ts])"
    using api_lines_wire [of env ds 0 "fst (split_lines m)" "snd (split_lines m)" s1] t(1) assms(4)
    by (auto simp: out_def received_lines_def m_def)
  then show ?thesis using t(2) False
    by (intro iffD2 [OF if_not_P]) (auto simp: wire_def received_lines_def m_def recvSocketData_def api_start_op_def
        intro!: exI [of _ ts])
qed

section \<open>Concrete inputs\<close>

definition sample_request :: "string \<Rightarrow> (string \<times> jout) list \<Rightarrow> jout" where
  "sample_request name prm =
     JObj [(''id'', JInt 7), (''jsonrpc'', JStr ''2.0''), (''method'', JStr name), (''params'', JObj prm)]"

definition sample_table :: "(string \<times> jout) list" where
  "sample_table =
     [(''ping'', sample_request ''miner_ping'' []),
      (''auth'', sample_request ''api_authorize'' [(''psw'', JStr ''secret'')]),
      (''guess'', sample_request ''api_authorize'' [(''psw'', JStr ''guess'')]),
      (''shuffle'', sample_request ''miner_shuffle'' [])]"

definition sample_api_env :: "(unit, jout) api_env" where
  "sample_api_env =
     \<lparr>ae_pm = sample_env, ae_js = sample_json sample_table, ae_f32 = id, ae_version = ''coreminer-0'', ae_hostname = None,
      ae_trim = id, ae_what = (\<lambda>_. ''error''), ae_parse_errors = (\<lambda>_. []), ae_reboot = False\<rparr>"

definition sample_world :: ApiWorld where
  "sample_world = \<lparr>aw_manager = sample_manager [0, 1] 3, aw_restarts = 0, aw_reboots = 0, aw_logOptions = 0\<rparr>"

definition sample_api_state :: "string \<Rightarrow> ApiState" where
  "sample_api_state password =
     \<lparr>ax_conn = (new_ApiConnection 1 False password)\<lparr>ac_open := True\<rparr>, ax_world = sample_world, ax_resp = no_response\<rparr>"

definition sample_api_draw :: api_draw where
  "sample_api_draw = \<lparr>ad_now = 0, ad_random = 5, ad_garbage = 0\<rparr>"

lemmas request_simps = sample_request_def sample_table_def sample_api_env_def sample_api_state_def sample_json_def
  processRequest_def parseRequestId_def request_method_def getRequestValue_string_def getRequestValue_object_def typed_value_def
  no_response_def new_ApiConnection_def requested_def

lemma sample_ping:
  "processRequest sample_api_env sample_api_draw (sample_request ''miner_ping'' []) (sample_api_state []) =
     (None, (sample_api_state [])\<lparr>ax_resp := \<lparr>rp_id = Some (JInt 7), rp_code = None, rp_message = None,
        rp_result = Some (JStr ''pong'')\<rparr>\<rparr>)"
  by (simp add: request_simps call_method_def read_method_def api_result_def)

theorem api_request_answered_witness:
  "\<exists>i body. response_json \<lparr>rp_id = Some (JInt 7), rp_code = None, rp_message = None, rp_result = Some (JStr ''pong'')\<rparr> =
     JObj ([(''jsonrpc'', JStr ''2.0''), (''id'', i)] @ body) \<and> body \<noteq> []"
proof -
  have "requested (ae_js sample_api_env) (sample_request ''miner_ping'' []) = Some ''miner_ping''"
    by (simp add: request_simps)
  then show ?thesis
    using api_request_answered [OF _ sample_ping] by (auto simp: sample_api_state_def)
qed

lemma sample_received: "received_lines (Some (''guess'' @ [CHR 0x0A])) (sample_api_state pw) = [''guess'']"
  by (simp add: received_lines_def sample_api_state_def new_ApiConnection_def)

theorem api_authentication_witness:
  "view (snd (api_onRecvSocketDataCompleted sample_api_env (\<lambda>_. sample_api_draw) (Some (''guess'' @ [CHR 0x0A]))
      (sample_api_state ''secret''))) = view (sample_api_state ''secret'') \<and>
   ac_is_authenticated (ax_conn (snd (processRequest sample_api_env sample_api_draw
      (sample_request ''api_authorize'' [(''psw'', JStr ''secret'')])
      ((sample_api_state ''secret'')\<lparr>ax_resp := no_response\<rparr>))))"
proof -
  have locked: "\<not> ac_is_authenticated (ax_conn (sample_api_state ''secret''))"
    by (simp add: sample_api_state_def new_ApiConnection_def)
  have pw: "ac_password (ax_conn (sample_api_state ''secret'')) = ''secret''"
    by (simp add: sample_api_state_def new_ApiConnection_def)
  have good: "presented_password (ae_js sample_api_env) (sample_request ''api_authorize'' [(''psw'', JStr ''secret'')]) = Some ''secret''"
    and asks: "requested (ae_js sample_api_env) (sample_request ''api_authorize'' [(''psw'', JStr ''secret'')]) = Some ''api_authorize''"
    by (simp_all add: request_simps presented_password_def fetched_value_def)
  have bad: "presented_password (ae_js sample_api_env) (sample_request ''api_authorize'' [(''psw'', JStr ''guess'')]) = Some ''guess''"
    by (simp add: request_simps presented_password_def fetched_value_def)
  have "padded ''guess'' ! 0 \<noteq> padded ''secret'' ! 0" by (simp add: padded_def)
  then have "padded ''guess'' \<noteq> padded ''secret''" by metis
  moreover have "line_request sample_api_env ''guess'' = Some (sample_request ''api_authorize'' [(''psw'', JStr ''guess'')])"
    by (simp add: line_request_def sample_api_env_def sample_json_def sample_table_def)
  ultimately have "\<not> grants sample_api_env ''secret'' ''guess''"
    using bad by (simp add: grants_def opens_def)
  then show ?thesis
    using api_authentication [OF locked, of "Some (''guess'' @ [CHR 0x0A])" sample_api_env "\<lambda>_. sample_api_draw" sample_api_draw
        "sample_request ''api_authorize'' [(''psw'', JStr ''secret'')]"] good asks
    unfolding sample_received pw Let_def by simp
qed

definition sample_api :: "int \<Rightarrow> Api" where
  "sample_api portnum =
     (let a0 = \<lparr>ai_server = new_ApiServer ''127.0.0.1'' portnum [], ai_world = sample_world\<rparr>;
          a1 = a0\<lparr>ai_server := snd (api_start (Inr ()) True (Inr 3333) (ai_server a0))\<rparr>
      in a1\<lparr>ai_server := snd (handle_accept False None (ai_server a1))\<rparr>)"

lemma sample_api_reach: "reach api_init (api_step env) (sample_api portnum)"
proof -
  define a0 where "a0 = \<lparr>ai_server = new_ApiServer ''127.0.0.1'' portnum [], ai_world = sample_world\<rparr>"
  define a1 where "a1 = a0\<lparr>ai_server := snd (api_start (Inr ()) True (Inr 3333) (ai_server a0))\<rparr>"
  have "api_init a0" by (auto simp: a0_def api_init_def sample_world_def intro!: sample_init)
  then have "reach api_init (api_step env) a0" by (rule reach_init)
  then have "reach api_init (api_step env) a1" unfolding a1_def by (rule reach_step) (rule ap_start)
  then have "reach api_init (api_step env) (a1\<lparr>ai_server := snd (handle_accept False None (ai_server a1))\<rparr>)"
    by (rule reach_step) (rule ap_accept)
  then show ?thesis by (simp add: sample_api_def a1_def a0_def Let_def)
qed

lemma sample_api_server:
  "as_sessions (ai_server (sample_api (- 3333))) =
     [(new_ApiConnection 1 True [])\<lparr>ac_open := True, ac_ops := [Api_read]\<rparr>]"
  "as_readonly (ai_server (sample_api (- 3333)))"
  by (simp_all add: sample_api_def new_ApiServer_def api_start_def handle_accept_def begin_accept_def Let_def
      start_session_def recvSocketData_def api_start_op_def new_ApiConnection_def)

theorem api_read_only_witness:
  "ai_world (snd (serve_recv sample_api_env (\<lambda>_. sample_api_draw) (Some (''shuffle'' @ [CHR 0x0A])) 0 (sample_api (- 3333)))) =
     ai_world (sample_api (- 3333))"
  by (rule api_read_only [OF sample_api_reach]) (simp_all add: sample_api_server)

theorem api_manager_reachable_witness:
  "pm_inv (aw_manager (ai_world (sample_api (- 3333)))) \<and>
   list_all (\<lambda>c. ac_open c \<and> ac_readonly c) (as_sessions (ai_server (sample_api (- 3333)))) \<and>
   length (as_sessions (ai_server (sample_api (- 3333)))) = 1"
  using api_manager_reachable [OF sample_api_reach, of sample_api_env "- 3333"] sample_api_server
  by (simp add: list_all_iff)

lemma ping_answered:
  assumes "ac_is_authenticated (ax_conn s)"
  shows "fst (api_line sample_api_env d ''ping'' s) = None"
    and "ac_is_authenticated (ax_conn (snd (api_line sample_api_env d ''ping'' s)))"
proof -
  define s1 where "s1 = s\<lparr>ax_resp := no_response\<rparr>"
  have ping: "fst (processRequest sample_api_env d (sample_request ''miner_ping'' []) s1) = None"
    "ac_is_authenticated (ax_conn (snd (processRequest sample_api_env d (sample_request ''miner_ping'' []) s1)))"
    using assms by (simp_all add: s1_def request_simps call_method_def read_method_def api_result_def)
  have parse: "js_parse (ae_js sample_api_env) (ae_trim sample_api_env ''ping'') = Some (sample_request ''miner_ping'' [])"
    "ae_trim sample_api_env ''ping'' \<noteq> []"
    by (simp_all add: sample_api_env_def sample_json_def sample_table_def)
  show "fst (api_line sample_api_env d ''ping'' s) = None"
    using ping(1) parse by (simp add: api_line_def s1_def Let_def case_prod_beta)
  show "ac_is_authenticated (ax_conn (snd (api_line sample_api_env d ''ping'' s)))"
    using ping parse by (simp add: api_line_view [unfolded view_def] api_line_def s1_def Let_def case_prod_beta
        sendSocketData_json_def api_sendSocketData_def api_start_op_def)
qed

lemma pings_answered:
  "ac_is_authenticated (ax_conn s) \<Longrightarrow> set ls \<subseteq> {''ping''} \<Longrightarrow> fst (api_lines sample_api_env ds k ls rest s) = None"
proof (induction ls arbitrary: k s)
  case (Cons l ls)
  then have l: "l = ''ping''" by simp
  show ?case using Cons.IH [OF ping_answered(2) [OF Cons.prems(1)]] Cons.prems ping_answered(1) [OF Cons.prems(1)]
    by (simp add: l Let_def case_prod_beta)
qed simp

theorem api_replies_repeated_witness:
  "\<exists>t r1 r2. api_onRecvSocketDataCompleted sample_api_env (\<lambda>_. sample_api_draw)
      (Some (''ping'' @ [CHR 0x0A] @ ''ping'' @ [CHR 0x0A])) (sample_api_state []) = (None, t) \<and>
    ac_ops (ax_conn t) = [Api_write r1 False, Api_write (r1 @ r2) False, Api_read]"
proof -
  define rx where "rx = ''ping'' @ [CHR 0x0A] @ ''ping'' @ [CHR 0x0A]"
  have none: "regex_search http_pattern rx = None"
    unfolding rx_def by code_simp
  have conn: "ac_open (ax_conn (sample_api_state []))" "ac_sendBuffer (ax_conn (sample_api_state [])) = []"
    "ac_message (ax_conn (sample_api_state [])) = []" "ac_ops (ax_conn (sample_api_state [])) = []"
    by (simp_all add: sample_api_state_def new_ApiConnection_def)
  have split: "split_lines rx = ([''ping'', ''ping''], [])" by (simp add: rx_def)
  have lines: "received_lines (Some rx) (sample_api_state []) = [''ping'', ''ping'']"
    by (simp add: received_lines_def conn split)
  have "fst (api_onRecvSocketDataCompleted sample_api_env (\<lambda>_. sample_api_draw) (Some rx) (sample_api_state [])) = None"
    using none by (simp add: api_onRecvSocketDataCompleted_def conn split Let_def case_prod_beta del: api_lines.simps)
      (simp add: pings_answered sample_api_state_def new_ApiConnection_def del: api_lines.simps)
  then obtain t where run: "api_onRecvSocketDataCompleted sample_api_env (\<lambda>_. sample_api_draw) (Some rx) (sample_api_state []) = (None, t)"
    by (metis prod.collapse)
  have len: "\<not> length (ac_message (ax_conn (sample_api_state [])) @ rx) < 4" by (simp add: rx_def)
  have nb: "\<forall>l \<in> set (received_lines (Some rx) (sample_api_state [])). \<not> blank sample_api_env l"
    by (simp add: lines blank_def sample_api_env_def)
  obtain ts where ts: "length ts = Suc (Suc 0)" "ac_ops (ax_conn t) =
      [Api_write (concat (take (Suc 0) ts)) False, Api_write (concat ts) False, Api_read]"
    using api_replies_repeated [OF conn(1,2) _ nb run] none len by (auto simp: conn lines)
  obtain r1 r2 where "ts = [r1, r2]" using ts(1) by (auto simp: length_Suc_conv)
  then show ?thesis using run ts(2) by (auto simp: rx_def)
qed

end
