(* ===== verification/Log.thy ===== *)
theory Log
  imports Display
begin

text \<open>
  The log (\<open>src/libdevcore/Log.cpp\<close>, \<open>Log.h\<close>): the prefix of a line, the removal of the colours, and
  the names of the threads, as compiled for Linux. The time of a line and the identity of its
  thread (0 for the main thread) are arguments.
\<close>

section \<open>Options\<close>

record log_options =
  lg_noColor :: bool
  lg_syslog :: bool
  lg_stdout :: bool

text \<open>What \<open>main\<close> takes from the environment, \<open>SYSLOG\<close> and \<open>NO_COLOR\<close>.\<close>

definition log_environment :: "bool \<Rightarrow> bool \<Rightarrow> log_options \<Rightarrow> log_options" where
  "log_environment syslog no_color o1 =
     (let o2 = (if syslog then o1\<lparr>lg_syslog := True\<rparr> else o1)
      in if lg_syslog o2 \<or> no_color then o2\<lparr>lg_noColor := True\<rparr> else o2)"

section \<open>Names of threads\<close>

text \<open>
  The name that the operating system keeps, and the pointer of each thread. On Linux
  \<open>setThreadName\<close> calls \<open>pthread_setname_np\<close>, which refuses names of more than 15 characters.
  \<open>pthread_getname_np\<close> is a function and not a macro, so that \<open>getThreadName\<close> is compiled to read the
  pointer, which only the main thread sets.
\<close>

record thread_names =
  tn_pthread :: "nat \<Rightarrow> string"
  tn_local :: "nat \<Rightarrow> string option"

definition initial_names :: "string \<Rightarrow> thread_names" where
  "initial_names program = \<lparr>tn_pthread = (\<lambda>_. program), tn_local = (\<lambda>_. None)(0 := Some ''main'')\<rparr>"

definition getThreadName :: "nat \<Rightarrow> thread_names \<Rightarrow> string" where
  "getThreadName t names = (case tn_local names t of Some n \<Rightarrow> n | None \<Rightarrow> ''<unknown>'')"

definition setThreadName :: "string \<Rightarrow> nat \<Rightarrow> thread_names \<Rightarrow> thread_names" where
  "setThreadName n t names =
     (if length n \<le> 15 then names\<lparr>tn_pthread := (tn_pthread names)(t := n)\<rparr> else names)"

section \<open>Lines\<close>

datatype channel = LogChannel | WarnChannel | NoteChannel | CPUChannel

definition channel_name :: "channel \<Rightarrow> string" where
  "channel_name c =
     (case c of LogChannel \<Rightarrow> esc ''37'' @ ''..'' | WarnChannel \<Rightarrow> esc ''91'' @ '' X''
      | NoteChannel \<Rightarrow> esc ''94'' @ '' i'' | CPUChannel \<Rightarrow> esc ''33'' @ ''cp'')"

text \<open>\<open>setw\<close> with the flag \<open>left\<close>.\<close>

definition setw_left :: "nat \<Rightarrow> string \<Rightarrow> string" where
  "setw_left n s = s @ replicate (n - length s) (CHR '' '')"

definition LogOutputStreamBase :: "log_options \<Rightarrow> string \<Rightarrow> string \<Rightarrow> string \<Rightarrow> string" where
  "LogOutputStreamBase lo name time thread =
     (if lg_syslog lo then setw_left 8 thread @ '' '' @ esc ''0''
      else name @ '' '' @ esc ''35'' @ time @ '' '' @ esc ''94'' @ setw_left 8 thread @ '' '' @ esc ''0'')"

fun strip_colors :: "bool \<Rightarrow> string \<Rightarrow> string" where
  "strip_colors skip [] = []"
| "strip_colors skip (c # cs) =
     (if \<not> skip \<and> c = char_of (27 :: nat) then strip_colors True cs
      else if skip \<and> c = CHR ''m'' then strip_colors False cs
      else if \<not> skip then c # strip_colors skip cs
      else strip_colors skip cs)"

datatype log_stream = Cout | Clog

definition simpleDebugOut :: "log_options \<Rightarrow> string \<Rightarrow> log_stream \<times> string" where
  "simpleDebugOut lo s =
     (if lg_stdout lo then Cout else Clog,
      (if \<not> lg_noColor lo then s else strip_colors False s) @ [CHR 0x0A])"

text \<open>A whole line: the object is made, the text is shifted to it, and its destructor prints it.\<close>

definition log_line :: "log_options \<Rightarrow> channel \<Rightarrow> string \<Rightarrow> nat \<Rightarrow> thread_names \<Rightarrow> string \<Rightarrow> log_stream \<times> string" where
  "log_line lo c time t names s =
     simpleDebugOut lo (LogOutputStreamBase lo (channel_name c) time (getThreadName t names) @ s)"

section \<open>Facts\<close>

lemma strip_no_escape: "char_of (27 :: nat) \<notin> set (strip_colors skip s)"
  by (induction skip s rule: strip_colors.induct) auto

lemma strip_plain: "char_of (27 :: nat) \<notin> set s \<Longrightarrow> strip_colors False (s @ t) = s @ strip_colors False t"
  by (induction s) auto

lemma strip_skipped: "CHR ''m'' \<notin> set s \<Longrightarrow> strip_colors True (s @ CHR ''m'' # t) = strip_colors False t"
  by (induction s) auto

lemma strip_esc: "CHR ''m'' \<notin> set s \<Longrightarrow> strip_colors False (esc s @ t) = strip_colors False t"
  by (simp add: esc_def strip_skipped)

text \<open>Removing the colours twice is the same as once.\<close>

lemma strip_idempotent: "strip_colors False (strip_colors skip s) = strip_colors skip s"
  using strip_plain [OF strip_no_escape, of skip s "[]"] by simp

text \<open>
  Without colours a line is its channel, time, thread and text, and nothing else, as long as these
  have no escape character of their own.
\<close>

lemma log_line_plain:
  assumes "lg_noColor lo" and "\<not> lg_syslog lo" and "char_of (27 :: nat) \<notin> set (time @ getThreadName t names @ s)"
  shows "snd (log_line lo NoteChannel time t names s) =
    '' i '' @ time @ '' '' @ setw_left 8 (getThreadName t names) @ '' '' @ s @ [CHR 0x0A]"
proof -
  have sep: "char_of (27 :: nat) \<noteq> CHR '' ''" "char_of (27 :: nat) \<noteq> CHR ''i''" by code_simp+
  have "strip_colors False (u @ v) = u @ strip_colors False v" if "u = time \<or> u = setw_left 8 (getThreadName t names)" for u v
    using that assms(3) sep by (intro strip_plain) (auto simp: setw_left_def)
  moreover have "strip_colors False s = s" using strip_plain [of s "[]"] assms(3) by simp
  moreover have "strip_colors False (CHR '' '' # v) = CHR '' '' # strip_colors False v"
    "strip_colors False (CHR ''i'' # v) = CHR ''i'' # strip_colors False v" for v using sep by auto
  ultimately show ?thesis
    using assms(1,2)
    by (simp add: log_line_def simpleDebugOut_def LogOutputStreamBase_def channel_name_def strip_esc
        del: strip_colors.simps(2))
qed

text \<open>Setting the name of a thread has no effect on the log: the other threads are all unknown.\<close>

lemma setThreadName_not_logged: "getThreadName t (setThreadName n u names) = getThreadName t names"
  by (simp add: getThreadName_def setThreadName_def)

lemma worker_threads_unknown:
  "getThreadName t (fold (\<lambda>(n, u). setThreadName n u) calls (initial_names program)) =
    (if t = 0 then ''main'' else ''<unknown>'')"
proof -
  have "getThreadName t (fold (\<lambda>(n, u). setThreadName n u) calls names) = getThreadName t names" for names
    by (induction calls arbitrary: names) (auto simp: setThreadName_not_logged)
  then show ?thesis by (simp add: getThreadName_def initial_names_def)
qed

end
