(* ===== verification/Cli.thy ===== *)
theory Cli
  imports CPUMiner ApiServer Log
begin

text \<open>
  The command line and the life of the program (\<open>coreminer/main.cpp\<close>). The library CLI11 turns the
  arguments into the values of the options; the ranges that the program asks it to check are part of
  the program. An error of the library is a \<open>std::runtime_error\<close>. What the program prints is kept in a
  list of lines.
\<close>

section \<open>The options\<close>

text \<open>
  The values given on the command line: an option that is absent leaves its variable alone, a flag
  that is absent too. A flag may be given a value, as in \<open>--noeval=false\<close>, which makes a difference
  for \<open>--noeval\<close> only: the variables of the other flags are false before. \<open>ar_api_bind\<close> is the text
  of \<open>--api-bind\<close>.
\<close>

record CliArgs =
  ar_help :: bool
  ar_help_ext :: string
  ar_version :: bool
  ar_ergodicity :: "u32 option"
  ar_verbosity :: "u32 option"
  ar_farm_recheck :: "u32 option"
  ar_farm_retries :: "u32 option"
  ar_retry_delay :: "u32 option"
  ar_work_timeout :: "u32 option"
  ar_response_timeout :: "u32 option"
  ar_report_hashrate :: bool
  ar_display_interval :: "u32 option"
  ar_exit :: bool
  ar_pools :: "string list"
  ar_failover_timeout :: "u32 option"
  ar_nocolor :: bool
  ar_syslog :: bool
  ar_api_bind :: "string option"
  ar_api_port :: "int option"
  ar_api_password :: "string option"
  ar_threads :: "u32 option"
  ar_list_devices :: bool
  ar_cp_devices :: "u32 list"
  ar_noeval :: "bool option"
  ar_dag_load_mode :: "u32 option"
  ar_simulation :: "u32 option"
  ar_large_pages :: bool
  ar_hard_aes :: bool
  ar_jit_secure :: bool

definition in_range :: "nat \<Rightarrow> nat \<Rightarrow> u32 option \<Rightarrow> bool" where
  "in_range a b v = (case v of None \<Rightarrow> True | Some x \<Rightarrow> a \<le> unat x \<and> unat x \<le> b)"

text \<open>The checks of the options; \<open>cpus\<close> is the number of devices.\<close>

definition option_checks :: "u32 \<Rightarrow> (string \<times> (CliArgs \<Rightarrow> bool)) list" where
  "option_checks cpus =
     [(''--help-ext'', \<lambda>a. ar_help_ext a = [] \<or> ar_help_ext a \<in> {''con'', ''test'', ''cp'', ''api'', ''misc'', ''env''}),
      (''--ergodicity'', \<lambda>a. in_range 0 2 (ar_ergodicity a)),
      (''--verbosity'', \<lambda>a. in_range 0 (unat LOG_NEXT - 1) (ar_verbosity a)),
      (''--farm-recheck'', \<lambda>a. in_range 1 99999 (ar_farm_recheck a)),
      (''--farm-retries'', \<lambda>a. in_range 0 99999 (ar_farm_retries a)),
      (''--retry-delay'', \<lambda>a. in_range 1 999 (ar_retry_delay a)),
      (''--work-timeout'', \<lambda>a. in_range 180 99999 (ar_work_timeout a)),
      (''--response-timeout'', \<lambda>a. in_range 2 999 (ar_response_timeout a)),
      (''--display-interval'', \<lambda>a. in_range 1 1800 (ar_display_interval a)),
      (''--failover-timeout'', \<lambda>a. in_range 0 999 (ar_failover_timeout a)),
      (''--api-port'', \<lambda>a. case ar_api_port a of None \<Rightarrow> True | Some p \<Rightarrow> - 65535 \<le> p \<and> p \<le> 65535),
      (''--threads'', \<lambda>a. in_range 1 (unat cpus) (ar_threads a)),
      (''--dag-load-mode'', \<lambda>a. in_range 0 1 (ar_dag_load_mode a))]"

definition checked_args :: "u32 \<Rightarrow> CliArgs \<Rightarrow> exn + CliArgs" where
  "checked_args cpus a =
     (case find (\<lambda>(_, ok). \<not> ok a) (option_checks cpus) of
        None \<Rightarrow> Inr a
      | Some (name, _) \<Rightarrow> Inl (RuntimeError name))"

section \<open>The address of the API\<close>

definition is_bind_char :: "char \<Rightarrow> bool" where
  "is_bind_char c = (is_hexdigit c \<or> c = CHR ''.'' \<or> c = CHR '':'')"

definition is_port_char :: "char \<Rightarrow> bool" where
  "is_port_char c = (is_decdigit c \<or> c = CHR ''-'')"

text \<open>\<open>regex_match\<close> asks for a match of the whole text.\<close>

definition bind_pattern :: re where
  "bind_pattern =
     seq_list [Bol, Grp 1 (Star (Cls is_bind_char)), chr (CHR '':''), Grp 2 (Star (Cls is_port_char)), Eol]"

text \<open>\<open>std::stoi\<close> with base 10.\<close>

definition stoi10 :: "string \<Rightarrow> exn + int" where
  "stoi10 s =
     (let t = dropWhile is_space s;
          neg = (t \<noteq> [] \<and> hd t = CHR ''-'');
          ds = takeWhile is_decdigit (if t \<noteq> [] \<and> (hd t = CHR ''-'' \<or> hd t = CHR ''+'') then tl t else t);
          v = (if neg then - int (decnum ds) else int (decnum ds))
      in if ds = [] then Inl InvalidArgument
         else if v < - (2 ^ 31) \<or> 2 ^ 31 \<le> v then Inl OutOfRange else Inr v)"

text \<open>\<open>addr\<close> is the text of the parsed address, \<open>None\<close> when it is not valid.\<close>

definition ParseBind :: "(string \<Rightarrow> string option) \<Rightarrow> string \<Rightarrow> bool \<Rightarrow> exn + string \<times> int" where
  "ParseBind addr inaddr advertise_negative_port =
     (case regex_search bind_pattern inaddr of
        None \<Rightarrow> Inl InvalidArgument
      | Some m \<Rightarrow>
          (case addr (group m 1) of
             None \<Rightarrow> Inl InvalidArgument
           | Some outaddr \<Rightarrow>
               ebind (stoi10 (group m 2)) (\<lambda>outport.
                 if (if advertise_negative_port then outport < - 65535 \<or> outport > 65535 \<or> outport = 0
                     else outport < 1 \<or> outport > 65535)
                 then Inl InvalidArgument else Inr (outaddr, outport))))"

section \<open>The state of the command line\<close>

datatype OperationMode = ModeNone | ModeSimulation | ModeMining

record CPSettings =
  cp_devices :: "u32 list"
  cp_flags :: u32

record MinerCLI =
  mc_DevicesCollection :: "(string \<times> DeviceDescriptor) list"
  mc_miningThreads :: u32
  mc_mode :: OperationMode
  mc_shouldListDevices :: bool
  mc_FarmSettings :: FarmSettings
  mc_PoolSettings :: PoolSettings
  mc_uris :: "URI list"
  mc_CPSettings :: CPSettings
  mc_cliDisplayInterval :: u32
  mc_api_address :: string
  mc_api_port :: int
  mc_api_password :: string
  mc_logOptions :: u32
  mc_out :: "string list"

text \<open>
  What the program uses of its surroundings: CLI11, the number of devices, boost, the flags of the
  RandomY library, the text of an exception, uninitialised memory, and whether \<open>SSL_NOVERIFY\<close> is set.
\<close>

record cli_env =
  ce_parse :: "string list \<Rightarrow> exn + CliArgs"
  ce_cpus :: u32
  ce_boost :: boost_lib
  ce_address :: "string \<Rightarrow> string option"
  ce_flag_jit_full_mem :: u32
  ce_flag_large_pages :: u32
  ce_flag_hard_aes :: u32
  ce_flag_secure :: u32
  ce_what :: "exn \<Rightarrow> string"
  ce_garbage :: "nat \<Rightarrow> u64"
  ce_ssl_noverify :: bool
  ce_hashRateId :: string

definition new_MinerCLI :: "cli_env \<Rightarrow> MinerCLI" where
  "new_MinerCLI env =
     \<lparr>mc_DevicesCollection = [], mc_miningThreads = ce_cpus env, mc_mode = ModeNone, mc_shouldListDevices = False,
      mc_FarmSettings = \<lparr>fs_dagLoadMode = 0, fs_noEval = True, fs_ergodicity = 0\<rparr>,
      mc_PoolSettings = default_PoolSettings (ce_hashRateId env), mc_uris = [],
      mc_CPSettings = \<lparr>cp_devices = [], cp_flags = ce_flag_jit_full_mem env\<rparr>,
      mc_cliDisplayInterval = 5, mc_api_address = ''0.0.0.0'', mc_api_port = 0, mc_api_password = [],
      mc_logOptions = 0, mc_out = []\<rparr>"

text \<open>
  The library stores the values in the variables of the options in the order of their declaration:
  the check of \<open>--api-bind\<close> writes the address and the port, a later \<open>--api-port\<close> the port again. An
  exception of the check is turned into an error of the library.
\<close>

definition given :: "'a option \<Rightarrow> 'a \<Rightarrow> 'a" where
  "given v d = (case v of Some x \<Rightarrow> x | None \<Rightarrow> d)"

definition store_pool_settings :: "CliArgs \<Rightarrow> PoolSettings \<Rightarrow> PoolSettings" where
  "store_pool_settings a s =
     s\<lparr>ps_getWorkPollInterval := given (ar_farm_recheck a) (ps_getWorkPollInterval s),
       ps_connectionMaxRetries := given (ar_farm_retries a) (ps_connectionMaxRetries s),
       ps_delayBeforeRetry := given (ar_retry_delay a) (ps_delayBeforeRetry s),
       ps_noWorkTimeout := given (ar_work_timeout a) (ps_noWorkTimeout s),
       ps_noResponseTimeout := given (ar_response_timeout a) (ps_noResponseTimeout s),
       ps_reportHashrate := (ar_report_hashrate a \<or> ps_reportHashrate s),
       ps_poolFailoverTimeout := given (ar_failover_timeout a) (ps_poolFailoverTimeout s),
       ps_benchmarkBlock := given (ar_simulation a) (ps_benchmarkBlock s)\<rparr>"

definition store_farm_settings :: "CliArgs \<Rightarrow> FarmSettings \<Rightarrow> FarmSettings" where
  "store_farm_settings a s =
     s\<lparr>fs_ergodicity := given (ar_ergodicity a) (fs_ergodicity s),
       fs_noEval := given (ar_noeval a) (fs_noEval s),
       fs_dagLoadMode := given (ar_dag_load_mode a) (fs_dagLoadMode s)\<rparr>"

definition store_api :: "cli_env \<Rightarrow> CliArgs \<Rightarrow> MinerCLI \<Rightarrow> exn + MinerCLI" where
  "store_api env a m =
     ebind (case ar_api_bind a of
              None \<Rightarrow> Inr (mc_api_address m, mc_api_port m)
            | Some t \<Rightarrow>
                (case ParseBind (ce_address env) t True of
                   Inr ap \<Rightarrow> Inr ap
                 | Inl x \<Rightarrow> if std_exception x then Inl (RuntimeError (ce_what env x)) else Inl x))
       (\<lambda>(address, port).
          Inr (m\<lparr>mc_api_address := address, mc_api_port := given (ar_api_port a) port,
                 mc_api_password := given (ar_api_password a) (mc_api_password m)\<rparr>))"

definition store_flags :: "cli_env \<Rightarrow> CliArgs \<Rightarrow> u32 \<Rightarrow> u32" where
  "store_flags env a f =
     (let f1 = (if ar_large_pages a then f OR ce_flag_large_pages env else f);
          f2 = (if ar_hard_aes a then f1 OR ce_flag_hard_aes env else f1)
      in if ar_jit_secure a then f2 OR ce_flag_secure env else f2)"

definition store_args :: "cli_env \<Rightarrow> CliArgs \<Rightarrow> MinerCLI \<Rightarrow> exn + MinerCLI" where
  "store_args env a m =
     ebind (store_api env a m) (\<lambda>m1.
       Inr (m1\<lparr>mc_FarmSettings := store_farm_settings a (mc_FarmSettings m1),
               mc_PoolSettings := store_pool_settings a (mc_PoolSettings m1),
               mc_logOptions := given (ar_verbosity a) (mc_logOptions m1),
               mc_cliDisplayInterval := given (ar_display_interval a) (mc_cliDisplayInterval m1),
               mc_miningThreads := given (ar_threads a) (mc_miningThreads m1),
               mc_shouldListDevices := (ar_list_devices a \<or> mc_shouldListDevices m1),
               mc_CPSettings := \<lparr>cp_devices = (if ar_cp_devices a = [] then cp_devices (mc_CPSettings m1) else ar_cp_devices a),
                                cp_flags = store_flags env a (cp_flags (mc_CPSettings m1))\<rparr>\<rparr>))"

section \<open>Validation\<close>

definition verbosity_warnings :: "u32 \<Rightarrow> string list" where
  "verbosity_warnings v =
     (if v AND 32 \<noteq> 0 then [''Socket connections won't be logged. Compile with -DDEVBUILD=ON''] else []) @
     (if v AND 64 \<noteq> 0 then [''Job switch timings won't be logged. Compile with -DDEVBUILD=ON''] else []) @
     (if v AND 128 \<noteq> 0
      then [''Solution internal submission timings won't be logged. Compile with -DDEVBUILD=ON''] else []) @
     (if v AND 256 \<noteq> 0 then [''Program flow won't be logged. Compile with -DDEVBUILD=ON''] else [])"

definition add_uri :: "URI \<Rightarrow> MinerCLI \<Rightarrow> MinerCLI" where
  "add_uri u m =
     m\<lparr>mc_uris := mc_uris m @ [u],
       mc_PoolSettings := (mc_PoolSettings m)\<lparr>ps_connections :=
         ps_connections (mc_PoolSettings m) @ [length (mc_uris m)]\<rparr>\<rparr>"

definition uri_warnings :: "cli_env \<Rightarrow> URI \<Rightarrow> string list" where
  "uri_warnings env u =
     (if SecLevel u \<noteq> SL_NONE \<and> ur_hostType u \<noteq> HT_Dns \<and> \<not> ce_ssl_noverify env
      then [''You have specified host '' @ ur_host u @ '' with encryption enabled.'',
            ''Certificate validation will likely fail'']
      else [])"

fun add_pools :: "cli_env \<Rightarrow> nat \<Rightarrow> string list \<Rightarrow> MinerCLI \<Rightarrow> exn + MinerCLI" where
  "add_pools env i [] m = Inr m"
| "add_pools env i (p # ps) m =
     (if p = ''exit'' \<and> i = 0 then Inl InvalidArgument
      else let url = (if p = ''exit'' then ''stratum+tcp://-:x@exit:0'' else p) in
        case new_URI (ce_boost env) (ce_garbage env i) url False of
          Inl x \<Rightarrow> if std_exception x then Inl (RuntimeError (''Bad URI : '' @ ce_what env x)) else Inl x
        | Inr u \<Rightarrow> add_pools env (Suc i) ps ((add_uri u m)\<lparr>mc_out := mc_out m @ uri_warnings env u\<rparr>))"

text \<open>The result says whether to go on. The help texts are not kept.\<close>

definition validateArgs :: "cli_env \<Rightarrow> string list \<Rightarrow> MinerCLI \<Rightarrow> exn + bool \<times> MinerCLI" where
  "validateArgs env argv m =
     ebind (ce_parse env argv) (\<lambda>a0.
     ebind (checked_args (ce_cpus env) a0) (\<lambda>a.
     ebind (store_args env a m) (\<lambda>m1.
       if ar_help a \<or> ar_help_ext a \<noteq> [] \<or> ar_version a then Inr (False, m1)
       else
         let m2 = m1\<lparr>mc_out := mc_out m1 @ verbosity_warnings (mc_logOptions m1)\<rparr> in
         if ar_simulation a \<noteq> None
         then ebind (new_URI (ce_boost env) (ce_garbage env 0) ''simulation://localhost:0'' True) (\<lambda>u.
                Inr (True, (add_uri u m2)\<lparr>mc_mode := ModeSimulation\<rparr>))
         else
           let m3 = m2\<lparr>mc_mode := ModeMining\<rparr> in
           if mc_shouldListDevices m3 then Inr (True, m3)
           else if ar_pools a = [] then Inl InvalidArgument
           else ebind (add_pools env 0 (ar_pools a) m3) (\<lambda>m4. Inr (True, m4)))))"

section \<open>Devices\<close>

definition device_line :: "'c pm_env \<Rightarrow> nat \<Rightarrow> string \<times> DeviceDescriptor \<Rightarrow> exn + string" where
  "device_line pe i kd =
     ebind (getFormattedMemory (en_rnd pe) (en_fmt pe) (en_rnd pe (real (unat (dd_totalMemory (snd kd))))) AddSuffix 2) (\<lambda>mem.
       Inr (setw 3 (CHR '' '') (decstr i) @ '' '' @ setw_left 10 (fst kd) @
            (case dd_type (snd kd) of
               DT_Cpu \<Rightarrow> setw_left 5 ''Cpu'' @ setw_left 30 (take 28 (dd_name (snd kd)))
             | DT_Unknown \<Rightarrow> setw_left 30 (take 28 (dd_name (snd kd)))) @
            setw 13 (CHR '' '') mem @ '' ''))"

fun device_lines :: "'c pm_env \<Rightarrow> nat \<Rightarrow> (string \<times> DeviceDescriptor) list \<Rightarrow> exn + string list" where
  "device_lines pe i [] = Inr []"
| "device_lines pe i (kd # kds) =
     ebind (device_line pe i kd) (\<lambda>l. ebind (device_lines pe (Suc i) kds) (\<lambda>ls. Inr (l # ls)))"

definition list_devices :: "'c pm_env \<Rightarrow> (string \<times> DeviceDescriptor) list \<Rightarrow> exn + string list" where
  "list_devices pe ds =
     ebind (device_lines pe 0 ds) (\<lambda>ls.
       Inr ([setw 4 (CHR '' '') '' Id '' @ setw_left 10 ''Pci Id    '' @ setw_left 5 ''Type '' @
             setw_left 30 ''Name                          '',
             setw 4 (CHR '' '') ''--- '' @ setw_left 10 ''--------- '' @ setw_left 5 ''---- '' @
             setw_left 30 ''----------------------------- ''] @ ls))"

definition subscribe :: "DeviceDescriptor \<Rightarrow> DeviceDescriptor" where
  "subscribe d = d\<lparr>dd_subscriptionType := DS_Cpu\<rparr>"

text \<open>The devices with the given positions in the collection; positions beyond its end are ignored.\<close>

definition subscribe_at :: "u32 \<Rightarrow> (string \<times> DeviceDescriptor) list \<Rightarrow> (string \<times> DeviceDescriptor) list" where
  "subscribe_at index ds =
     (if unat index < length ds
      then ds[unat index := (fst (ds ! unat index), subscribe (snd (ds ! unat index)))] else ds)"

definition subscribe_devices :: "u32 list \<Rightarrow> (string \<times> DeviceDescriptor) list \<Rightarrow> (string \<times> DeviceDescriptor) list" where
  "subscribe_devices selected ds =
     (if selected \<noteq> [] then fold subscribe_at selected ds
      else map (\<lambda>(k, d). (k, subscribe d)) ds)"

definition subscribed :: "(string \<times> DeviceDescriptor) list \<Rightarrow> (string \<times> DeviceDescriptor) list" where
  "subscribed ds = filter (\<lambda>(k, d). dd_subscriptionType d \<noteq> DS_None) ds"

section \<open>The running program\<close>

text \<open>
  The interface with the manager and the farm, \<open>g_running\<close>, the timer of the display, and what was
  printed.
\<close>

record Program = Api +
  pr_running :: bool
  pr_displayTimer :: "u32 option"
  pr_displayInterval :: u32
  pr_out :: "string list"

text \<open>
  What \<open>execute\<close> meets: the name and the memory of the devices, the random number of the farm, the
  time, and the outcome of starting the API server.
\<close>

record start_env =
  se_name :: string
  se_mem :: u64
  se_random :: u64
  se_now :: nat
  se_address :: "exn + unit"
  se_listening :: bool
  se_endpoint :: "exn + u16"

definition configured_pools :: "MinerCLI \<Rightarrow> string list" where
  "configured_pools m =
     (if mc_mode m = ModeSimulation then []
      else map (\<lambda>c. ''Configured pool '' @ ur_host (mc_uris m ! c) @ '':'' @ decstr (unat (ur_port (mc_uris m ! c))))
             (ps_connections (mc_PoolSettings m)))"

text \<open>\<open>doMiner\<close> up to the wait for a signal.\<close>

definition doMiner_start :: "start_env \<Rightarrow> MinerCLI \<Rightarrow> Farm \<Rightarrow> exn option \<times> Program" where
  "doMiner_start se m farm =
     (let server = new_ApiServer (mc_api_address m) (mc_api_port m) (mc_api_password m);
          manager = new_PoolManager (mc_PoolSettings m) (mc_uris m) farm;
          p0 = \<lparr>ai_server = server,
                ai_world = \<lparr>aw_manager = manager, aw_restarts = 0, aw_reboots = 0, aw_logOptions = mc_logOptions m\<rparr>,
                pr_running = True, pr_displayTimer = None, pr_displayInterval = mc_cliDisplayInterval m,
                pr_out = mc_out m @ configured_pools m\<rparr>;
          (e, server1) = (if mc_api_port m \<noteq> 0 then api_start (se_address se) (se_listening se) (se_endpoint se) server
                          else (None, server));
          p1 = p0\<lparr>ai_server := server1\<rparr>
      in if e \<noteq> None then (e, p1)
         else (None, p1\<lparr>ai_world := (ai_world p1)\<lparr>aw_manager := pm_start manager\<rparr>,
                        pr_displayTimer := Some (mc_cliDisplayInterval m)\<rparr>))"

text \<open>\<open>execute\<close>: \<open>Inl\<close> an exception, \<open>Inr None\<close> a return after the list of the devices was printed.\<close>

definition execute :: "'c pm_env \<Rightarrow> start_env \<Rightarrow> MinerCLI \<Rightarrow> exn + (string list + Program)" where
  "execute pe se m =
     (let ds = enumDevices (se_name se) (se_mem se) (unat (mc_miningThreads m)) (mc_DevicesCollection m) in
      if ds = [] then Inl (RuntimeError ''No usable mining devices found'')
      else if mc_shouldListDevices m then ebind (list_devices pe ds) (\<lambda>ls. Inr (Inl (mc_out m @ ls)))
      else let ds1 = subscribe_devices (cp_devices (mc_CPSettings m)) ds in
        if subscribed ds1 = [] then Inl (RuntimeError ''No mining device selected. Aborting ...'')
        else let (e, p) = doMiner_start se m (new_Farm (mc_FarmSettings m) ds1 (se_random se) (se_now se))
             in case e of Some x \<Rightarrow> Inl x | None \<Rightarrow> Inr (Inr p))"

definition signalHandler :: "int \<Rightarrow> Program \<Rightarrow> Program" where
  "signalHandler sig p = (if sig = 999 then p else p\<lparr>pr_running := False\<rparr>)"

text \<open>\<open>pow1000\<close> is the power function of the status line.\<close>

definition cliDisplayInterval_elapsed ::
  "'c pm_env \<Rightarrow> (nat \<Rightarrow> real) \<Rightarrow> nat \<Rightarrow> bool \<Rightarrow> Program \<Rightarrow> exn option \<times> Program" where
  "cliDisplayInterval_elapsed pe pow1000 now ec p =
     (if \<not> ec \<and> pr_running p
      then let manager = aw_manager (ai_world p) in
           withv (if client_connected manager
                  then TelemetryType_str (en_rnd pe) (en_fmt pe) pow1000 now (fm_telemetry (pm_farm manager))
                  else Inr ''Not connected'') p (\<lambda>line.
             (None, p\<lparr>pr_out := pr_out p @ [line], pr_displayTimer := Some (pr_displayInterval p)\<rparr>))
      else (None, p))"

text \<open>\<open>doMiner\<close> after the signal: the wait ends when \<open>g_running\<close> is false.\<close>

definition doMiner_stop :: "Program \<Rightarrow> Program option" where
  "doMiner_stop p =
     (if pr_running p then None
      else let p1 = (if as_running (ai_server p) then p\<lparr>ai_server := api_stop (ai_server p)\<rparr> else p);
               manager = aw_manager (ai_world p1)
           in Some ((if pm_running manager
                     then p1\<lparr>ai_world := (ai_world p1)\<lparr>aw_manager := pm_stop manager\<rparr>\<rparr> else p1)
                    \<lparr>pr_out := pr_out p1 @ [''Terminated!'']\<rparr>))"

section \<open>The exit code\<close>

text \<open>\<open>None\<close> when the behaviour is undefined. Messages on \<open>cerr\<close> after an exception are not kept.\<close>

definition exit_code :: "exn \<Rightarrow> nat option" where
  "exit_code e =
     (case e of
        InvalidArgument \<Rightarrow> Some 1
      | RuntimeError _ \<Rightarrow> Some 2
      | PointerThrown \<Rightarrow> Some 4
      | UndefinedBehaviour \<Rightarrow> None
      | _ \<Rightarrow> Some 3)"

datatype outcome = Exited "nat option" "string list" | Mining Program

definition main_program :: "'c pm_env \<Rightarrow> cli_env \<Rightarrow> start_env \<Rightarrow> string list \<Rightarrow> outcome" where
  "main_program pe env se argv =
     (if length argv < 2
      then Exited (Some 1) [''No arguments specified. '', ''Try 'coreminer --help' to get a list of arguments.'']
      else case validateArgs env argv (new_MinerCLI env) of
             Inl e \<Rightarrow> Exited (exit_code e) []
           | Inr (False, m) \<Rightarrow> Exited (Some 0) (mc_out m)
           | Inr (True, m) \<Rightarrow>
               (case execute pe se m of
                  Inl e \<Rightarrow> Exited (exit_code e) []
                | Inr (Inl out) \<Rightarrow> Exited (Some 0) out
                | Inr (Inr p) \<Rightarrow> Mining p))"

end
