(* ===== verification/Settings.thy ===== *)
theory Settings
  imports PoolManager
begin

text \<open>
  The settings of the farm are fixed when it is made: no step of the farm or of the manager changes
  them.
\<close>

section \<open>The farm\<close>

lemma farm_setEpoch_settings [simp]: "fm_settings (farm_setEpoch lib wp f) = fm_settings f"
  by (simp add: farm_setEpoch_def)

lemma farm_setWork_settings: "farm_setWork lib r wp f = (e, f') \<Longrightarrow> fm_settings f' = fm_settings f"
  by (auto simp: farm_setWork_def shuffle_def Let_def withv_def split: if_splits sum.splits prod.splits)

lemma farm_start_settings [simp]: "fm_settings (snd (farm_start vm now f)) = fm_settings f"
proof -
  have "fm_settings (foldl (\<lambda>g kd. start_device vm now (snd kd) g) f ds) = fm_settings f" for ds :: "(string \<times> DeviceDescriptor) list"
    by (induction ds arbitrary: f) (simp_all add: start_device_def)
  then show ?thesis by (simp add: farm_start_def Let_def)
qed

lemma accountSolution_settings: "fm_settings (snd (accountSolution i a now f)) = fm_settings f"
  by (simp add: accountSolution_def Let_def withv_def split: sum.split)

lemma submitProofAsync_settings: "fm_settings (snd (submitProofAsync lib now s f)) = fm_settings f"
  by (simp add: submitProofAsync_def Let_def accountSolution_settings)

lemma run_posted_settings: "fm_settings (snd (run_posted lib now f)) = fm_settings f"
  by (simp add: run_posted_def submitProofAsync_settings split: list.split)

lemma collectData_settings: "fm_settings (snd (collectData rnd ec f)) = fm_settings f"
  by (simp add: collectData_def Let_def case_prod_beta split: option.split)

lemma farm_step_settings: "farm_step lib f f' \<Longrightarrow> fm_settings f' = fm_settings f"
  by (induction rule: farm_step.induct)
     (auto simp: farm_setWork_settings farm_stop_def farm_pause_def farm_resume_def farm_restart_def shuffle_def
       set_nonce_scrambler_def set_nonce_segment_width_def submitProof_def run_posted_settings collectData_settings
       dest: arg_cong [of _ _ "\<lambda>x. fm_settings (snd x)"] simp: accountSolution_settings)

section \<open>The manager\<close>

abbreviation settings_of :: "PoolManager \<Rightarrow> FarmSettings" where
  "settings_of p \<equiv> fm_settings (pm_farm p)"

lemma simple_settings [simp]:
  "settings_of (call c p) = settings_of p" "settings_of (set_connections cs p) = settings_of p" "settings_of (wrap_index p) = settings_of p"
  "settings_of (count_switch p) = settings_of p"
  "fm_settings (farm_stop f) = fm_settings f" "fm_settings (farm_pause f) = fm_settings f"
  "fm_settings (farm_resume f) = fm_settings f" "fm_settings (shuffle r f) = fm_settings f"
  by (simp_all add: call_def set_connections_def wrap_index_def count_switch_def farm_stop_def farm_pause_def
      farm_resume_def shuffle_def)

lemma farm_setWork_settings' [simp]: "fm_settings (snd (farm_setWork lib r wp f)) = fm_settings f"
  using farm_setWork_settings [of lib r wp f] by (cases "farm_setWork lib r wp f") simp

lemma miners_settings [simp]: "settings_of (shut_down_miners p) = settings_of p" "settings_of (spin_up_miners d p) = settings_of p"
  by (simp_all add: shut_down_miners_def spin_up_miners_def)

lemma handler_settings [simp]:
  "settings_of (reset_work p) = settings_of p" "settings_of (shuffle_if_needed d p) = settings_of p" "settings_of (arm_failover p) = settings_of p"
  "settings_of (start_or_resume d p) = settings_of p" "settings_of (arm_submithr p) = settings_of p" "settings_of (take_work lib b wp p) = settings_of p"
  "settings_of (begin_connect p) = settings_of p" "settings_of (discard_or_rotate p) = settings_of p" "settings_of (give_up p) = settings_of p"
  by (simp_all add: reset_work_def shuffle_if_needed_def arm_failover_def start_or_resume_def arm_submithr_def take_work_def
      begin_connect_def discard_or_rotate_def give_up_def Let_def case_prod_beta)

lemma deliver_work_settings [simp]: "settings_of (snd (deliver_work env d b p)) = settings_of p"
  by (simp add: deliver_work_def case_prod_beta split: option.split)

lemma onWorkReceived_settings [simp]: "settings_of (snd (onWorkReceived env d wp p)) = settings_of p"
  by (simp add: onWorkReceived_def with_conn_def Let_def split: option.split)

lemma onConnected_settings [simp]: "settings_of (snd (onConnected d p)) = settings_of p"
  by (simp add: onConnected_def with_conn_def Let_def split: option.split)

lemma account_response_settings [simp]: "settings_of (snd (account_response a d i p)) = settings_of p"
  by (simp add: account_response_def case_prod_beta accountSolution_settings)

lemma connections_settings [simp]:
  "settings_of (snd (addConnection_str bo g u p)) = settings_of p" "settings_of (addConnection c p) = settings_of p"
  "settings_of (snd (removeConnection i p)) = settings_of p" "settings_of (snd (setActiveConnectionCommon i p)) = settings_of p"
  by (simp_all add: addConnection_str_def addConnection_def removeConnection_def setActiveConnectionCommon_def withv_def Let_def
      split: sum.split)

lemma pm_step_settings: "pm_step env p q \<Longrightarrow> settings_of q = settings_of p"
  by (induction rule: pm_step.induct)
     (simp_all add: onDisconnected_def onSolutionAccepted_def onSolutionRejected_def onMinerRestart_def onSolutionFound_def
       pm_start_def pm_stop_def pm_stop_finish_def setActiveConnection_def setActiveConnection_str_def rotateConnect_def
       failovertimer_elapsed_def submithrtimer_elapsed_def reconnecttimer_elapsed_def farm_step_settings Let_def withv_def
       split: option.split sum.split)

end
