(* ===== verification/CliProps.thy ===== *)
theory CliProps
  imports Cli ApiProps Settings
begin

text \<open>
  From the command line to the running program: the devices that mine are those that were selected,
  the program that is started is one for which the guarantees of the manager and of the interface
  hold, and what the options cannot change.
\<close>

section \<open>Devices\<close>

definition cpu_id :: "nat \<Rightarrow> string" where
  "cpu_id i = ''cpu-'' @ decstr i"

lemma cpu_id_inj: "cpu_id i = cpu_id j \<longleftrightarrow> i = j"
  by (simp add: cpu_id_def decstr_inj)

lemma set_map_set: "set (map fst (map_set k v kvs)) = insert k (set (map fst kvs))"
  by (induction k v kvs rule: map_set.induct) auto

lemma length_map_set: "k \<notin> set (map fst kvs) \<Longrightarrow> length (map_set k v kvs) = Suc (length kvs)"
  by (induction k v kvs rule: map_set.induct) auto

lemma values_map_set: "set (map snd (map_set k v kvs)) \<subseteq> insert v (set (map snd kvs))"
  by (induction k v kvs rule: map_set.induct) auto

lemma enum_device_new:
  assumes "cpu_id i \<notin> set (map fst ds)"
  shows "\<exists>d. dd_subscriptionType d = DS_None \<and> enum_device name mem i ds = map_set (cpu_id i) d ds"
proof -
  define d where "d = (new_DeviceDescriptor 0 0)\<lparr>dd_name := name, dd_uniqueId := cpu_id i, dd_type := DT_Cpu,
      dd_totalMemory := mem, dd_cpCpuNumer := int i\<rparr>"
  have "map_of ds (cpu_id i) = None" using assms by (simp add: map_of_eq_None_iff)
  then have "enum_device name mem i ds = map_set (cpu_id i) d ds"
    by (simp add: enum_device_def cpu_id_def d_def Let_def)
  moreover have "dd_subscriptionType d = DS_None" by (simp add: d_def new_DeviceDescriptor_def)
  ultimately show ?thesis by blast
qed

lemma enumDevices_new:
  "length (enumDevices name mem n []) = n \<and> set (map fst (enumDevices name mem n [])) = cpu_id ` {..<n} \<and>
   (\<forall>d \<in> set (map snd (enumDevices name mem n [])). dd_subscriptionType d = DS_None)"
proof (induction n)
  case 0
  then show ?case by (simp add: enumDevices_def)
next
  case (Suc n)
  have step: "enumDevices name mem (Suc n) [] = enum_device name mem n (enumDevices name mem n [])"
    by (simp add: enumDevices_def)
  have new: "cpu_id n \<notin> set (map fst (enumDevices name mem n []))"
    using Suc by (auto simp: cpu_id_inj)
  then obtain d where d: "dd_subscriptionType d = DS_None"
      "enum_device name mem n (enumDevices name mem n []) = map_set (cpu_id n) d (enumDevices name mem n [])"
    using enum_device_new by blast
  show ?case
    using Suc length_map_set [OF new, of d] set_map_set [of "cpu_id n" d "enumDevices name mem n []"]
      values_map_set [of "cpu_id n" d "enumDevices name mem n []"] d
    unfolding step d(2) by (auto simp: lessThan_Suc simp del: set_map)
qed

lemma length_subscribe_at [simp]: "length (subscribe_at i ds) = length ds"
  by (simp add: subscribe_at_def)

lemma subscribe_at_nth:
  "j < length ds \<Longrightarrow> subscribe_at i ds ! j =
     (fst (ds ! j), if j = unat i then subscribe (snd (ds ! j)) else snd (ds ! j))"
  by (auto simp: subscribe_at_def nth_list_update)

lemma fold_subscribe_at:
  "length (fold subscribe_at is ds) = length ds \<and>
   (\<forall>j < length ds. fst (fold subscribe_at is ds ! j) = fst (ds ! j) \<and>
     dd_subscriptionType (snd (fold subscribe_at is ds ! j)) =
       (if j \<in> unat ` set is then DS_Cpu else dd_subscriptionType (snd (ds ! j))))"
proof (induction "is" arbitrary: ds)
  case (Cons i "is")
  show ?case using Cons [of "subscribe_at i ds"] by (auto simp: subscribe_at_nth subscribe_def)
qed simp

text \<open>The positions that a selection of devices denotes.\<close>

definition selected_positions :: "u32 list \<Rightarrow> nat \<Rightarrow> nat set" where
  "selected_positions selected n = (if selected = [] then {..<n} else {j. j < n \<and> j \<in> unat ` set selected})"

lemma subscribe_devices_nth:
  assumes "\<forall>d \<in> set (map snd ds). dd_subscriptionType d = DS_None"
  shows "length (subscribe_devices selected ds) = length ds"
    and "j < length ds \<Longrightarrow> fst (subscribe_devices selected ds ! j) = fst (ds ! j)"
    and "j < length ds \<Longrightarrow> dd_subscriptionType (snd (subscribe_devices selected ds ! j)) \<noteq> DS_None \<longleftrightarrow>
           j \<in> selected_positions selected (length ds)"
proof -
  have none: "dd_subscriptionType (snd (ds ! j)) = DS_None" if "j < length ds" for j
    using assms nth_mem [OF that] by auto
  show "length (subscribe_devices selected ds) = length ds"
    using fold_subscribe_at [of selected ds] by (simp add: subscribe_devices_def)
  show "j < length ds \<Longrightarrow> fst (subscribe_devices selected ds ! j) = fst (ds ! j)"
    using fold_subscribe_at [of selected ds] by (simp add: subscribe_devices_def case_prod_beta)
  show "j < length ds \<Longrightarrow> dd_subscriptionType (snd (subscribe_devices selected ds ! j)) \<noteq> DS_None \<longleftrightarrow>
           j \<in> selected_positions selected (length ds)"
    using fold_subscribe_at [of selected ds] none [of j]
    by (auto simp: subscribe_devices_def selected_positions_def subscribe_def case_prod_beta)
qed

lemma subscribed_length:
  assumes "\<forall>d \<in> set (map snd ds). dd_subscriptionType d = DS_None"
  shows "length (subscribed (subscribe_devices selected ds)) = card (selected_positions selected (length ds))"
proof -
  have "{j. j < length ds \<and> dd_subscriptionType (snd (subscribe_devices selected ds ! j)) \<noteq> DS_None} =
      selected_positions selected (length ds)"
    (is "?L = ?R")
  proof (rule set_eqI)
    fix j
    show "j \<in> ?L \<longleftrightarrow> j \<in> ?R"
      using subscribe_devices_nth(3) [OF assms, of j selected]
      by (cases "j < length ds") (simp_all add: selected_positions_def)
  qed
  then show ?thesis
    using subscribe_devices_nth(1) [OF assms, of selected]
    by (simp add: subscribed_def length_filter_conv_card case_prod_beta)
qed

lemma start_devices_miners:
  "map mi_deviceDescriptor (fm_miners (foldl (\<lambda>g kd. start_device vm now (snd kd) g) f ds)) =
     map mi_deviceDescriptor (fm_miners f) @ map snd (subscribed ds)"
proof (induction ds arbitrary: f)
  case (Cons kd ds)
  have "dd_subscriptionType (snd kd) = DS_Cpu \<longleftrightarrow> dd_subscriptionType (snd kd) \<noteq> DS_None"
    by (cases "dd_subscriptionType (snd kd)") simp_all
  then show ?case using Cons
    by (simp add: start_device_def subscribed_def case_prod_beta new_CPUMiner_def miner_startWorking_def)
qed (simp add: subscribed_def)

lemma farm_start_miners:
  "map mi_deviceDescriptor (fm_miners (snd (farm_start vm now (new_Farm st ds r t)))) = map snd (subscribed ds)"
  using start_devices_miners [of vm now "new_Farm st ds r t" ds]
  by (simp add: farm_start_def new_Farm_def shuffle_def Let_def)

section \<open>Accepted command lines\<close>

text \<open>The pools of the settings are the objects that were made for them, in order.\<close>

definition pools_ok :: "MinerCLI \<Rightarrow> bool" where
  "pools_ok m \<longleftrightarrow> ps_connections (mc_PoolSettings m) = [0..<length (mc_uris m)]"

lemma add_uri_frame:
  "pools_ok m \<Longrightarrow> pools_ok (add_uri u m)" "mc_FarmSettings (add_uri u m) = mc_FarmSettings m"
  "mc_DevicesCollection (add_uri u m) = mc_DevicesCollection m" "mc_CPSettings (add_uri u m) = mc_CPSettings m"
  "mc_miningThreads (add_uri u m) = mc_miningThreads m" "length (mc_uris (add_uri u m)) = Suc (length (mc_uris m))"
  "mc_shouldListDevices (add_uri u m) = mc_shouldListDevices m"
  by (simp_all add: pools_ok_def add_uri_def)

lemma add_pools_frame:
  assumes "add_pools env i ps m = Inr m'" and "pools_ok m"
  shows "pools_ok m' \<and> length (mc_uris m') = length (mc_uris m) + length ps \<and> mc_FarmSettings m' = mc_FarmSettings m \<and>
    mc_DevicesCollection m' = mc_DevicesCollection m \<and> mc_CPSettings m' = mc_CPSettings m \<and>
    mc_miningThreads m' = mc_miningThreads m \<and> mc_shouldListDevices m' = mc_shouldListDevices m"
  using assms
proof (induction ps arbitrary: i m)
  case (Cons p ps)
  then obtain u where run: "add_pools env (Suc i) ps ((add_uri u m)\<lparr>mc_out := mc_out m @ uri_warnings env u\<rparr>) = Inr m'"
    by (auto simp: Let_def split: sum.splits if_splits)
  have "pools_ok ((add_uri u m)\<lparr>mc_out := mc_out m @ uri_warnings env u\<rparr>)"
    using Cons.prems(2) add_uri_frame(1) [of m u] by (simp add: pools_ok_def)
  from Cons.IH [OF run this] show ?case by (simp add: add_uri_frame)
qed simp

lemma store_args_frame:
  assumes "store_args env a m = Inr m'"
  shows "mc_uris m' = mc_uris m \<and> ps_connections (mc_PoolSettings m') = ps_connections (mc_PoolSettings m) \<and>
    mc_DevicesCollection m' = mc_DevicesCollection m \<and>
    mc_FarmSettings m' = store_farm_settings a (mc_FarmSettings m) \<and>
    mc_miningThreads m' = given (ar_threads a) (mc_miningThreads m) \<and>
    cp_devices (mc_CPSettings m') = (if ar_cp_devices a = [] then cp_devices (mc_CPSettings m) else ar_cp_devices a) \<and>
    mc_shouldListDevices m' = (ar_list_devices a \<or> mc_shouldListDevices m)"
  using assms by (auto simp: store_args_def store_api_def store_pool_settings_def split: option.splits sum.splits if_splits
      dest!: ebind_InrD)

lemma validateArgs_ok:
  assumes "validateArgs env argv (new_MinerCLI env) = Inr (True, m)"
  obtains a where "ce_parse env argv = Inr a" and "checked_args (ce_cpus env) a = Inr a"
    and "pools_ok m" and "length (mc_uris m) \<le> Suc (length (ar_pools a))"
    and "mc_shouldListDevices m = ar_list_devices a" and "ar_list_devices a \<or> mc_uris m \<noteq> []"
    and "mc_FarmSettings m = store_farm_settings a (mc_FarmSettings (new_MinerCLI env))"
    and "mc_DevicesCollection m = []" and "mc_miningThreads m = given (ar_threads a) (ce_cpus env)"
    and "cp_devices (mc_CPSettings m) = ar_cp_devices a"
proof -
  have same: "checked_args (ce_cpus env) b = Inr c \<Longrightarrow> c = b" for b c
    by (auto simp: checked_args_def split: option.splits)
  obtain a b m1 where ab: "ce_parse env argv = Inr a" "checked_args (ce_cpus env) a = Inr b"
      "store_args env b (new_MinerCLI env) = Inr m1"
    using assms by (auto simp: validateArgs_def dest!: ebind_InrD)
  then have a: "ce_parse env argv = Inr a" "checked_args (ce_cpus env) a = Inr a"
      and m1: "store_args env a (new_MinerCLI env) = Inr m1"
    using same [OF ab(2)] by simp_all
  note frame = store_args_frame [OF m1, simplified new_MinerCLI_def MinerCLI.simps default_PoolSettings_def
      PoolSettings.simps CPSettings.simps]
  define m2 where "m2 = m1\<lparr>mc_out := mc_out m1 @ verbosity_warnings (mc_logOptions m1)\<rparr>"
  have m2: "pools_ok m2" "mc_uris m2 = []" using frame by (simp_all add: m2_def pools_ok_def)
  have run: "(if ar_simulation a \<noteq> None
      then ebind (new_URI (ce_boost env) (ce_garbage env 0) ''simulation://localhost:0'' True) (\<lambda>u.
             Inr (True, (add_uri u m2)\<lparr>mc_mode := ModeSimulation\<rparr>))
      else if mc_shouldListDevices m1 then Inr (True, m2\<lparr>mc_mode := ModeMining\<rparr>)
      else if ar_pools a = [] then Inl InvalidArgument
      else ebind (add_pools env 0 (ar_pools a) (m2\<lparr>mc_mode := ModeMining\<rparr>)) (\<lambda>m4. Inr (True, m4))) = Inr (True, m)"
    using assms a m1 by (simp add: validateArgs_def m2_def Let_def split: if_splits)
  have "pools_ok m \<and> length (mc_uris m) \<le> Suc (length (ar_pools a)) \<and> (mc_shouldListDevices m1 \<or> mc_uris m \<noteq> []) \<and>
      mc_shouldListDevices m = mc_shouldListDevices m1 \<and> mc_FarmSettings m = mc_FarmSettings m1 \<and>
      mc_DevicesCollection m = mc_DevicesCollection m1 \<and> mc_miningThreads m = mc_miningThreads m1 \<and>
      cp_devices (mc_CPSettings m) = cp_devices (mc_CPSettings m1)"
  proof -
    consider (sim) u where "m = (add_uri u m2)\<lparr>mc_mode := ModeSimulation\<rparr>"
      | (list) "mc_shouldListDevices m1" "m = m2\<lparr>mc_mode := ModeMining\<rparr>"
      | (pools) "ar_pools a \<noteq> []" "add_pools env 0 (ar_pools a) (m2\<lparr>mc_mode := ModeMining\<rparr>) = Inr m"
      using run by (auto split: if_splits dest!: ebind_InrD)
    then show ?thesis
    proof cases
      case sim
      have "pools_ok m" using add_uri_frame(1) [OF m2(1), of u] sim by (simp add: pools_ok_def)
      then show ?thesis using sim m2 by (auto simp: m2_def add_uri_def)
    next
      case list
      then show ?thesis using m2 by (simp add: m2_def pools_ok_def)
    next
      case pools
      have "pools_ok (m2\<lparr>mc_mode := ModeMining\<rparr>)" using m2(1) by (simp add: pools_ok_def)
      from add_pools_frame [OF pools(2) this] show ?thesis using pools(1) m2(2) by (auto simp: m2_def)
    qed
  qed
  then show thesis using that [OF a] frame by (auto simp: new_MinerCLI_def)
qed

section \<open>The program that is started\<close>

definition api_of :: "Program \<Rightarrow> Api" where
  "api_of p = \<lparr>ai_server = ai_server p, ai_world = ai_world p\<rparr>"

lemma main_program_Mining:
  assumes "main_program pe env se argv = Mining p"
  obtains a m ds where "ce_parse env argv = Inr a" and "checked_args (ce_cpus env) a = Inr a"
    and "pools_ok m" and "length (mc_uris m) \<le> Suc (length (ar_pools a))" and "mc_uris m \<noteq> []"
    and "mc_FarmSettings m = store_farm_settings a (mc_FarmSettings (new_MinerCLI env))"
    and "ds = subscribe_devices (ar_cp_devices a)
          (enumDevices (se_name se) (se_mem se) (unat (given (ar_threads a) (ce_cpus env))) [])"
    and "subscribed ds \<noteq> []"
    and "doMiner_start se m (new_Farm (mc_FarmSettings m) ds (se_random se) (se_now se)) = (None, p)"
proof -
  obtain m where m: "validateArgs env argv (new_MinerCLI env) = Inr (True, m)" "execute pe se m = Inr (Inr p)"
    using assms by (auto simp: main_program_def split: if_splits sum.splits bool.splits prod.splits)
  have list: "\<not> mc_shouldListDevices m"
    using m(2) by (auto simp: execute_def Let_def split: if_splits dest!: ebind_InrD)
  show thesis
    using that validateArgs_ok [OF m(1)] m(2) list
    by (auto simp: execute_def Let_def split: if_splits option.splits prod.splits) metis
qed

lemma mining_parts:
  assumes "main_program pe env se argv = Mining p" and "ce_parse env argv = Inr a"
  obtains m ds where "pools_ok m" and "length (mc_uris m) \<le> Suc (length (ar_pools a))" and "mc_uris m \<noteq> []"
    and "mc_FarmSettings m = store_farm_settings a (mc_FarmSettings (new_MinerCLI env))"
    and "ds = subscribe_devices (ar_cp_devices a)
          (enumDevices (se_name se) (se_mem se) (unat (given (ar_threads a) (ce_cpus env))) [])"
    and "subscribed ds \<noteq> []"
    and "doMiner_start se m (new_Farm (mc_FarmSettings m) ds (se_random se) (se_now se)) = (None, p)"
proof (rule main_program_Mining [OF assms(1)])
  fix b m ds
  assume "ce_parse env argv = Inr b"
  then have "b = a" using assms(2) by simp
  assume "pools_ok m" "length (mc_uris m) \<le> Suc (length (ar_pools b))" "mc_uris m \<noteq> []"
    "mc_FarmSettings m = store_farm_settings b (mc_FarmSettings (new_MinerCLI env))"
    "ds = subscribe_devices (ar_cp_devices b)
          (enumDevices (se_name se) (se_mem se) (unat (given (ar_threads b) (ce_cpus env))) [])"
    "subscribed ds \<noteq> []"
    "doMiner_start se m (new_Farm (mc_FarmSettings m) ds (se_random se) (se_now se)) = (None, p)"
  then show thesis unfolding \<open>b = a\<close> by (rule that)
qed

lemma doMiner_start_reach:
  assumes "doMiner_start se m (new_Farm st ds r now) = (None, p)" and "pools_ok m" and "length (mc_uris m) < 2 ^ 32"
  shows "reach api_init (api_step env) (api_of p)"
    and "aw_manager (ai_world p) = pm_start (new_PoolManager (mc_PoolSettings m) (mc_uris m) (new_Farm st ds r now))"
    and "pr_running p" and "pr_displayTimer p = Some (mc_cliDisplayInterval m)"
proof -
  define a0 where "a0 = \<lparr>ai_server = new_ApiServer (mc_api_address m) (mc_api_port m) (mc_api_password m),
    ai_world = \<lparr>aw_manager = new_PoolManager (mc_PoolSettings m) (mc_uris m) (new_Farm st ds r now),
      aw_restarts = 0, aw_reboots = 0, aw_logOptions = mc_logOptions m\<rparr>\<rparr>"
  define a1 where "a1 = (if mc_api_port m \<noteq> 0
    then a0\<lparr>ai_server := snd (api_start (se_address se) (se_listening se) (se_endpoint se) (ai_server a0))\<rparr> else a0)"
  have "pm_init (aw_manager (ai_world a0))"
  proof -
    have "list_all (\<lambda>c. c < length (mc_uris m)) (ps_connections (mc_PoolSettings m))"
      "length (ps_connections (mc_PoolSettings m)) < 2 ^ 32"
      using assms(2,3) by (simp_all add: pools_ok_def list_all_iff)
    then show ?thesis unfolding pm_init_def a0_def Api.select_convs ApiWorld.select_convs by blast
  qed
  then have "reach api_init (api_step env) a0" by (intro reach_init) (auto simp: api_init_def a0_def)
  then have "reach api_init (api_step env) a1"
    unfolding a1_def by (auto intro: reach_step ap_start)
  moreover have "pm_step (ae_pm env) (aw_manager (ai_world a1)) (pm_start (aw_manager (ai_world a1)))"
    by (rule ps_start)
  ultimately have "reach api_init (api_step env)
      (a1\<lparr>ai_world := (ai_world a1)\<lparr>aw_manager := pm_start (aw_manager (ai_world a1))\<rparr>\<rparr>)"
    by (auto intro: reach_step ap_manager)
  moreover have "api_of p = a1\<lparr>ai_world := (ai_world a1)\<lparr>aw_manager := pm_start (aw_manager (ai_world a1))\<rparr>\<rparr>"
    using assms(1) by (auto simp: doMiner_start_def api_of_def a1_def a0_def Let_def split: if_splits prod.splits)
  ultimately show "reach api_init (api_step env) (api_of p)" by simp
  show "aw_manager (ai_world p) = pm_start (new_PoolManager (mc_PoolSettings m) (mc_uris m) (new_Farm st ds r now))"
    "pr_running p" "pr_displayTimer p = Some (mc_cliDisplayInterval m)"
    using assms(1) by (auto simp: doMiner_start_def Let_def split: if_splits prod.splits)
qed

lemma api_run_settings:
  assumes "(api_step env)\<^sup>*\<^sup>* a b" and "api_inv env a"
  shows "settings_of (aw_manager (ai_world b)) = settings_of (aw_manager (ai_world a)) \<and> api_inv env b"
  using assms
proof (induction rule: rtranclp_induct)
  case (step b c)
  then have ok: "server_ok (ai_server b)" by (simp add: api_inv_def)
  have "(pm_step (ae_pm env))\<^sup>*\<^sup>* p q \<Longrightarrow> settings_of q = settings_of p" for p q
    by (induction rule: rtranclp_induct) (auto simp: pm_step_settings)
  then show ?case using step api_step_manager [OF ok step.hyps(2)] api_step_inv [of env b c] by simp
qed simp

section \<open>The address of the API\<close>

text \<open>A captured run of a class, followed by what cannot match inside of the run.\<close>

lemma seq_captured_run:
  assumes "list_all P a" and "\<And>j. 0 < j \<Longrightarrow> j \<le> length x \<Longrightarrow> matches r (i + length a + j, drop j x) = []"
    and "matches r (i + length a, x) = (d, st) # ms"
  shows "\<exists>rest. matches (Seq (Grp k (Star (Cls P))) r) (i, a @ x) = ((k, a) # d, st) # rest"
proof -
  let ?n = "length a" and ?m = "length (takeWhile P (a @ x))"
  have m: "?n \<le> ?m" "?m \<le> length (a @ x)"
    using assms(1) by (simp_all add: takeWhile_append list_all_iff length_takeWhile_le)
  define g where "g = (\<lambda>j. map (\<lambda>(d, st). ((k, take j (a @ x)) # d, st)) (matches r (i + j, drop j (a @ x))))"
  have all: "matches (Seq (Grp k (Star (Cls P))) r) (i, a @ x) = concat (map g (rev [0..<Suc ?m]))"
    by (simp add: matches_seq star_cls comp_def case_prod_beta g_def del: upt_Suc)
  have "[0..<Suc ?m] = [0..<?n] @ ?n # [Suc ?n..<Suc ?m]"
    using upt_add_eq_append [of 0 ?n "Suc ?m - ?n"] upt_conv_Cons [of ?n "Suc ?m"] m by simp
  then have "rev [0..<Suc ?m] = rev [Suc ?n..<Suc ?m] @ ?n # rev [0..<?n]" by simp
  then have parts: "concat (map g (rev [0..<Suc ?m])) =
      concat (map g (rev [Suc ?n..<Suc ?m])) @ g ?n @ concat (map g (rev [0..<?n]))"
    by (simp del: upt_Suc)
  have none: "concat (map g (rev [Suc ?n..<Suc ?m])) = []"
  proof (rule concat_map_Nil)
    fix j assume "j \<in> set (rev [Suc ?n..<Suc ?m])"
    then have "?n < j" "j \<le> length (a @ x)" using m by auto
    then show "g j = []" using assms(2) [of "j - ?n"] by (simp add: g_def)
  qed
  have "g ?n = ((k, a) # d, st) # map (\<lambda>(d, st). ((k, a) # d, st)) ms"
    using assms(3) by (simp add: g_def)
  then show ?thesis unfolding all parts none by simp
qed

lemma bind_split:
  assumes "list_all is_bind_char a" and "list_all is_port_char b"
  shows "regex_search bind_pattern (a @ CHR '':'' # b) = Some [(1, a), (2, b)]"
proof -
  let ?r = "Seq (chr (CHR '':'')) (Seq (Grp 2 (Star (Cls is_port_char))) Eol)"
  have colon: "CHR '':'' \<notin> set b" using assms(2) by (auto simp: list_all_iff is_port_char_def is_decdigit_def)
  have none: "matches ?r (0 + length a + j, drop j (CHR '':'' # b)) = []" if "0 < j" "j \<le> length (CHR '':'' # b)" for j
    using that split_none [OF colon, of "j - 1"] by (cases j) simp_all
  have "matches ?r (0 + length a, CHR '':'' # b) = [([(2, b)], Suc (length a) + length b, [])]"
    using seq_captured_end [OF assms(2), of 2 "Suc (length a)"] by (simp add: seq_chr)
  from seq_captured_run [OF assms(1) none this, where k = 1] show ?thesis
    by (fastforce simp: bind_pattern_def search_bol)
qed

lemma bind_no_colon:
  assumes "CHR '':'' \<notin> set s"
  shows "regex_search bind_pattern s = None"
proof -
  have "matches (Seq (Grp 1 (Star (Cls is_bind_char))) (Seq (chr (CHR '':'')) r)) (0, s) = []" for r
    unfolding matches_seq [of "Grp 1 (Star (Cls is_bind_char))"]
  proof (rule concat_map_Nil, clarsimp simp: star_cls simp del: upt_Suc)
    fix j assume "j < Suc (length (takeWhile is_bind_char s))"
    then have "j \<le> length s" using length_takeWhile_le [of is_bind_char s] by simp
    then show "matches (Seq (chr CHR '':'') r) (j, drop j s) = []" by (rule split_none [OF assms])
  qed
  then show ?thesis by (simp add: bind_pattern_def search_bol)
qed

lemma stoi10_intstr:
  assumes "\<bar>p\<bar> < 2 ^ 31"
  shows "stoi10 (intstr p) = Inr p"
proof -
  have digits: "takeWhile is_decdigit (decstr n) = decstr n" for n
    using decstr_chars(1) [of n] by (simp add: takeWhile_eq_all_conv list_all_iff)
  obtain x xs where x: "decstr (nat \<bar>p\<bar>) = x # xs" "is_decdigit x"
    using decstr_not_Nil [of "nat \<bar>p\<bar>"] decstr_chars(1) [of "nat \<bar>p\<bar>"] by (cases "decstr (nat \<bar>p\<bar>)") auto
  have x': "\<not> is_space x" "x \<noteq> CHR ''-''" "x \<noteq> CHR ''+''"
    using x(2) by (auto simp: is_space_def is_decdigit_def Let_def)
  have v: "decnum (x # xs) = nat \<bar>p\<bar>" "takeWhile is_decdigit (x # xs) = x # xs"
    using decnum_decstr [of "nat \<bar>p\<bar>"] digits [of "nat \<bar>p\<bar>"] by (simp_all add: x(1))
  show ?thesis
  proof (cases "p < 0")
    case True
    then have "intstr p = CHR ''-'' # x # xs" using x(1) by (simp add: intstr_def)
    then show ?thesis using v True assms by (simp add: stoi10_def is_space_def Let_def)
  next
    case False
    then have "intstr p = x # xs" using x(1) by (simp add: intstr_def)
    then show ?thesis using v False assms x' by (simp add: stoi10_def Let_def)
  qed
qed

lemma port_number: "unat (of_int q :: u16) = nat q" if "0 \<le> q" "q \<le> 65535"
proof -
  have "unat (of_int (int (nat q)) :: u16) = nat q mod 2 ^ 16"
    unfolding of_int_of_nat_eq unat_of_nat by simp
  then show ?thesis using that by simp
qed

lemma intstr_port: "list_all is_port_char (intstr p)"
  using decstr_chars(1) by (auto simp: intstr_def is_port_char_def list_all_iff)

section \<open>A command line\<close>

definition sample_args :: CliArgs where
  "sample_args =
     \<lparr>ar_help = False, ar_help_ext = [], ar_version = False, ar_ergodicity = None, ar_verbosity = None,
      ar_farm_recheck = None, ar_farm_retries = None, ar_retry_delay = None, ar_work_timeout = None,
      ar_response_timeout = None, ar_report_hashrate = False, ar_display_interval = None, ar_exit = False,
      ar_pools = [''http://a''], ar_failover_timeout = None, ar_nocolor = False, ar_syslog = False,
      ar_api_bind = None, ar_api_port = None, ar_api_password = None, ar_threads = None,
      ar_list_devices = False, ar_cp_devices = [1, 7], ar_noeval = None, ar_dag_load_mode = None,
      ar_simulation = None, ar_large_pages = False, ar_hard_aes = False, ar_jit_secure = False\<rparr>"

definition sample_cli :: cli_env where
  "sample_cli =
     \<lparr>ce_parse = (\<lambda>_. Inr sample_args), ce_cpus = 2, ce_boost = sample_boost, ce_address = Some,
      ce_flag_jit_full_mem = 12, ce_flag_large_pages = 1, ce_flag_hard_aes = 2, ce_flag_secure = 16,
      ce_what = (\<lambda>_. []), ce_garbage = (\<lambda>_. 0), ce_ssl_noverify = False, ce_hashRateId = []\<rparr>"

definition sample_start :: start_env where
  "sample_start =
     \<lparr>se_name = ''cpu'', se_mem = 0, se_random = 0, se_now = 0, se_address = Inr (), se_listening = True,
      se_endpoint = Inr 0\<rparr>"

definition sample_solution :: Solution where
  "sample_solution = \<lparr>sol_nonce = 9, sol_mixHash = h256_zero, sol_work = sample_work, sol_tstamp = 0, sol_midx = 0\<rparr>"

lemma sample_fields:
  "ce_parse sample_cli argv = Inr sample_args" "ce_cpus sample_cli = 2" "Suc (length (ar_pools sample_args)) < 2 ^ 32"
  "ar_cp_devices sample_args = [1, 7]" "ar_threads sample_args = None" "ar_noeval sample_args \<noteq> Some False"
  by (simp_all add: sample_cli_def sample_args_def)

lemma sample_devices:
  "subscribed (subscribe_devices [1, 7] (enumDevices ''cpu'' 0 2 [])) \<noteq> []" "enumDevices ''cpu'' 0 2 [] \<noteq> []"
  by code_simp+

lemma sample_mining: "\<exists>p. main_program pe sample_cli sample_start [''coreminer'', ''-P'', ''http://a''] = Mining p"
proof -
  have "case new_URI sample_boost 0 ''http://a'' False of Inr u \<Rightarrow> True | Inl e \<Rightarrow> False" by code_simp
  then obtain u where u: "new_URI sample_boost 0 ''http://a'' False = Inr u"
    by (auto split: sum.splits)
  have "checked_args 2 sample_args = Inr sample_args"
    by (simp add: checked_args_def option_checks_def in_range_def sample_args_def)
  moreover have "\<exists>m1. store_args sample_cli sample_args (new_MinerCLI sample_cli) = Inr m1 \<and> mc_api_port m1 = 0 \<and>
      mc_miningThreads m1 = 2 \<and> mc_DevicesCollection m1 = [] \<and> \<not> mc_shouldListDevices m1 \<and>
      cp_devices (mc_CPSettings m1) = [1, 7]"
    by (simp add: store_args_def store_api_def new_MinerCLI_def sample_args_def sample_cli_def given_def)
  ultimately show ?thesis
    using u sample_devices
    by (auto simp: main_program_def validateArgs_def execute_def doMiner_start_def sample_start_def sample_args_def
        sample_cli_def add_uri_def Let_def)
qed

section \<open>Properties\<close>

text \<open>
  C15: A command line with which the program begins to mine leads to a state that the interface and
  the manager reach from their initial states, so that everything shown of them holds for the
  program: the invariants hold, the manager runs, has an active pool and is about to connect.
\<close>

theorem program_starts:
  assumes "main_program pe env se argv = Mining p" and "ce_parse env argv = Inr a"
    and "Suc (length (ar_pools a)) < 2 ^ 32"
  shows "reach api_init (api_step aenv) (api_of p) \<and> pm_inv (aw_manager (ai_world p)) \<and> pr_running p \<and>
    pm_running (aw_manager (ai_world p)) \<and> getActiveConnection (aw_manager (ai_world p)) = Some 0 \<and>
    last (pm_calls (aw_manager (ai_world p))) = Post_rotateConnect"
proof -
  obtain m ds where m: "pools_ok m" "length (mc_uris m) \<le> Suc (length (ar_pools a))" "mc_uris m \<noteq> []"
    "doMiner_start se m (new_Farm (mc_FarmSettings m) ds (se_random se) (se_now se)) = (None, p)"
    by (rule mining_parts [OF assms(1,2)])
  have len: "length (mc_uris m) < 2 ^ 32" using m(2) assms(3) by linarith
  note run = doMiner_start_reach [OF m(4,1) len]
  have "pm_inv (aw_manager (ai_world p))"
    using api.reach_inv [OF run(1) [of aenv]] manager.reach_inv [of "ae_pm aenv"] by (simp add: api_inv_def api_of_def)
  moreover have "ps_connections (mc_PoolSettings m) = 0 # [1..<length (mc_uris m)]"
    using m(1,3) by (simp add: pools_ok_def upt_conv_Cons)
  ultimately show ?thesis
    using run by (simp add: pm_start_def call_def new_PoolManager_def getActiveConnection_def vec_at_def)
qed

theorem program_starts_witness:
  "\<exists>p. main_program sample_env sample_cli sample_start [''coreminer'', ''-P'', ''http://a''] = Mining p \<and>
    pm_inv (aw_manager (ai_world p)) \<and> getActiveConnection (aw_manager (ai_world p)) = Some 0 \<and>
    last (pm_calls (aw_manager (ai_world p))) = Post_rotateConnect"
proof -
  obtain p where p: "main_program sample_env sample_cli sample_start [''coreminer'', ''-P'', ''http://a''] = Mining p"
    using sample_mining by blast
  show ?thesis
    using program_starts [OF p sample_fields(1,3)] p by blast
qed

text \<open>
  C16: When the farm is started, it has one miner for each selected device: for every device without a
  selection, otherwise for those of the given positions that exist, and there is at least one.
\<close>

theorem selected_devices_mine:
  assumes "main_program pe env se argv = Mining p" and "ce_parse env argv = Inr a"
    and "Suc (length (ar_pools a)) < 2 ^ 32"
  shows "let n = unat (given (ar_threads a) (ce_cpus env)); f = snd (farm_start vm now (pm_farm (aw_manager (ai_world p)))) in
    length (fm_miners f) = card (selected_positions (ar_cp_devices a) n) \<and> fm_miners f \<noteq> [] \<and> fm_isMining f"
proof -
  define ds0 where "ds0 = enumDevices (se_name se) (se_mem se) (unat (given (ar_threads a) (ce_cpus env))) []"
  obtain m where m: "pools_ok m" "length (mc_uris m) \<le> Suc (length (ar_pools a))"
    "subscribed (subscribe_devices (ar_cp_devices a) ds0) \<noteq> []"
    "doMiner_start se m (new_Farm (mc_FarmSettings m) (subscribe_devices (ar_cp_devices a) ds0) (se_random se) (se_now se)) =
      (None, p)"
    unfolding ds0_def by (rule mining_parts [OF assms(1,2)]) simp
  have len: "length (mc_uris m) < 2 ^ 32" using m(2) assms(3) by linarith
  have farm: "pm_farm (aw_manager (ai_world p)) =
      new_Farm (mc_FarmSettings m) (subscribe_devices (ar_cp_devices a) ds0) (se_random se) (se_now se)"
    using doMiner_start_reach(2) [OF m(4,1) len] by (simp add: pm_start_def call_def new_PoolManager_def)
  have "length (fm_miners (snd (farm_start vm now (pm_farm (aw_manager (ai_world p)))))) =
      length (subscribed (subscribe_devices (ar_cp_devices a) ds0))"
    using arg_cong [OF farm_start_miners, of length] by (simp add: farm)
  moreover have "fm_isMining (snd (farm_start vm now (pm_farm (aw_manager (ai_world p)))))"
    by (simp add: farm farm_start_def Let_def)
  moreover have "length (subscribed (subscribe_devices (ar_cp_devices a) ds0)) =
      card (selected_positions (ar_cp_devices a) (unat (given (ar_threads a) (ce_cpus env))))"
    using subscribed_length [of ds0 "ar_cp_devices a"]
      enumDevices_new [of "se_name se" "se_mem se" "unat (given (ar_threads a) (ce_cpus env))"] by (simp add: ds0_def)
  ultimately show ?thesis using m(3) by (auto simp: Let_def)
qed

theorem selected_devices_mine_witness:
  "\<exists>p. main_program sample_env sample_cli sample_start [''coreminer'', ''-P'', ''http://a''] = Mining p \<and>
    length (fm_miners (snd (farm_start True 0 (pm_farm (aw_manager (ai_world p)))))) = 1"
proof -
  obtain p where p: "main_program sample_env sample_cli sample_start [''coreminer'', ''-P'', ''http://a''] = Mining p"
    using sample_mining by blast
  have "selected_positions [1, 7] 2 = {1}" by (auto simp: selected_positions_def)
  then show ?thesis
    using selected_devices_mine [OF p sample_fields(1,3), of True 0] p
    by (simp add: sample_fields given_def Let_def)
qed

text \<open>
  C27: Unless \<open>--noeval\<close> is given the value false, the program never evaluates a solution again, also
  when the flag is absent: in every state that the started program reaches, the farm hands each
  solution to the pool as it is, whatever its value.
\<close>

theorem never_reevaluated:
  assumes "main_program pe env se argv = Mining p" and "ce_parse env argv = Inr a"
    and "Suc (length (ar_pools a)) < 2 ^ 32" and "ar_noeval a \<noteq> Some False" and "(api_step aenv)\<^sup>*\<^sup>* (api_of p) b"
  shows "let f = pm_farm (aw_manager (ai_world b)) in
    submitProofAsync lib now s f = (None, f\<lparr>fm_found := fm_found f @ [s]\<rparr>)"
proof -
  obtain m ds where m: "pools_ok m" "length (mc_uris m) \<le> Suc (length (ar_pools a))"
    "mc_FarmSettings m = store_farm_settings a (mc_FarmSettings (new_MinerCLI env))"
    "doMiner_start se m (new_Farm (mc_FarmSettings m) ds (se_random se) (se_now se)) = (None, p)"
    by (rule mining_parts [OF assms(1,2)])
  have len: "length (mc_uris m) < 2 ^ 32" using m(2) assms(3) by linarith
  note run = doMiner_start_reach [OF m(4,1) len]
  have "settings_of (aw_manager (ai_world (api_of p))) = mc_FarmSettings m"
    using run(2) by (simp add: api_of_def pm_start_def call_def new_PoolManager_def new_Farm_def shuffle_def)
  moreover have "fs_noEval (mc_FarmSettings m)"
    using assms(4) by (cases "ar_noeval a") (simp_all add: m(3) store_farm_settings_def new_MinerCLI_def given_def)
  ultimately have "fs_noEval (settings_of (aw_manager (ai_world b)))"
    using api_run_settings [OF assms(5) api.reach_inv [OF run(1)]] by simp
  then show ?thesis by (simp add: submitProofAsync_def Let_def)
qed

theorem never_reevaluated_witness:
  "\<exists>p. main_program sample_env sample_cli sample_start [''coreminer'', ''-P'', ''http://a''] = Mining p \<and>
    (let f = pm_farm (aw_manager (ai_world p)) in
      submitProofAsync sample_lib 0 sample_solution f = (None, f\<lparr>fm_found := fm_found f @ [sample_solution]\<rparr>))"
proof -
  obtain p where p: "main_program sample_env sample_cli sample_start [''coreminer'', ''-P'', ''http://a''] = Mining p"
    using sample_mining by blast
  show ?thesis
    using never_reevaluated [OF p sample_fields(1,3,6) rtranclp.rtrancl_refl] p by (auto simp: api_of_def)
qed

text \<open>
  C37: \<open>--api-bind\<close> with an address that is valid, a colon and a port of either sign is read back as
  that address and port; the server made from them listens on the absolute value of the port and is
  read-only when it is negative. A text without a colon is refused.
\<close>

theorem api_bind:
  assumes "list_all is_bind_char t" and "addr t = Some out" and "p \<noteq> 0" and "\<bar>p\<bar> \<le> 65535" and "CHR '':'' \<notin> set u"
  shows "ParseBind addr (t @ '':'' @ intstr p) True = Inr (out, p) \<and>
    unat (as_portnumber (new_ApiServer out p pw)) = nat \<bar>p\<bar> \<and> as_readonly (new_ApiServer out p pw) = (p < 0) \<and>
    ParseBind addr u b = Inl InvalidArgument"
proof -
  have "stoi10 (intstr p) = Inr p" using assms(4) by (intro stoi10_intstr) simp
  then have "ParseBind addr (t @ '':'' @ intstr p) True = Inr (out, p)"
    using bind_split [OF assms(1) intstr_port [of p]] assms(2,3,4) by (auto simp: ParseBind_def group_def)
  moreover have "unat (as_portnumber (new_ApiServer out p pw)) = nat \<bar>p\<bar>"
    using port_number [of "\<bar>p\<bar>"] assms(4) by (cases "p < 0") (simp_all add: new_ApiServer_def)
  ultimately show ?thesis
    using bind_no_colon [OF assms(5)] by (simp add: ParseBind_def new_ApiServer_def)
qed

theorem api_bind_witness:
  "ParseBind Some ''0.0.0.0:-3333'' True = Inr (''0.0.0.0'', - 3333) \<and>
    as_readonly (new_ApiServer ''0.0.0.0'' (- 3333) []) \<and> ParseBind Some ''3333'' True = Inl InvalidArgument"
proof -
  have "intstr (- 3333) = ''-3333''" "list_all is_bind_char ''0.0.0.0''" by code_simp+
  then show ?thesis using api_bind [of "''0.0.0.0''" Some "''0.0.0.0''" "- 3333" "''3333''"] by simp
qed

end
