(* ===== verification/VectorRef.thy ===== *)
theory VectorRef
  imports CommonData
begin

unbundle bit_operations_syntax

text \<open>
  References into memory (\<open>src/libdevcore/vector_ref.h\<close>). The memory is an explicit store from
  addresses to bytes, because copying between references that overlap depends on the aliasing.
  \<open>sz\<close> is the size of an element, \<open>sizeof(_T)\<close>, and an element is given by its bytes. Address 0
  is the null pointer; counts have the width of \<open>size_t\<close>, and sizes in bytes, those of objects in
  memory, are not taken modulo that width.
\<close>

section \<open>Memory\<close>

type_synonym memory = "nat \<Rightarrow> byte"

definition read_bytes :: "memory \<Rightarrow> nat \<Rightarrow> nat \<Rightarrow> bytes" where
  "read_bytes mem a n = map (\<lambda>i. mem (a + i)) [0..<n]"

definition memmove :: "memory \<Rightarrow> nat \<Rightarrow> nat \<Rightarrow> nat \<Rightarrow> memory" where
  "memmove mem dst src n = (\<lambda>a. if dst \<le> a \<and> a < dst + n then mem (src + (a - dst)) else mem a)"

text \<open>\<open>memcpy\<close> asks for regions that do not overlap.\<close>

definition memcpy :: "memory \<Rightarrow> nat \<Rightarrow> nat \<Rightarrow> nat \<Rightarrow> exn + memory" where
  "memcpy mem dst src n =
     (if 0 < n \<and> dst < src + n \<and> src < dst + n then Inl UndefinedBehaviour else Inr (memmove mem dst src n))"

definition memset :: "memory \<Rightarrow> nat \<Rightarrow> byte \<Rightarrow> nat \<Rightarrow> memory" where
  "memset mem dst b n = (\<lambda>a. if dst \<le> a \<and> a < dst + n then b else mem a)"

section \<open>References\<close>

record vector_ref =
  vr_data :: nat
  vr_count :: u64

definition vr_none :: vector_ref where
  "vr_none = \<lparr>vr_data = 0, vr_count = 0\<rparr>"

text \<open>The data part of a string of \<open>len\<close> characters at address \<open>a\<close>.\<close>

definition vr_of_string :: "nat \<Rightarrow> nat \<Rightarrow> nat \<Rightarrow> vector_ref" where
  "vr_of_string sz a len = \<lparr>vr_data = a, vr_count = of_nat (len div sz)\<rparr>"

definition vr_of_vector :: "nat \<Rightarrow> nat \<Rightarrow> vector_ref" where
  "vr_of_vector a len = \<lparr>vr_data = a, vr_count = of_nat len\<rparr>"

definition vr_bool :: "vector_ref \<Rightarrow> bool" where
  "vr_bool r = (vr_data r \<noteq> 0 \<and> vr_count r \<noteq> 0)"

definition vr_empty :: "vector_ref \<Rightarrow> bool" where
  "vr_empty r = (vr_count r = 0)"

definition byte_count :: "nat \<Rightarrow> vector_ref \<Rightarrow> nat" where
  "byte_count sz r = unat (vr_count r) * sz"

definition vr_begin :: "vector_ref \<Rightarrow> nat" where
  "vr_begin r = vr_data r"

definition vr_end :: "nat \<Rightarrow> vector_ref \<Rightarrow> nat" where
  "vr_end sz r = vr_data r + byte_count sz r"

definition toVector :: "nat \<Rightarrow> memory \<Rightarrow> vector_ref \<Rightarrow> bytes list" where
  "toVector sz mem r = map (\<lambda>i. read_bytes mem (vr_data r + i * sz) sz) [0..<unat (vr_count r)]"

definition toBytes :: "nat \<Rightarrow> memory \<Rightarrow> vector_ref \<Rightarrow> bytes" where
  "toBytes sz mem r = read_bytes mem (vr_data r) (byte_count sz r)"

definition vr_toString :: "nat \<Rightarrow> memory \<Rightarrow> vector_ref \<Rightarrow> string" where
  "vr_toString sz mem r = map (\<lambda>b. char_of (unat b)) (toBytes sz mem r)"

text \<open>\<open>memcmp\<close> compares the bytes of the elements.\<close>

definition contentsEqual :: "nat \<Rightarrow> memory \<Rightarrow> vector_ref \<Rightarrow> bytes list \<Rightarrow> bool" where
  "contentsEqual sz mem r c =
     (if vr_data r = 0 \<or> vr_count r = 0 then c = []
      else length c = unat (vr_count r) \<and> concat c = toBytes sz mem r)"

text \<open>The conversion to elements of another size; \<open>None\<close> when the assertion fails.\<close>

definition vr_cast :: "nat \<Rightarrow> nat \<Rightarrow> vector_ref \<Rightarrow> vector_ref option" where
  "vr_cast sz sz2 r =
     (let n = byte_count sz r in
      if n div sz2 * sz2 div sz = unat (vr_count r)
      then Some \<lparr>vr_data = vr_data r, vr_count = of_nat (n div sz2)\<rparr> else None)"

definition vr_next :: "nat \<Rightarrow> vector_ref \<Rightarrow> vector_ref" where
  "vr_next sz r = (if vr_data r = 0 then r else \<lparr>vr_data = vr_end sz r, vr_count = vr_count r\<rparr>)"

definition cropped :: "nat \<Rightarrow> u64 \<Rightarrow> u64 \<Rightarrow> vector_ref \<Rightarrow> vector_ref" where
  "cropped sz begin count r =
     (if vr_data r \<noteq> 0 \<and> begin \<le> vr_count r \<and> count \<le> vr_count r \<and> begin + count \<le> vr_count r
      then \<lparr>vr_data = vr_data r + unat begin * sz,
            vr_count = (if count = NOT 0 then vr_count r - begin else count)\<rparr>
      else vr_none)"

definition cropped_from :: "nat \<Rightarrow> u64 \<Rightarrow> vector_ref \<Rightarrow> vector_ref" where
  "cropped_from sz begin r =
     (if vr_data r \<noteq> 0 \<and> begin \<le> vr_count r
      then \<lparr>vr_data = vr_data r + unat begin * sz, vr_count = vr_count r - begin\<rparr> else vr_none)"

definition retarget :: "nat \<Rightarrow> u64 \<Rightarrow> vector_ref \<Rightarrow> vector_ref" where
  "retarget d s r = r\<lparr>vr_data := d, vr_count := s\<rparr>"

definition vr_reset :: "vector_ref \<Rightarrow> vector_ref" where
  "vr_reset r = r\<lparr>vr_data := 0, vr_count := 0\<rparr>"

text \<open>\<open>sz2\<close> is the size of the elements of the other reference.\<close>

definition overlapsWith :: "nat \<Rightarrow> nat \<Rightarrow> vector_ref \<Rightarrow> vector_ref \<Rightarrow> bool" where
  "overlapsWith sz sz2 r t = (vr_data r < vr_end sz2 t \<and> vr_data t < vr_end sz r)"

definition copyTo :: "nat \<Rightarrow> memory \<Rightarrow> vector_ref \<Rightarrow> vector_ref \<Rightarrow> exn + memory" where
  "copyTo sz mem r t =
     (let n = unat (min (vr_count t) (vr_count r)) * sz in
      if overlapsWith sz sz r t then Inr (memmove mem (vr_data t) (vr_data r) n)
      else memcpy mem (vr_data t) (vr_data r) n)"

text \<open>The length of the \<open>memset\<close> is a number of elements, not of bytes.\<close>

definition populate :: "nat \<Rightarrow> memory \<Rightarrow> vector_ref \<Rightarrow> vector_ref \<Rightarrow> exn + memory" where
  "populate sz mem r t =
     (case copyTo sz mem r t of
        Inl e \<Rightarrow> Inl e
      | Inr mem1 \<Rightarrow>
          Inr (memset mem1 (vr_data t + unat (vr_count r) * sz) 0
                 (unat (max (vr_count t) (vr_count r) - vr_count r))))"

definition vr_at :: "nat \<Rightarrow> memory \<Rightarrow> vector_ref \<Rightarrow> u64 \<Rightarrow> bytes option" where
  "vr_at sz mem r i =
     (if vr_data r \<noteq> 0 \<and> i < vr_count r then Some (read_bytes mem (vr_data r + unat i * sz) sz) else None)"

definition vr_eq :: "vector_ref \<Rightarrow> vector_ref \<Rightarrow> bool" where
  "vr_eq r t = (vr_data r = vr_data t \<and> vr_count r = vr_count t)"

definition ref_value :: "nat \<Rightarrow> vector_ref" where
  "ref_value a = \<lparr>vr_data = a, vr_count = 1\<rparr>"

section \<open>Cleansing\<close>

fun cleanse_loop :: "nat \<Rightarrow> nat \<Rightarrow> u64 \<Rightarrow> memory \<Rightarrow> u64 \<times> memory" where
  "cleanse_loop 0 p count mem = (count, mem)"
| "cleanse_loop (Suc loop) p count mem =
     cleanse_loop loop (Suc p) (count + (17 + (of_nat (Suc p) AND 0xf))) (mem(p := ucast count))"

definition memchr :: "memory \<Rightarrow> nat \<Rightarrow> byte \<Rightarrow> nat \<Rightarrow> nat option" where
  "memchr mem a b n = find (\<lambda>p. mem p = b) [a..<a + n]"

text \<open>The static counter is passed along.\<close>

definition cleanse :: "nat \<Rightarrow> byte \<Rightarrow> memory \<Rightarrow> vector_ref \<Rightarrow> byte \<times> memory" where
  "cleanse sz counter mem r =
     (let len = byte_count sz r;
          (count, mem1) = cleanse_loop len (vr_begin r) (ucast counter) mem;
          count1 = (case memchr mem1 (vr_begin r) (ucast count) len of
                      Some p \<Rightarrow> count + (63 + of_nat p) | None \<Rightarrow> count)
      in (ucast count1, memset mem1 (vr_begin r) 0 len))"

section \<open>Facts\<close>

lemma length_read_bytes [simp]: "length (read_bytes mem a n) = n"
  by (simp add: read_bytes_def)

lemma nth_read_bytes [simp]: "i < n \<Longrightarrow> read_bytes mem a n ! i = mem (a + i)"
  by (simp add: read_bytes_def)

lemma read_bytes_add: "read_bytes mem a (m + n) = read_bytes mem a m @ read_bytes mem (a + m) n"
  by (rule nth_equalityI) (auto simp: nth_append)

lemma slice_read_bytes: "i + k \<le> n \<Longrightarrow> take k (drop i (read_bytes mem a n)) = read_bytes mem (a + i) k"
  by (rule nth_equalityI) (auto simp: add.assoc)

lemma read_memmove: "read_bytes (memmove mem dst src n) dst n = read_bytes mem src n"
  by (rule nth_equalityI) (auto simp: memmove_def)

lemma read_memset: "read_bytes (memset mem dst b n) dst n = replicate n b"
  by (rule nth_equalityI) (auto simp: memset_def)

lemma concat_toVector: "concat (toVector sz mem r) = toBytes sz mem r"
proof -
  have "concat (map (\<lambda>i. read_bytes mem (a + i * sz) sz) [0..<n]) = read_bytes mem a (n * sz)" for a n
    by (induction n) (simp_all add: read_bytes_add [symmetric] add.commute, simp add: read_bytes_def)
  then show ?thesis by (simp add: toVector_def toBytes_def byte_count_def)
qed

text \<open>The reference made from a vector compares equal with the elements it refers to.\<close>

lemma contentsEqual_toVector: "vr_data r \<noteq> 0 \<Longrightarrow> contentsEqual sz mem r (toVector sz mem r)"
  by (auto simp: contentsEqual_def concat_toVector) (simp add: toVector_def)+

text \<open>A cropped view shows the bytes at its place.\<close>

lemma cropped_view:
  assumes "vr_data r \<noteq> 0" and "unat b + unat c \<le> unat (vr_count r)" and "c \<noteq> NOT 0"
  shows "toBytes sz mem (cropped sz b c r) = take (unat c * sz) (drop (unat b * sz) (toBytes sz mem r))"
proof -
  have "unat (vr_count r) < 2 ^ LENGTH(64)" by (rule unsigned_less)
  then have "unat (b + c) = unat b + unat c"
    using assms(2) by (simp add: unat_word_ariths(1))
  then have "b \<le> vr_count r" "c \<le> vr_count r" "b + c \<le> vr_count r"
    using assms(2) by (simp_all add: word_le_nat_alt)
  moreover have "unat b * sz + unat c * sz \<le> unat (vr_count r) * sz"
    using mult_le_mono1 [OF assms(2), of sz] by (simp add: add_mult_distrib)
  ultimately show ?thesis
    using assms(1,3) by (simp add: cropped_def toBytes_def byte_count_def slice_read_bytes)
qed

text \<open>The count that should extend the view to the end of the data gives an empty view.\<close>

lemma cropped_to_end: "vr_count r \<noteq> NOT 0 \<Longrightarrow> cropped sz b (NOT 0) r = vr_none"
  by (auto simp: cropped_def dest: word_order.extremum_uniqueI)

text \<open>The choice between \<open>memmove\<close> and \<open>memcpy\<close> is right: the result is always defined.\<close>

lemma copyTo_defined:
  "copyTo sz mem r t = Inr (memmove mem (vr_data t) (vr_data r) (min (byte_count sz t) (byte_count sz r)))"
proof -
  have n: "unat (min (vr_count t) (vr_count r)) * sz = min (byte_count sz t) (byte_count sz r)"
    by (simp add: byte_count_def min_def word_le_nat_alt)
  show ?thesis
    by (auto simp: copyTo_def n Let_def memcpy_def overlapsWith_def vr_end_def)
qed

text \<open>With elements of one byte the target holds the source, cut or filled up with zeros.\<close>

lemma populate_bytes:
  "\<exists>mem'. populate 1 mem r t = Inr mem' \<and>
    toBytes 1 mem' t = take (unat (vr_count t)) (toBytes 1 mem r @ replicate (unat (vr_count t)) 0) \<and>
    (\<forall>a. a < vr_data t \<or> vr_end 1 t \<le> a \<longrightarrow> mem' a = mem a)"
proof -
  have "unat (max (vr_count t) (vr_count r) - vr_count r) = unat (vr_count t) - unat (vr_count r)"
    by (simp add: max_def word_le_nat_alt unat_sub)
  then have "populate 1 mem r t = Inr (memset (memmove mem (vr_data t) (vr_data r)
      (min (unat (vr_count t)) (unat (vr_count r)))) (vr_data t + unat (vr_count r)) 0
      (unat (vr_count t) - unat (vr_count r)))"
    by (simp add: populate_def copyTo_defined byte_count_def)
  moreover have "read_bytes (memset (memmove mem d a (min n k)) (d + k) 0 (n - k)) d n =
      take n (read_bytes mem a k @ replicate n 0)" for d a n k
    by (rule nth_equalityI) (auto simp: memset_def memmove_def nth_append)
  moreover have "memset (memmove mem d a' (min n k)) (d + k) 0 (n - k) a = mem a" if "a < d \<or> d + n \<le> a" for d a' n k a
    using that by (auto simp: memset_def memmove_def)
  ultimately show ?thesis by (simp add: toBytes_def byte_count_def vr_end_def)
qed

text \<open>With larger elements only the first bytes of the rest are cleared.\<close>

lemma populate_elements_incomplete:
  "case populate 4 (\<lambda>_. 255) \<lparr>vr_data = 64, vr_count = 1\<rparr> \<lparr>vr_data = 128, vr_count = 3\<rparr> of
     Inr mem \<Rightarrow> mem 133 = 0 \<and> mem 134 = 255 | Inl e \<Rightarrow> False"
  by (simp add: populate_def copyTo_defined byte_count_def memset_def memmove_def)

lemma cleanse_loop_frame:
  "a < p \<or> p + n \<le> a \<Longrightarrow> snd (cleanse_loop n p count mem) a = mem a"
  by (induction n p count mem rule: cleanse_loop.induct) auto

text \<open>Cleansing clears exactly the referenced bytes, whatever the counter was.\<close>

lemma cleanse_clears:
  "toBytes sz (snd (cleanse sz counter mem r)) r = replicate (byte_count sz r) 0 \<and>
   (a < vr_data r \<or> vr_end sz r \<le> a \<longrightarrow> snd (cleanse sz counter mem r) a = mem a)"
proof -
  have "snd (cleanse sz counter mem r) =
      memset (snd (cleanse_loop (byte_count sz r) (vr_data r) (ucast counter) mem)) (vr_data r) 0 (byte_count sz r)"
    by (simp add: cleanse_def Let_def vr_begin_def case_prod_beta)
  then show ?thesis
    by (auto simp: toBytes_def vr_end_def read_memset) (simp_all add: memset_def cleanse_loop_frame)
qed

end
