(* ===== verification/HashMemory.thy ===== *)
theory HashMemory
  imports FixedHash VectorRef
begin

text \<open>
  The parts of \<open>src/libdevcore/FixedHash.h\<close> that concern memory, streams and random numbers:
  hashes made from pointers and seen through references, single bytes, the stream operator, and the
  hash functions for containers, whose combination of values is boost's.
\<close>

section \<open>Operations\<close>

definition FixedHash_pointer :: "nat \<Rightarrow> memory \<Rightarrow> nat \<Rightarrow> bytes" where
  "FixedHash_pointer N mem a = read_bytes mem a N"

text \<open>The conversion to the unsigned number of \<open>8 * N\<close> bits.\<close>

definition h_to_arith :: "bytes \<Rightarrow> nat" where
  "h_to_arith h = foldl (\<lambda>a b. (256 * a + unat b) mod 2 ^ (8 * length h)) 0 h"

definition h_at :: "bytes \<Rightarrow> u32 \<Rightarrow> exn + byte" where
  "h_at h i = (if unat i < length h then Inr (h ! unat i) else Inl UndefinedBehaviour)"

text \<open>\<open>a\<close> is the address of the object.\<close>

definition h_ref :: "nat \<Rightarrow> nat \<Rightarrow> vector_ref" where
  "h_ref N a = \<lparr>vr_data = a, vr_count = of_nat N\<rparr>"

text \<open>One number from the distribution between 0 and 255 for each byte.\<close>

definition h_randomize :: "u16 list \<Rightarrow> bytes \<Rightarrow> bytes" where
  "h_randomize draws h = map ucast (take (length h) draws)"

definition h_random :: "nat \<Rightarrow> u16 list \<Rightarrow> bytes" where
  "h_random N draws = h_randomize draws (FixedHash_empty N)"

definition h_clear :: "bytes \<Rightarrow> bytes" where
  "h_clear h = replicate (length h) 0"

definition h_hash :: "(bytes \<Rightarrow> u64) \<Rightarrow> bytes \<Rightarrow> u64" where
  "h_hash hash_range h = hash_range h"

definition h256_hash :: "(u64 list \<Rightarrow> u64) \<Rightarrow> h256 \<Rightarrow> u64" where
  "h256_hash hash_range h = hash_range (map (le_word64 h) [0..<4])"

text \<open>\<open>operator<<\<close>: the text, and the fill character that the stream has afterwards.\<close>

definition h_print :: "bytes \<Rightarrow> string \<times> char" where
  "h_print h = (concat (map (\<lambda>b. setw 2 (CHR ''0'') (hexstr (unat b))) h), CHR ''0'')"

definition h256s_toString :: "h256 list \<Rightarrow> string" where
  "h256s_toString hs = ''[ '' @ concat (map (\<lambda>h. h_abridged h @ '', '') hs) @ '']''"

section \<open>Facts\<close>

lemma foldl_arith:
  assumes "length h \<le> n"
  shows "foldl (\<lambda>a b. (256 * a + unat b) mod 256 ^ n) 0 h = be_val (h :: bytes)"
  using assms
proof (induction h rule: rev_induct)
  case (snoc b bs)
  have "be_val (bs @ [b]) < 256 ^ n"
    using be_val_less [of "bs @ [b]"] power_increasing [OF snoc.prems, of "256 :: nat"] by simp
  then show ?case using snoc by (simp add: be_val_snoc)
qed simp

text \<open>The number of a hash and the hash of a number are inverse to each other.\<close>

lemma arith_roundtrip:
  "FixedHash_arith (length h) (h_to_arith h) = h" "v < 256 ^ N \<Longrightarrow> h_to_arith (FixedHash_arith N v) = v"
proof -
  have arith: "h_to_arith h = be_val h" for h
    using foldl_arith [of h "length h"] by (simp add: h_to_arith_def power_mult)
  then show "FixedHash_arith (length h) (h_to_arith h) = h" by (simp add: FixedHash_arith_def toBigEndian_be_val)
  show "h_to_arith (FixedHash_arith N v) = v" if "v < 256 ^ N"
    using that by (simp add: arith FixedHash_arith_def be_val_toBigEndian)
qed

text \<open>Printing to a stream gives the hexadecimal text.\<close>

lemma h_print_hex: "fst (h_print h) = h_hex h DontAdd"
  by (cases h) (simp_all add: h_print_def h_hex_def toHex_bytes_def add_prefix_def)

text \<open>The abridged text is that of the cropped reference.\<close>

lemma abridged_cropped:
  assumes "a \<noteq> 0" and "4 \<le> N" and "N < 2 ^ 64" and "FixedHash_pointer N mem a = h"
  shows "h_abridged h = toHex_bytes (toBytes 1 mem (cropped 1 0 4 (h_ref N a))) 2 DontAdd @ k_ellipsis"
proof -
  have "toBytes 1 mem (h_ref N a) = h"
    using assms(3,4) by (simp add: toBytes_def byte_count_def h_ref_def FixedHash_pointer_def unat_of_nat_u64)
  moreover have "length h = N" using assms(4) by (auto simp: FixedHash_pointer_def)
  moreover have "toBytes 1 mem (cropped 1 0 4 (h_ref N a)) = take 4 (toBytes 1 mem (h_ref N a))"
    using cropped_view [of "h_ref N a" 0 4 1 mem] assms(1-3) by (simp add: h_ref_def unat_of_nat_u64)
  ultimately show ?thesis using assms(2) by (simp add: h_abridged_def)
qed

text \<open>Equal hashes fall into the same place of a container.\<close>

lemma h256_hash_eq: "h256_fast_eq a b \<Longrightarrow> h256_hash f a = h256_hash f b"
  by (simp add: h256_hash_def h256_fast_eq_def upt_rec numeral_2_eq_2 numeral_3_eq_3)

end
