(* ===== verification/Device.thy ===== *)
theory Device
  imports PoolManager CPUMiner ApiStats
begin

unbundle bit_operations_syntax

text \<open>
  The processor as a mining device, and what the farm does around its life: the queries of the
  operating system and the RandomY dataset (\<open>src/libethash-cpu/CPUMiner.cpp\<close>, as compiled for
  Linux), the destructor of the farm, the reboot script, and what is left when the miners are
  restarted (\<open>src/libethcore/Farm.cpp\<close>). The results of system and library calls are arguments.
\<close>

section \<open>The operating system\<close>

text \<open>\<open>pages\<close> and \<open>page_size\<close> are results of \<open>sysconf\<close>, which is -1 on an error.\<close>

definition getTotalPhysAvailableMemory :: "int \<Rightarrow> int \<Rightarrow> u64" where
  "getTotalPhysAvailableMemory pages page_size =
     (if pages = -1 then 0 else if page_size = -1 then 0 else of_int pages * of_int page_size)"

definition getNumDevices :: "int \<Rightarrow> u32" where
  "getNumDevices cpus_available = (if cpus_available = -1 then 0 else of_int cpus_available)"

text \<open>The value returned and the warnings; \<open>err\<close> is the result of \<open>sched_setaffinity\<close>, \<open>what\<close> the text of the error.\<close>

definition initDevice :: "int \<Rightarrow> string \<Rightarrow> Miner \<Rightarrow> bool \<times> string list" where
  "initDevice err what m =
     (True,
      if err \<noteq> 0
      then [''Error in func initDevice at sched_setaffinity() \"'' @ what @ ''\"'' @ [CHR 0x0A],
            ''cp-'' @ decstr (unat (mi_index m)) @ ''could not bind thread to cpu'' @
              intstr (dd_cpCpuNumer (mi_deviceDescriptor m)) @ [CHR 0x0A]]
      else [])"

section \<open>The RandomY dataset\<close>

text \<open>
  The static pointer, the datasets and caches that are allocated, and the ranges of items that
  were initialised in each dataset.
\<close>

record RandomY =
  ry_dataset :: "nat option"
  ry_live :: "nat list"
  ry_caches :: "nat list"
  ry_filled :: "(nat \<times> (u32 \<times> u32)) list"
  ry_fresh :: nat

record ry_alloc =
  al_cache :: bool
  al_dataset :: bool
  al_threads :: u32
  al_items :: u32

definition initial_RandomY :: RandomY where
  "initial_RandomY = \<lparr>ry_dataset = None, ry_live = [], ry_caches = [], ry_filled = [], ry_fresh = 0\<rparr>"

text \<open>The flags of the library are arguments.\<close>

definition showRandomYFlags :: "u32 \<Rightarrow> u32 \<Rightarrow> u32 \<Rightarrow> u32 \<Rightarrow> u32 \<Rightarrow> string list" where
  "showRandomYFlags large_pages hard_aes full_mem jit flags =
     (if flags AND large_pages \<noteq> 0 then [''RandomY large pages mode is enabled''] else []) @
     (if flags AND hard_aes \<noteq> 0 then [''RandomY hard aes mode is enabled''] else []) @
     (if flags AND full_mem \<noteq> 0 then [''RandomY full mem mode is enabled''] else []) @
     (if flags AND jit \<noteq> 0 then [''RandomY JIT mode is enabled''] else [])"

definition getRandomYDataset :: "ry_alloc \<Rightarrow> RandomY \<Rightarrow> nat option \<times> RandomY" where
  "getRandomYDataset al s =
     (case ry_dataset s of
        Some p \<Rightarrow> (Some p, s)
      | None \<Rightarrow>
          if \<not> al_cache al then (None, s)
          else let c = ry_fresh s;
                   s1 = s\<lparr>ry_caches := c # ry_caches s, ry_fresh := Suc c\<rparr>
               in if \<not> al_dataset al then (None, s1)
                  else let p = ry_fresh s1 in
                    (Some p, s1\<lparr>ry_dataset := Some p, ry_live := p # ry_live s1, ry_fresh := Suc p,
                                ry_filled := ry_filled s1 @ map (Pair p) (dataset_ranges (al_items al) (al_threads al)),
                                ry_caches := removeAll c (ry_caches s1)\<rparr>))"

text \<open>The pointer is not reset.\<close>

definition releaseRandomYDataset :: "ry_alloc \<Rightarrow> RandomY \<Rightarrow> exn option \<times> RandomY" where
  "releaseRandomYDataset al s =
     (case getRandomYDataset al s of
        (None, s1) \<Rightarrow> (None, s1)
      | (Some p, s1) \<Rightarrow>
          if p \<in> set (ry_live s1) then (None, s1\<lparr>ry_live := removeAll p (ry_live s1)\<rparr>)
          else (Some UndefinedBehaviour, s1))"

definition farm_destroy :: "ry_alloc \<Rightarrow> Farm \<Rightarrow> RandomY \<Rightarrow> exn option \<times> Farm \<times> RandomY" where
  "farm_destroy al f s =
     (let f1 = f\<lparr>fm_collectTimer := False\<rparr>;
          f2 = (if fm_isMining f1 then farm_stop f1 else f1);
          (e, s1) = releaseRandomYDataset al s
      in (e, f2, s1))"

section \<open>The reboot script\<close>

text \<open>What is found of the file: its size, its mode when \<open>stat\<close> succeeds, and the outcome of starting it.\<close>

record script_file =
  sf_exists :: "exn + bool"
  sf_size :: "exn + nat"
  sf_mode :: "u32 option"
  sf_spawn :: "exn + unit"

text \<open>\<open>S_IXUSR | S_IXGRP | S_IXOTH\<close> is 0o111.\<close>

definition spawn_file_in_bin_dir :: "(string \<Rightarrow> script_file) \<Rightarrow> string \<Rightarrow> string \<Rightarrow> bool" where
  "spawn_file_in_bin_dir fs bin filename =
     (let f = fs (bin @ ''/'' @ filename) in
      case sf_exists f of
        Inl _ \<Rightarrow> False
      | Inr False \<Rightarrow> False
      | Inr True \<Rightarrow>
          (case sf_size f of
             Inl _ \<Rightarrow> False
           | Inr 0 \<Rightarrow> False
           | Inr (Suc _) \<Rightarrow>
               (case sf_mode f of
                  None \<Rightarrow> False
                | Some mode \<Rightarrow> mode AND 73 \<noteq> 0 \<and> sf_spawn f = Inr ())))"

definition farm_reboot :: "(string \<Rightarrow> script_file) \<Rightarrow> string \<Rightarrow> bool" where
  "farm_reboot fs bin = spawn_file_in_bin_dir fs bin ''reboot.sh''"

section \<open>Sensors\<close>

definition HwSensors_str :: "(int \<Rightarrow> real \<Rightarrow> string) \<Rightarrow> HwSensorsType \<Rightarrow> string" where
  "HwSensors_str fmt h =
     intstr (hs_tempC h) @ ''C '' @ intstr (hs_fanP h) @ ''%'' @
     (if hs_powerW h \<noteq> 0 then '' '' @ fmt 2 (hs_powerW h) @ ''W'' else [])"

section \<open>Facts\<close>

lemma filled_ranges:
  "p \<notin> fst ` set fs \<Longrightarrow> map snd (filter (\<lambda>x. fst x = p) (fs @ map (Pair p) rs)) = rs"
  by (induction fs) (auto simp: filter_map o_def)

text \<open>The devices that the farm starts, and the entries that each start appends.\<close>

definition cpu_devices :: "Farm \<Rightarrow> nat" where
  "cpu_devices f = length (filter (\<lambda>kd. dd_subscriptionType (snd kd) = DS_Cpu) (fm_devices f))"

lemma start_devices_entries:
  fixes ds :: "(string \<times> DeviceDescriptor) list"
  defines "n \<equiv> length (filter (\<lambda>kd. dd_subscriptionType (snd kd) = DS_Cpu) ds)"
  shows "\<exists>ts. length ts = n \<and> (let g = foldl (\<lambda>g kd. start_device vm now (snd kd) g) f ds in
    tm_miners (fm_telemetry g) = tm_miners (fm_telemetry f) @ ts \<and>
    length (fm_miners g) = length (fm_miners f) + n \<and> fm_devices g = fm_devices f)"
  unfolding n_def
proof (induction ds arbitrary: f)
  case (Cons kd ds)
  show ?case
    using Cons.IH [of "start_device vm now (snd kd) f"]
    by (auto simp: start_device_def Let_def intro: exI [of _ "_ # _"])
qed simp

lemma restart_entries:
  assumes "fm_isMining (pm_farm p)"
  shows "\<exists>ts. length ts = cpu_devices (pm_farm p) \<and> (let f = pm_farm (onMinerRestart d p) in
    tm_miners (fm_telemetry f) = tm_miners (fm_telemetry (pm_farm p)) @ ts \<and>
    length (fm_miners f) = cpu_devices (pm_farm p) \<and> fm_devices f = fm_devices (pm_farm p) \<and> fm_isMining f)"
proof -
  define f where "f = farm_stop (pm_farm p)"
  have f: "fm_devices f = fm_devices (pm_farm p)" "fm_telemetry f = fm_telemetry (pm_farm p)"
    "fm_miners f = []" "\<not> fm_isMining f"
    using assms by (simp_all add: f_def farm_stop_def)
  have "pm_farm (onMinerRestart d p) = snd (farm_start (dr_vm d) (dr_now d) f)"
    using assms by (simp add: onMinerRestart_def spin_up_miners_def shut_down_miners_def f_def)
  then show ?thesis
    using start_devices_entries [where ds = "fm_devices f" and vm = "dr_vm d" and now = "dr_now d" and f = f] f
    by (auto simp: farm_start_def Let_def cpu_devices_def)
qed

section \<open>Properties\<close>

text \<open>
  C28: Restarting the miners does not remove their entries from the telemetry. After each restart
  there is one miner for each device again, but the telemetry has grown by as many entries, and the
  old ones are all kept in front, so that the status line shows miners that no longer exist.
\<close>

theorem restart_telemetry_grows:
  assumes "fm_isMining (pm_farm p)" and "ds \<noteq> []"
  shows "let f = pm_farm p; g = pm_farm (fold onMinerRestart ds p) in
    length (fm_miners g) = cpu_devices f \<and>
    length (tm_miners (fm_telemetry g)) = length (tm_miners (fm_telemetry f)) + length ds * cpu_devices f \<and>
    take (length (tm_miners (fm_telemetry f))) (tm_miners (fm_telemetry g)) = tm_miners (fm_telemetry f)"
  using assms
proof (induction ds arbitrary: p)
  case (Cons d ds)
  obtain ts where ts: "length ts = cpu_devices (pm_farm p)"
    "tm_miners (fm_telemetry (pm_farm (onMinerRestart d p))) = tm_miners (fm_telemetry (pm_farm p)) @ ts"
    "length (fm_miners (pm_farm (onMinerRestart d p))) = cpu_devices (pm_farm p)"
    "fm_devices (pm_farm (onMinerRestart d p)) = fm_devices (pm_farm p)" "fm_isMining (pm_farm (onMinerRestart d p))"
    using restart_entries [OF Cons.prems(1), of d] by (auto simp: Let_def)
  then have same: "cpu_devices (pm_farm (onMinerRestart d p)) = cpu_devices (pm_farm p)" by (simp add: cpu_devices_def)
  show ?case
  proof (cases "ds = []")
    case False
    let ?m = "tm_miners (fm_telemetry (pm_farm (fold onMinerRestart ds (onMinerRestart d p))))"
    have "take (length (tm_miners (fm_telemetry (pm_farm p))) + length ts) ?m = tm_miners (fm_telemetry (pm_farm p)) @ ts"
      using Cons.IH [OF ts(5) False] ts(2) by (simp add: Let_def)
    then have "take (length (tm_miners (fm_telemetry (pm_farm p)))) ?m = tm_miners (fm_telemetry (pm_farm p))"
      by (metis append_eq_conv_conj take_take min.absorb1 le_add1)
    then show ?thesis using Cons.IH [OF ts(5) False] ts same by (simp add: Let_def)
  qed (simp add: ts Let_def)
qed simp

theorem restart_telemetry_grows_witness:
  "let g = pm_farm (fold onMinerRestart [sample_draw, sample_draw] ((sample_manager [0] 3)\<lparr>pm_farm := sample_farm\<rparr>)) in
    length (fm_miners g) = 2 \<and> length (tm_miners (fm_telemetry g)) = 6"
proof -
  have "fm_isMining sample_farm" "cpu_devices sample_farm = 2"
    by (simp_all add: sample_farm_def farm_start_def new_Farm_def shuffle_def start_device_def sample_device_def
        cpu_devices_def)
  then show ?thesis
    using restart_telemetry_grows [of "(sample_manager [0] 3)\<lparr>pm_farm := sample_farm\<rparr>" "[sample_draw, sample_draw]"]
    by (simp add: sample_farm_telemetry Let_def del: fold_simps)
qed

text \<open>
  C32: The RandomY dataset. When the library can allocate it, the first request initialises every
  item exactly once, whatever the number of threads, gives the cache back, and every later request
  finds the same dataset. Releasing it leaves the pointer set: a later request gets the released
  dataset, and releasing it again is undefined.
\<close>

theorem dataset_lifecycle:
  assumes "ry_dataset s = None" and "al_cache al" and "al_dataset al"
    and "Suc (ry_fresh s) \<notin> set (ry_live s) \<union> fst ` set (ry_filled s)" and "ry_fresh s \<notin> set (ry_caches s)"
  shows "\<exists>p s1 s2. getRandomYDataset al s = (Some p, s1) \<and> p \<in> set (ry_live s1) \<and> ry_caches s1 = ry_caches s \<and>
    concat (map range_items (map snd (filter (\<lambda>x. fst x = p) (ry_filled s1)))) = [0..<unat (al_items al)] \<and>
    getRandomYDataset al' s1 = (Some p, s1) \<and>
    releaseRandomYDataset al' s1 = (None, s2) \<and> p \<notin> set (ry_live s2) \<and>
    getRandomYDataset al' s2 = (Some p, s2) \<and> fst (releaseRandomYDataset al' s2) = Some UndefinedBehaviour"
proof -
  define p where "p = Suc (ry_fresh s)"
  define s1 where "s1 = snd (getRandomYDataset al s)"
  have s1: "s1 = s\<lparr>ry_dataset := Some p, ry_live := p # ry_live s, ry_fresh := Suc p, ry_caches := ry_caches s,
      ry_filled := ry_filled s @ map (Pair p) (dataset_ranges (al_items al) (al_threads al))\<rparr>"
    using assms by (simp add: s1_def getRandomYDataset_def Let_def p_def)
  have get: "getRandomYDataset al s = (Some p, s1)"
    using assms(1-3) by (simp add: s1_def getRandomYDataset_def Let_def p_def)
  have "map snd (filter (\<lambda>x. fst x = p) (ry_filled s1)) = dataset_ranges (al_items al) (al_threads al)"
    using filled_ranges [of p "ry_filled s"] assms(4) by (simp add: s1 p_def)
  then have items: "concat (map range_items (map snd (filter (\<lambda>x. fst x = p) (ry_filled s1)))) = [0..<unat (al_items al)]"
    by (simp only: dataset_ranges_items)
  define s2 where "s2 = s1\<lparr>ry_live := removeAll p (ry_live s1)\<rparr>"
  have "p \<in> set (ry_live s1)" "ry_caches s1 = ry_caches s" "getRandomYDataset al' s1 = (Some p, s1)"
    "releaseRandomYDataset al' s1 = (None, s2)" "p \<notin> set (ry_live s2)" "getRandomYDataset al' s2 = (Some p, s2)"
    "fst (releaseRandomYDataset al' s2) = Some UndefinedBehaviour"
    by (simp_all add: s1 s2_def getRandomYDataset_def releaseRandomYDataset_def)
  with get items show ?thesis by blast
qed

theorem dataset_lifecycle_witness:
  "\<exists>p s1. getRandomYDataset \<lparr>al_cache = True, al_dataset = True, al_threads = 3, al_items = 10\<rparr> initial_RandomY = (Some p, s1) \<and>
    concat (map range_items (map snd (filter (\<lambda>x. fst x = p) (ry_filled s1)))) = [0..<10]"
  using dataset_lifecycle [of initial_RandomY "\<lparr>al_cache = True, al_dataset = True, al_threads = 3, al_items = 10\<rparr>"
      "\<lparr>al_cache = True, al_dataset = True, al_threads = 3, al_items = 10\<rparr>"]
  by (auto simp: initial_RandomY_def)

text \<open>A dataset that cannot be allocated costs a cache for every miner that asks for it.\<close>

lemma dataset_failure_leaks:
  assumes "ry_dataset s = None" and "al_cache al" and "\<not> al_dataset al"
  shows "length (ry_caches (((\<lambda>s. snd (getRandomYDataset al s)) ^^ n) s)) = length (ry_caches s) + n"
proof -
  have "ry_dataset (((\<lambda>s. snd (getRandomYDataset al s)) ^^ n) s) = None \<and>
      length (ry_caches (((\<lambda>s. snd (getRandomYDataset al s)) ^^ n) s)) = length (ry_caches s) + n"
    using assms by (induction n) (simp_all add: getRandomYDataset_def Let_def)
  then show ?thesis by simp
qed

end
