(* ===== verification/Spec2Isabelle.thy ===== *)
theory Spec2Isabelle
  imports Prelude Cxx CommonData FixedHash Worker Work Miner Farm Sha3 CPUMiner Regex PoolURI Display
    Json PoolClient PoolManager ClientContract Stratum StratumProtocol StratumInv StratumProps Extranonce
    Getwork GetworkProps Simulate ApiStats ApiServer ApiProps
    Cli Settings CliProps VectorRef HashMemory Log Device
begin

text \<open>
  A verification development for \<^emph>\<open>coreminer\<close>, a miner for the Core blockchain.

  \<^bold>\<open>The program.\<close> \<open>main\<close> reads the command line, lists and subscribes the processors as devices, makes
  the farm and the pool manager, starts the programming interface and waits for a signal. The
  manager connects to one of the configured pools through a client (stratum, getwork or a
  simulation), rotates among the pools when connections fail, and hands the work of the pool to the
  farm. The farm divides the nonces among its miners, each with a thread of its own; a miner searches
  its segment for nonces whose hash is at most the boundary and gives them to the farm, which
  gives them to the manager, which gives them to the client. The client writes them to the pool and
  reports the answer, which the manager accounts to the miner. The interface lets users read
  statistics and change the state of the program while it runs.

  \<^bold>\<open>How code is modelled.\<close> A class is a record, an enumeration a datatype, an integer of a fixed
  width a word. A method is a function on the record; one that throws returns the exception beside
  the state it leaves (\<open>exn option \<times> 's\<close>) or instead of a value (\<open>exn + 'a\<close>, \<open>ebind\<close>, \<open>withv\<close>). The
  use of a null pointer, of an index behind the end of an array, or of a released object is the
  exception \<open>UndefinedBehaviour\<close>. Handlers given to boost run one after the other on a strand, so a
  handler is one step; the operations it starts are appended to a list of the record (\<open>st_ops\<close>,
  \<open>gw_ops\<close>, \<open>ac_ops\<close> and others), the handlers of another component that it calls to a list of calls or
  events, and the composition is stated where two components meet. Step relations (\<open>worker_step\<close>,
  \<open>miner_step\<close>, \<open>mining_step\<close>, \<open>farm_step\<close>, \<open>pm_step\<close>, \<open>st_step\<close>, \<open>gw_step\<close>, \<open>si_step\<close>, \<open>api_step\<close>) say in which orders steps
  may happen; the locale \<open>machine\<close> of \<open>Prelude\<close> gives the invariants of what is reached. Two theorems on
  the course of connections run a component on its own: \<open>failing_run\<close> and \<open>refuse_run\<close> execute what the
  manager or the stratum client has left pending, with its own handlers and nothing else, so that a
  handler that forgets to post, call or arm the next step leaves them stuck.

  \<^bold>\<open>Libraries.\<close> jsoncpp (\<open>jsonlib\<close>), the string functions and the address parser of boost
  (\<open>boost_lib\<close>), its multiprecision numbers (\<open>multiprecision\<close>), ethash (\<open>ethash_lib\<close>), RandomY (a function
  from a seed to a hash), CLI11 (\<open>ce_parse\<close>), the rounding and the printing of floating point
  numbers, clocks and random numbers are arguments. What the code relies on is a named hypothesis
  (\<open>boost_laws\<close>, \<open>mp_laws\<close>, \<open>hash_libs_ok\<close>, the conditions on \<open>jsonlib\<close> of the clients), and the witnesses
  instantiate it with concrete functions (\<open>sample_boost\<close>, \<open>sample_mp\<close>, \<open>sample_lib\<close>, \<open>sample_json\<close>). The
  parts of the C++ library that the code is written in are defined: streams of integers, \<open>stoul\<close> and
  \<open>stoi\<close>, ordered maps (\<open>Cxx\<close>), regular expressions with the first match of ECMAScript (\<open>Regex\<close>), and
  the memory functions (\<open>VectorRef\<close>).

  \<^bold>\<open>Theories.\<close>
  \<^item> \<open>Prelude\<close>, \<open>Cxx\<close>, \<open>Regex\<close>: types, exceptions, lists of bytes, \<open>machine\<close> and \<open>reach\<close>; the library.
  \<^item> \<open>CommonData\<close>, \<open>FixedHash\<close>, \<open>VectorRef\<close>, \<open>HashMemory\<close>, \<open>Display\<close>, \<open>Log\<close> (\<open>libdevcore\<close>): text and numbers of
    bytes with their round trips over the locale \<open>byte_codec\<close>; hashes as numbers; references into an
    explicit memory, where copying is shown to be defined also when the regions overlap; boundary
    and difficulty, units and the status line; the log without its colours.
  \<^item> \<open>Worker\<close> (\<open>libdevcore/Worker.cpp\<close>): the owner and the thread as interleaved steps, that no request
    to end is lost, and that the calls of the owner return.
  \<^item> \<open>Work\<close>, \<open>Miner\<close>, \<open>Farm\<close> (\<open>libethcore\<close>): work packages, the miner with its reasons to pause (locale
    \<open>flag_set\<close>), the farm with its nonce segments, accounting and timers, and their invariants.
  \<^item> \<open>Sha3\<close>, \<open>CPUMiner\<close>, \<open>Device\<close> (\<open>libethash-cpu\<close>, \<open>Farm\<close>): the hash generator against the sponge, the search
    with its soundness and completeness, the thread of the miner interleaved with the calls of its
    owner and the states of its worker; the RandomY dataset, the queries
    of the operating system, the end of the farm, the reboot script and the restart of the miners.
  \<^item> \<open>PoolURI\<close>, \<open>PoolClient\<close>, \<open>PoolManager\<close>, \<open>ClientContract\<close> (\<open>libpoolprotocols\<close>): the text of a pool, the
    session, the manager with its handlers, timers and connections; the locale \<open>pool_client\<close> is what the
    manager relies on in a client, and gives that each event of a client is a step of the manager.
  \<^item> \<open>Json\<close>, \<open>Stratum\<close>, \<open>StratumProtocol\<close>, \<open>StratumInv\<close>, \<open>StratumProps\<close>, \<open>Extranonce\<close>
    (\<open>stratum/XcbStratumClient.cpp\<close>): sockets, connecting with the search for the dialect, every message
    of the pool, submissions; the interpretation \<open>stratum\<close> of \<open>pool_client\<close>; the order of sent requests,
    the independence from the division of the received stream, and the way of the extranonce.
  \<^item> \<open>Getwork\<close>, \<open>GetworkProps\<close>, \<open>Simulate\<close> (\<open>getwork/XcbGetworkClient.cpp\<close>, \<open>testing/SimulateClient.cpp\<close>): the
    other two clients and their interpretations.
  \<^item> \<open>ApiStats\<close>, \<open>ApiServer\<close>, \<open>ApiProps\<close> (\<open>libapicore/ApiServer.cpp\<close>): statistics, requests, methods, HTTP
    and JSON lines, the server with its sessions; authentication, read-only servers, the form of
    the answers, and that clients of the interface cannot take the manager out of its reachable states.
  \<^item> \<open>Cli\<close>, \<open>Settings\<close>, \<open>CliProps\<close> (\<open>coreminer/main.cpp\<close>): options and their checks, the list and the
    selection of devices, start, display timer, signals and exit codes; that the program which
    is started is a reachable state of the interface and the manager, so that all invariants hold of
    it, and that the settings of the farm stay as they were given.
  \<^item> This theory: the properties that span the components.

  \<^bold>\<open>Termination and bounds.\<close> There is no fuel: loops over data are recursive on it or have a measure
  (\<open>block_nonces\<close>, \<open>scale_loop\<close>, \<open>regex_iterate\<close>, \<open>squeeze_loop\<close>, \<open>gw_lines\<close>). Loops that wait for other threads
  are given by their turns: the search by what it sees at the start of each block (\<open>Tick\<close>), the thread
  of the miner and the worker by their steps (\<open>workLoop_step\<close>, \<open>thread_step\<close>); \<open>thread_searches\<close> relates
  the steps of a search to its loop. The number of pools
  and of miners is assumed to fit into 32 bits where an index of that width is used.

  \<^bold>\<open>Deviations.\<close> Where the code does not do what it means to, the model follows the code and a
  theorem shows it: the padding of SHA-3 for one free byte, the timeout of connection attempts,
  repeated replies of the interface, a handler of the interface that runs on a destroyed session
  (\<open>completion\<close>), a disconnection that throws before the socket is open, telemetry that grows with restarts, the pointer to a released
  dataset, and the re-evaluation of solutions that is never made.

  \<^bold>\<open>Not modelled.\<close>
  \<^item> \<open>help\<close> and \<open>helpExt\<close> of \<open>main.cpp\<close> print constant text.
  \<^item> \<open>Guards.h\<close>, \<open>Common.h\<close> and \<open>Exceptions.h\<close> are aliases and macros; they appear as atomic steps, words
    and constructors of \<open>exn\<close>. A data race inside of a handler is not represented. The changes
    of \<open>setWork\<close> and of \<open>pause\<close> before their \<open>kick_miner\<close> are one step.
  \<^item> In \<open>api_step\<close> a completion belongs to a session that the server still lists; one for a dropped
    session is undefined (\<open>completion\<close>), and what the program does after it is not described.
  \<^item> The set-up of TLS (\<open>init_socket\<close>: certificates, verification callback) and of socket options: calls of
    OpenSSL and of the operating system without influence on the state of the client.
  \<^item> \<open>setenv\<close> of \<open>CommonData.cpp\<close>, \<open>DBusInt.h\<close>, and the variants for Windows, macOS and big-endian hosts: not
    compiled, or without effect on the rest. The development follows a release build for Linux, in
    which \<open>DEV_BUILD\<close> is not defined.
  \<^item> The overloads of \<open>picosha3.h\<close> for containers and files, which pass iterators on, and the results of
    floating point operations beyond their rounding, which is an argument.
\<close>

section \<open>Properties that span components\<close>

text \<open>
  C2: What a client reports can be handled. In every state that a stratum, getwork or simulation
  client reaches by commands of the manager, completions of its operations, data of the pool, and
  solutions of the \<open>n\<close> miners, each pending event takes a manager reachable with at least those
  miners to a reachable state, so that all invariants of the manager continue to hold; and the
  account of an accepted or rejected solution never throws.
\<close>

theorem client_events_handled:
  assumes "reach (st_init n) (st_step senv n) s1 \<and> ev \<in> set (st_events s1) \<or>
      reach (gw_init js n) (gw_step js n) s2 \<and> ev \<in> set (gw_events s2) \<or>
      reach (si_init n) (si_step env n) s3 \<and> ev \<in> set (si_events s3)"
    and "reach pm_init (pm_step env) p" and "n \<le> length (tm_miners (fm_telemetry (pm_farm p)))"
  shows "reach pm_init (pm_step env) (snd (handle_event env d ev p)) \<and> pm_inv (snd (handle_event env d ev p)) \<and>
    ((\<exists>t i b. ev = OnSolutionAccepted t i b \<or> ev = OnSolutionRejected t i) \<longrightarrow> fst (handle_event env d ev p) = None)"
proof -
  have st: "pm_step env p (snd (handle_event env d ev p))"
    using assms(1) stratum.client_event_step [OF _ _ assms(3)] getwork.client_event_step [OF _ _ assms(3)]
      simulation.client_event_step [OF _ _ assms(3)] by blast
  have r: "reach pm_init (pm_step env) (snd (handle_event env d ev p))"
    by (rule reach_step [OF assms(2) st])
  have i: "pm_inv (snd (handle_event env d ev p))"
    by (rule manager.reach_inv [OF r])
  have a: "fst (handle_event env d ev p) = None" if "ev = OnSolutionAccepted t i b \<or> ev = OnSolutionRejected t i" for t i b
    using assms(1) stratum.client_event_accounted [OF _ _ assms(3) that] getwork.client_event_accounted [OF _ _ assms(3) that]
      simulation.client_event_accounted [OF _ _ assms(3) that] by blast
  show ?thesis using r i a by auto
qed

lemma client_events_handled_witness:
  "\<forall>d. pm_inv (snd (handle_event sample_env d OnDisconnected (sample_manager [0, 1] 3)))"
proof
  fix d
  have "reach pm_init (pm_step sample_env) (sample_manager [0, 1] 3)" by (rule reach_init) (simp add: sample_init)
  moreover have "reach (st_init 0) (st_step (sample_st_env []) 0) unresolved_client \<and> OnDisconnected \<in> set (st_events unresolved_client)"
    using unresolved_client_reach by blast
  ultimately show "pm_inv (snd (handle_event sample_env d OnDisconnected (sample_manager [0, 1] 3)))"
    using client_events_handled [of 0 "sample_st_env []" unresolved_client OnDisconnected sample_http_json undefined sample_env undefined] by simp
qed

text \<open>
  C1: The extranonce is kept from the pool to the pool. The pool sets an extranonce of at most 16 hex
  digits and sends a job (CoreStratum/1.0.0); the manager hands the work on, and a miner finds a
  nonce in its segment. Then what the client submits for this nonce is a text that, written behind
  the extranonce, makes 16 hex digits whose value is the nonce: the pool reconstructs exactly the
  nonce that was found.
\<close>

theorem extranonce_kept:
  assumes "pc_session s = Some x" and "enonce \<noteq> []" and "list_all is_hexdigit enonce" and "length enonce \<le> 16"
    and "\<not> st_newjobprocessed s"
    and "notify_corestratum js now prm (snd (processExtranonce enonce s)) = (None, v)" and "st_newjobprocessed v"
    and "wp_valid (st_current v)" and "onWorkReceived env d (st_current v) p = (None, q)"
    and "i < length (fm_miners (pm_farm p))" and "\<not> miner_paused (fm_miners (pm_farm p) ! i)"
    and "length (fm_miners (pm_farm p)) \<le> 16 ^ (16 - length enonce)"
    and "unat (sol_nonce sol - wp_startNonce (mi_work (fm_miners (pm_farm q) ! i))) < 2 ^ unat (fm_nonce_segment_with (pm_farm q))"
    and "sol_work sol = mi_work (fm_miners (pm_farm q) ! i)" and "ur_stratumMode u = 2"
  shows "fst (processExtranonce enonce s) = None \<and>
    (\<exists>rest. submit_body u y sol = Inr [(''method'', JStr ''mining.submit''),
         (''params'', JArr [JStr (UserDotWorker u), JStr (wp_job (st_current v)), JStr rest])] \<and>
       length (enonce @ rest) = 16 \<and> hexnum (enonce @ rest) = unat (sol_nonce sol))"
proof -
  let ?w = "(st_current v)\<lparr>wp_epoch := epoch_of_work (en_ethash env) p (st_current v)\<rparr>" and ?k = "16 - length enonce"
  obtain t z where t: "processExtranonce enonce s = (None, t)" "pc_session t = Some z"
    "se_extraNonce z = of_nat (hexnum enonce * 16 ^ ?k)" "se_extraNonceSizeBytes z = of_nat (length enonce)"
    "\<not> st_newjobprocessed t"
    using processExtranonce_ok [OF assms(1-4)] assms(5) by auto
  have w: "wp_startNonce ?w = of_nat (hexnum enonce * 16 ^ ?k)" "wp_exSizeBytes ?w = of_nat (length enonce)"
    using notify_corestratum_nonce [OF assms(6) [unfolded t(1) snd_conv] assms(7) t(5,2)] t(3,4) by (simp_all add: ucast_small assms(4))
  have ex: "unat (wp_exSizeBytes ?w) = length enonce" using w(2) assms(4) by (simp add: unat_of_nat)
  have pos: "0 < wp_exSizeBytes ?w" using ex assms(2) by (metis length_0_conv unat_0 word_gt_0)
  have p: "(2 :: nat) ^ (64 - 4 * length enonce) = 16 ^ ?k"
    using power_mult [of "2 :: nat" 4 ?k] by (simp add: diff_mult_distrib2)
  note set = onWorkReceived_setWork(2) [OF assms(9,8)]
  have "unat (sol_nonce sol - wp_startNonce ?w) < 16 ^ ?k"
    using setWork_residual [OF set pos assms(10,11,13)] assms(12) unfolding ex p .
  then have "unat (sol_nonce sol) div 16 ^ ?k = hexnum enonce"
    using residual_nonce [OF assms(3,4)] unfolding w(1) by blast
  moreover obtain a where "sol_work sol = ?w\<lparr>wp_startNonce := a\<rparr>"
    using farm_setWork_miner_work [OF set assms(10,11)] unfolding assms(14) by blast
  then have "wp_exSizeBytes (sol_work sol) = wp_exSizeBytes ?w" "wp_job (sol_work sol) = wp_job (st_current v)"
    by simp_all
  ultimately show ?thesis
    using nonce_suffix_hexnum [OF assms(3,4) ex, of "sol_nonce sol"] assms(15) t(1)
    by (auto simp: submit_body_def Let_def)
qed

definition sample_extranonce_client :: Stratum where
  "sample_extranonce_client = (sample_client ''stratum2+tcp'')\<lparr>pc_session := Some ((new_Session 0)\<lparr>se_nextWorkBoundary := replicate 32 2\<rparr>)\<rparr>"

definition sample_notification :: jout where
  "sample_notification = JArr [JStr ''job'', JStr ''00'', JStr (concat (replicate 32 ''01''))]"

lemma sample_extranonce_work:
  "\<exists>v. notify_corestratum (sample_json []) 5 sample_notification (snd (processExtranonce ''ab'' sample_extranonce_client)) = (None, v) \<and>
     st_newjobprocessed v \<and> st_current v = sample_work"
proof -
  have d: "list_all is_hexdigit ''ab''" "length ''ab'' \<le> 16" by (simp_all add: is_hexdigit_def digit_val_def)
  have n: "hexnum ''ab'' = 0xab" by (simp add: hexnum_def digit_val_def)
  have "resize16 ''ab'' \<noteq> []" using resize16_hexnum(2) [OF d] by auto
  then have e: "stoul16 (resize16 ''ab'') = Inr 0xab00000000000000"
    using stoul16_digits [OF resize16_hexnum(1) [OF d]] resize16_hexnum(2,3) [OF d] by (simp add: n)
  have h: "h256_of (concat (replicate 32 ''01'')) = Inr (replicate 32 1)" "h256_of ''00'' = Inr h256_zero"
    "concat (replicate 32 ''01'') \<noteq> []"
    by code_simp+
  have i: "str_item (sample_json []) sample_notification 1 = Inr ''00''"
    "str_item (sample_json []) sample_notification 2 = Inr (concat (replicate 32 ''01''))"
    by code_simp+
  show ?thesis
    using h
    by (simp add: notify_corestratum_def i [unfolded One_nat_def] processExtranonce_def with_session_def sample_extranonce_client_def session_upd_def e
        upd_work_def new_job_def Let_def sample_work_def new_WorkPackage_def sample_client_defs new_Session_def)
qed

lemma extranonce_kept_witness:
  "\<exists>q rest. onWorkReceived sample_env sample_draw sample_work sample_mining = (None, q) \<and>
     submit_body (SetStratumMode 2 True (sample_uri ''eu'')) (new_Session 0)
       (Solution.make 0xab00000000000000 [] (mi_work (fm_miners (pm_farm q) ! 0)) 0 0) =
       Inr [(''method'', JStr ''mining.submit''), (''params'', JArr [JStr [], JStr [], JStr rest])] \<and>
     hexnum (''ab'' @ rest) = 0xab00000000000000"
proof -
  obtain v where v: "notify_corestratum (sample_json []) 5 sample_notification (snd (processExtranonce ''ab'' sample_extranonce_client)) = (None, v)"
    "st_newjobprocessed v" "st_current v = sample_work"
    using sample_extranonce_work by blast
  obtain q where q: "onWorkReceived sample_env sample_draw sample_work sample_mining = (None, q)"
    using sample_onWorkReceived(1) by blast
  let ?sol = "Solution.make 0xab00000000000000 [] (mi_work (fm_miners (pm_farm q) ! 0)) 0 0"
  have c: "pc_session sample_extranonce_client = Some ((new_Session 0)\<lparr>se_nextWorkBoundary := replicate 32 2\<rparr>)"
    "\<not> st_newjobprocessed sample_extranonce_client"
    by (simp_all add: sample_extranonce_client_def sample_client_defs)
  have e: "''ab'' \<noteq> ([] :: string)" "list_all is_hexdigit ''ab''" "length ''ab'' \<le> 16"
    by (simp_all add: is_hexdigit_def digit_val_def)
  have f: "pm_farm sample_mining = sample_farm" by (simp add: sample_mining_def)
  have m: "0 < length (fm_miners (pm_farm sample_mining))" "\<not> miner_paused (fm_miners (pm_farm sample_mining) ! 0)"
    "length (fm_miners (pm_farm sample_mining)) \<le> 16 ^ (16 - length ''ab'')"
    unfolding f using sample_farm_live(1) by (simp_all add: sample_farm_length)
  have w: "wp_valid sample_work" by code_simp
  have "wp_startNonce (mi_work (fm_miners (pm_farm q) ! 0)) = 0xab00000000000000"
    using farm_setWork_miner_work [OF onWorkReceived_setWork(2) [OF q w] m(1,2)] by (simp add: work_start_def sample_work_def)
  then have n: "unat (sol_nonce ?sol - wp_startNonce (mi_work (fm_miners (pm_farm q) ! 0))) < 2 ^ unat (fm_nonce_segment_with (pm_farm q))"
    "sol_work ?sol = mi_work (fm_miners (pm_farm q) ! 0)" "sol_nonce ?sol = 0xab00000000000000"
    by (simp_all add: Solution.defs)
  have u: "ur_stratumMode (SetStratumMode 2 True (sample_uri ''eu'')) = 2" "UserDotWorker (SetStratumMode 2 True (sample_uri ''eu'')) = []"
    "wp_job sample_work = []"
    by (simp_all add: SetStratumMode_def UserDotWorker_def sample_uri_def empty_URI_def sample_work_def new_WorkPackage_def)
  from extranonce_kept [OF c(1) e c(2) v(1,2), unfolded v(3), OF w q m n(1,2) u(1), of "new_Session 0"] q
  show ?thesis by (auto simp: u n(3))
qed

end
